theory Spec2Isabelle
  imports Complex_Main
begin

section \<open>Python primitives used by the recommendation core\<close>

text \<open>
  Python floats are modelled as exact reals: every formula is the source's formula with
  real arithmetic, so rounding errors of the binary representation are outside the model.
  Strings are byte strings (UTF-8); \<open>strip\<close>, \<open>upper\<close> and \<open>lower\<close> act on the ASCII
  range, which covers every literal the modelled code compares against.
\<close>

definition clamp :: "real \<Rightarrow> real \<Rightarrow> real \<Rightarrow> real" where
  \<comment> \<open>\<open>_clamp(v, lo, hi) = max(lo, min(hi, v))\<close>\<close>
  "clamp v lo hi = max lo (min hi v)"

definition py_round :: "real \<Rightarrow> int" where
  \<comment> \<open>\<open>round(x)\<close>: to the nearest integer, a tie to the even neighbour\<close>
  "py_round x =
     (let f = \<lfloor>x\<rfloor>; d = x - of_int f
      in if d < 1 / 2 then f else if 1 / 2 < d then f + 1 else if even f then f else f + 1)"

definition round_nd :: "real \<Rightarrow> nat \<Rightarrow> real" where
  \<comment> \<open>\<open>round(x, n)\<close> for \<open>n\<close> decimals\<close>
  "round_nd x n = of_int (py_round (x * 10 ^ n)) / 10 ^ n"

definition is_space :: "char \<Rightarrow> bool" where
  "is_space c = (of_char c \<in> {9, 10, 11, 12, 13, 28, 29, 30, 31, 32 :: nat})"

definition py_strip :: "string \<Rightarrow> string" where
  "py_strip s = rev (dropWhile is_space (rev (dropWhile is_space s)))"

definition upper_char :: "char \<Rightarrow> char" where
  "upper_char c = (let n = (of_char c :: nat) in if 97 \<le> n \<and> n \<le> 122 then char_of (n - 32) else c)"

definition lower_char :: "char \<Rightarrow> char" where
  "lower_char c = (let n = (of_char c :: nat) in if 65 \<le> n \<and> n \<le> 90 then char_of (n + 32) else c)"

definition py_upper :: "string \<Rightarrow> string" where
  "py_upper s = map upper_char s"

definition py_lower :: "string \<Rightarrow> string" where
  "py_lower s = map lower_char s"

definition str_or :: "string option \<Rightarrow> string \<Rightarrow> string" where
  \<comment> \<open>\<open>x or d\<close> for a nullable string: \<open>None\<close> and the empty string are falsy\<close>
  "str_or x d = (case x of None \<Rightarrow> d | Some s \<Rightarrow> if s = [] then d else s)"

definition num_or :: "real option \<Rightarrow> real \<Rightarrow> real" where
  \<comment> \<open>\<open>x or d\<close> for a nullable number: \<open>None\<close> and zero are falsy\<close>
  "num_or x d = (case x of None \<Rightarrow> d | Some v \<Rightarrow> if v = 0 then d else v)"

definition int_or :: "int option \<Rightarrow> int \<Rightarrow> int" where
  "int_or x d = (case x of None \<Rightarrow> d | Some v \<Rightarrow> if v = 0 then d else v)"

definition py_or :: "real option \<Rightarrow> real option \<Rightarrow> real option" where
  \<comment> \<open>\<open>a or b\<close> on nullable floats: \<open>b\<close> when \<open>a\<close> is \<open>None\<close> or zero\<close>
  "py_or a b = (case a of None \<Rightarrow> b | Some v \<Rightarrow> if v = 0 then b else a)"

definition truthy :: "real option \<Rightarrow> bool" where
  "truthy a = (case a of None \<Rightarrow> False | Some v \<Rightarrow> v \<noteq> 0)"

fun starts_with :: "string \<Rightarrow> string \<Rightarrow> bool" where
  "starts_with [] ys = True"
| "starts_with (x # xs) [] = False"
| "starts_with (x # xs) (y # ys) = (x = y \<and> starts_with xs ys)"

fun contains :: "string \<Rightarrow> string \<Rightarrow> bool" where
  \<comment> \<open>\<open>needle in text\<close>\<close>
  "contains needle [] = (needle = [])"
| "contains needle (c # cs) = (starts_with needle (c # cs) \<or> contains needle cs)"

definition py_dedupe :: "string list \<Rightarrow> string list" where
  \<comment> \<open>\<open>list(dict.fromkeys(xs))\<close>: the first occurrence of each element, in order\<close>
  "py_dedupe xs = rev (remdups (rev xs))"

section \<open>Text constants\<close>

text \<open>The Chinese texts of the source, as their UTF-8 bytes.\<close>

definition txt_bull_trend :: string where
  \<comment> \<open>UTF-8 bytes of the Chinese text for "moving averages in bullish alignment"\<close>
  "txt_bull_trend = [CHR 0xE5, CHR 0xA4, CHR 0x9A, CHR 0xE5, CHR 0xA4, CHR 0xB4, CHR 0xE6, CHR 0x8E, CHR 0x92, CHR 0xE5, CHR 0x88, CHR 0x97]"

definition txt_bear_trend :: string where
  \<comment> \<open>UTF-8 bytes of the Chinese text for "moving averages in bearish alignment"\<close>
  "txt_bear_trend = [CHR 0xE7, CHR 0xA9, CHR 0xBA, CHR 0xE5, CHR 0xA4, CHR 0xB4, CHR 0xE6, CHR 0x8E, CHR 0x92, CHR 0xE5, CHR 0x88, CHR 0x97]"

definition txt_golden_cross :: string where
  \<comment> \<open>UTF-8 bytes of the Chinese text for "golden cross"\<close>
  "txt_golden_cross = [CHR 0xE9, CHR 0x87, CHR 0x91, CHR 0xE5, CHR 0x8F, CHR 0x89]"

definition txt_death_cross :: string where
  \<comment> \<open>UTF-8 bytes of the Chinese text for "death cross"\<close>
  "txt_death_cross = [CHR 0xE6, CHR 0xAD, CHR 0xBB, CHR 0xE5, CHR 0x8F, CHR 0x89]"

definition txt_oversold :: string where
  \<comment> \<open>UTF-8 bytes of the Chinese text for "oversold"\<close>
  "txt_oversold = [CHR 0xE8, CHR 0xB6, CHR 0x85, CHR 0xE5, CHR 0x8D, CHR 0x96]"

definition txt_weak :: string where
  \<comment> \<open>UTF-8 bytes of the Chinese text for "weak"\<close>
  "txt_weak = [CHR 0xE5, CHR 0x81, CHR 0x8F, CHR 0xE5, CHR 0xBC, CHR 0xB1]"

definition txt_overbought :: string where
  \<comment> \<open>UTF-8 bytes of the Chinese text for "overbought"\<close>
  "txt_overbought = [CHR 0xE8, CHR 0xB6, CHR 0x85, CHR 0xE4, CHR 0xB9, CHR 0xB0]"

definition lbl_watch :: string where
  \<comment> \<open>UTF-8 bytes of the Chinese text for "watch"\<close>
  "lbl_watch = [CHR 0xE8, CHR 0xA7, CHR 0x82, CHR 0xE6, CHR 0x9C, CHR 0x9B]"

definition lbl_build :: string where
  \<comment> \<open>UTF-8 bytes of the Chinese text for "open a position"\<close>
  "lbl_build = [CHR 0xE5, CHR 0xBB, CHR 0xBA, CHR 0xE4, CHR 0xBB, CHR 0x93]"

definition lbl_prepare_add :: string where
  \<comment> \<open>UTF-8 bytes of the Chinese text for "prepare to add"\<close>
  "lbl_prepare_add = [CHR 0xE5, CHR 0x87, CHR 0x86, CHR 0xE5, CHR 0xA4, CHR 0x87, CHR 0xE5, CHR 0x8A, CHR 0xA0, CHR 0xE4, CHR 0xBB, CHR 0x93]"

definition lbl_avoid :: string where
  \<comment> \<open>UTF-8 bytes of the Chinese text for "avoid"\<close>
  "lbl_avoid = [CHR 0xE5, CHR 0x9B, CHR 0x9E, CHR 0xE9, CHR 0x81, CHR 0xBF]"

definition txt_breakout :: string where
  \<comment> \<open>UTF-8 bytes of the Chinese text for "breakout"\<close>
  "txt_breakout = [CHR 0xE7, CHR 0xAA, CHR 0x81, CHR 0xE7, CHR 0xA0, CHR 0xB4]"

definition txt_pullback :: string where
  \<comment> \<open>UTF-8 bytes of the Chinese text for "pullback"\<close>
  "txt_pullback = [CHR 0xE5, CHR 0x9B, CHR 0x9E, CHR 0xE8, CHR 0xB8, CHR 0xA9]"

definition txt_oversold_drop :: string where
  \<comment> \<open>UTF-8 bytes of the Chinese text for "oversold after a drop"\<close>
  "txt_oversold_drop = [CHR 0xE8, CHR 0xB6, CHR 0x85, CHR 0xE8, CHR 0xB7, CHR 0x8C]"


definition txt_portfolio_prefix :: string where
  \<comment> \<open>UTF-8 bytes of the Chinese text for "portfolio constraint: "\<close>
  "txt_portfolio_prefix = [CHR 0xE7, CHR 0xBB, CHR 0x84, CHR 0xE5, CHR 0x90, CHR 0x88, CHR 0xE7, CHR 0xBA, CHR 0xA6, CHR 0xE6, CHR 0x9D, CHR 0x9F, CHR 0x3A, CHR 0x20]"

definition txt_unheld_over :: string where
  \<comment> \<open>UTF-8 bytes of the Chinese text for " unheld opportunities over the limit("\<close>
  "txt_unheld_over = [CHR 0x20, CHR 0xE6, CHR 0x9C, CHR 0xAA, CHR 0xE6, CHR 0x8C, CHR 0x81, CHR 0xE4, CHR 0xBB, CHR 0x93, CHR 0xE6, CHR 0x9C, CHR 0xBA, CHR 0xE4, CHR 0xBC, CHR 0x9A, CHR 0xE8, CHR 0xB6, CHR 0x85, CHR 0xE9, CHR 0x99, CHR 0x90, CHR 0x28]"

definition txt_high_risk_over :: string where
  \<comment> \<open>UTF-8 bytes of the Chinese text for " high-risk share over the limit("\<close>
  "txt_high_risk_over = [CHR 0x20, CHR 0xE9, CHR 0xAB, CHR 0x98, CHR 0xE9, CHR 0xA3, CHR 0x8E, CHR 0xE9, CHR 0x99, CHR 0xA9, CHR 0xE5, CHR 0x8D, CHR 0xA0, CHR 0xE6, CHR 0xAF, CHR 0x94, CHR 0xE8, CHR 0xB6, CHR 0x85, CHR 0xE9, CHR 0x99, CHR 0x90, CHR 0x28]"

definition txt_strategy :: string where
  \<comment> \<open>UTF-8 bytes of the Chinese text for " strategy"\<close>
  "txt_strategy = [CHR 0x20, CHR 0xE7, CHR 0xAD, CHR 0x96, CHR 0xE7, CHR 0x95, CHR 0xA5]"

definition txt_concentration :: string where
  \<comment> \<open>UTF-8 bytes of the Chinese text for "concentration too high"\<close>
  "txt_concentration = [CHR 0xE9, CHR 0x9B, CHR 0x86, CHR 0xE4, CHR 0xB8, CHR 0xAD, CHR 0xE5, CHR 0xBA, CHR 0xA6, CHR 0xE8, CHR 0xBF, CHR 0x87, CHR 0xE9, CHR 0xAB, CHR 0x98]"

definition txt_semicolon :: string where
  \<comment> \<open>UTF-8 bytes of the Chinese text for "a full-width semicolon"\<close>
  "txt_semicolon = [CHR 0xEF, CHR 0xBC, CHR 0x9B]"

section \<open>Strategy scorer (\<open>strategy_engine._compute_factor_breakdown\<close>)\<close>

text \<open>
  The columns of an \<open>EntryCandidate\<close> the scorer reads. The change percentage and the
  turnover are looked up in \<open>meta["quote"]\<close> first and in
  \<open>meta["source_meta"]["quote"]\<close> when the first is absent; the volume ratio comes from
  \<open>meta["kline"]\<close>.
\<close>

record scored_candidate =
  sc_score :: "real option"
  sc_action :: "string option"
  sc_status :: "string option"
  sc_is_holding_snapshot :: bool
  sc_signal :: "string option"
  sc_reason :: "string option"
  sc_plan_quality :: "int option"
  sc_candidate_source :: "string option"
  sc_source_agent :: "string option"
  sc_entry_low :: "real option"
  sc_entry_high :: "real option"
  sc_quote_change_pct :: "real option"
  sc_source_quote_change_pct :: "real option"
  sc_kline_volume_ratio :: "real option"
  sc_quote_turnover :: "real option"
  sc_source_quote_turnover :: "real option"

record cross_feature =
  cf_relative_strength_pct :: "real option"
  cf_crowding_risk :: "real option"

record news_metric =
  nm_event_score :: "real option"
  nm_event_bias :: "real option"
  nm_news_count :: "int option"

record regime_info =
  ri_regime :: "string option"
  ri_confidence :: "real option"

record factor_breakdown =
  fb_base_score :: real
  fb_alpha_score :: real
  fb_catalyst_score :: real
  fb_quality_score :: real
  fb_risk_penalty :: real
  fb_crowd_penalty :: real
  fb_source_bonus :: real
  fb_regime :: string
  fb_regime_multiplier :: real
  fb_raw_score :: real
  fb_weighted_score :: real
  fb_weight :: real
  fb_has_entry_plan :: bool

definition extract_quote_change_pct :: "scored_candidate \<Rightarrow> real option" where
  "extract_quote_change_pct row =
     (case sc_quote_change_pct row of Some v \<Rightarrow> Some v | None \<Rightarrow> sc_source_quote_change_pct row)"

definition extract_turnover :: "scored_candidate \<Rightarrow> real option" where
  "extract_turnover row =
     (case sc_quote_turnover row of Some v \<Rightarrow> Some v | None \<Rightarrow> sc_source_quote_turnover row)"

definition row_action :: "scored_candidate \<Rightarrow> string" where
  \<comment> \<open>\<open>(row.action or "watch").strip().lower() or "watch"\<close>\<close>
  "row_action row =
     (let a = py_lower (py_strip (str_or (sc_action row) ''watch'')) in if a = [] then ''watch'' else a)"

definition row_active :: "scored_candidate \<Rightarrow> bool" where
  "row_active row = (str_or (sc_status row) ''inactive'' = ''active'')"

definition has_entry :: "scored_candidate \<Rightarrow> bool" where
  "has_entry row = (sc_entry_low row \<noteq> None \<or> sc_entry_high row \<noteq> None)"

definition row_plan_quality :: "scored_candidate \<Rightarrow> int" where
  "row_plan_quality row = int_or (sc_plan_quality row) 0"

definition rel_strength :: "cross_feature option \<Rightarrow> real option" where
  "rel_strength cf = (case cf of None \<Rightarrow> None | Some c \<Rightarrow> cf_relative_strength_pct c)"

definition event_bias_of :: "news_metric option \<Rightarrow> real" where
  "event_bias_of nm = (case nm of None \<Rightarrow> 0 | Some n \<Rightarrow> num_or (nm_event_bias n) 0)"

definition alpha_score_of :: "scored_candidate \<Rightarrow> cross_feature option \<Rightarrow> real" where
  "alpha_score_of row cf =
     clamp ((num_or (sc_score row) 0 - 50) * (45 / 100)) (- 12) 18
     + (case rel_strength cf of None \<Rightarrow> 0 | Some rs \<Rightarrow> clamp ((rs - 50) / 15) (- 2) 4)"

definition catalyst_score_of ::
  "scored_candidate \<Rightarrow> cross_feature option \<Rightarrow> news_metric option \<Rightarrow> real" where
  "catalyst_score_of row cf nm =
     (let signal_text = py_lower (str_or (sc_signal row) [] @ '' '' @ str_or (sc_reason row) []);
          event_score = (case nm of None \<Rightarrow> 0 | Some n \<Rightarrow> num_or (nm_event_score n) 0)
      in (if py_strip (str_or (sc_candidate_source row) []) \<in> {''market_scan'', ''mixed''}
          then 25 / 10 else 0)
         + (case extract_quote_change_pct row of
              None \<Rightarrow> 0
            | Some pct \<Rightarrow> if 1 \<le> pct \<and> pct \<le> 7 then 4
                          else if 9 < pct then 15 / 10
                          else if pct < - 4 then - (25 / 10) else 0)
         + (if contains txt_breakout signal_text \<or> contains ''breakout'' signal_text
            then 25 / 10 else 0)
         + (if contains txt_pullback signal_text then 15 / 10 else 0)
         + (if contains txt_oversold_drop signal_text then 1 else 0)
         + clamp (event_score * (55 / 100)) (- 3) (65 / 10)
         + (if 8 / 10 < event_bias_of nm then 12 / 10 else 0)
         + (case rel_strength cf of None \<Rightarrow> 0 | Some rs \<Rightarrow> clamp ((rs - 60) / 12) (- (25 / 10)) (45 / 10)))"

definition quality_score_of :: "scored_candidate \<Rightarrow> news_metric option \<Rightarrow> real" where
  "quality_score_of row nm =
     clamp ((of_int (row_plan_quality row) - 50) / 5) (- 8) 10
     + (if 3 \<le> (case nm of None \<Rightarrow> 0 | Some n \<Rightarrow> int_or (nm_news_count n) 0) then 8 / 10 else 0)"

definition risk_penalty_of :: "scored_candidate \<Rightarrow> string \<Rightarrow> news_metric option \<Rightarrow> real" where
  "risk_penalty_of row risk_level nm =
     (if risk_level = ''high'' then 15 / 10 else 0)
     + (case extract_quote_change_pct row of
          None \<Rightarrow> 0 | Some pct \<Rightarrow> if 8 \<le> \<bar>pct\<bar> then 2 else 0)
     + (if \<not> row_active row then 25 / 10 else 0)
     + (if row_plan_quality row < 70 then 15 / 10 else 0)
     + (if event_bias_of nm < - (9 / 10) then 22 / 10 else 0)"

definition crowd_penalty_of :: "scored_candidate \<Rightarrow> cross_feature option \<Rightarrow> real" where
  "crowd_penalty_of row cf =
     (case extract_quote_change_pct row of
        None \<Rightarrow> 0 | Some pct \<Rightarrow> if 9 \<le> pct then 25 / 10 else 0)
     + (case sc_kline_volume_ratio row of
          None \<Rightarrow> 0 | Some vr \<Rightarrow> if 3 \<le> vr then 15 / 10 else 0)
     + (case extract_turnover row of
          None \<Rightarrow> 0 | Some t \<Rightarrow> if 8000000000 \<le> t then 1 else 0)
     + clamp (case cf of None \<Rightarrow> 0 | Some c \<Rightarrow> num_or (cf_crowding_risk c) 0) 0 6"

definition source_bonus_of :: "scored_candidate \<Rightarrow> string \<Rightarrow> cross_feature option \<Rightarrow> real" where
  "source_bonus_of row strategy_code cf =
     (if str_or (sc_source_agent row) [] \<in> {''premarket_outlook'', ''intraday_monitor''} then 1 else 0)
     + (if strategy_code \<in> {''trend_follow'', ''volume_breakout'', ''macd_golden''} then 8 / 10 else 0)
     + (case rel_strength cf of None \<Rightarrow> 0 | Some rs \<Rightarrow> if 80 \<le> rs then 8 / 10 else 0)"

definition regime_of :: "regime_info option \<Rightarrow> string" where
  "regime_of ri = (case ri of None \<Rightarrow> ''neutral'' | Some r \<Rightarrow> str_or (ri_regime r) ''neutral'')"

definition regime_multiplier_of :: "scored_candidate \<Rightarrow> regime_info option \<Rightarrow> real" where
  "regime_multiplier_of row ri =
     (let regime = regime_of ri;
          confidence = (case ri of None \<Rightarrow> 0 | Some r \<Rightarrow> num_or (ri_confidence r) 0);
          m0 = (if regime = ''bullish''
                then (if row_action row \<in> {''buy'', ''add''} then 106 / 100 else 101 / 100)
                else if regime = ''bearish''
                then (if row_action row \<in> {''buy'', ''add''} then 90 / 100 else 97 / 100)
                else 1)
      in clamp (m0 + clamp ((confidence - 1 / 2) * (6 / 100)) (- (3 / 100)) (3 / 100))
           (85 / 100) (112 / 100))"

definition raw_score_of ::
  "scored_candidate \<Rightarrow> string \<Rightarrow> string \<Rightarrow> cross_feature option \<Rightarrow> news_metric option \<Rightarrow> real" where
  "raw_score_of row strategy_code risk_level cf nm =
     num_or (sc_score row) 0 + alpha_score_of row cf + catalyst_score_of row cf nm
       + quality_score_of row nm + source_bonus_of row strategy_code cf
     - risk_penalty_of row risk_level nm
     - crowd_penalty_of row cf
     - (if row_action row \<in> {''buy'', ''add''} \<and> \<not> has_entry row then 8 else 0)
     - (if row_action row \<in> {''buy'', ''add''} \<and> row_plan_quality row < 90 then 6 else 0)"

definition cap_score :: "scored_candidate \<Rightarrow> real \<Rightarrow> real" where
  \<comment> \<open>the three caps applied to the clamped score, in the source's order\<close>
  "cap_score row s =
     (let s1 = (if \<not> row_active row then min s 69 else s);
          s2 = (if row_action row \<in> {''hold'', ''watch''}
                then min s1 (if sc_is_holding_snapshot row then 78 else 65) else s1)
      in if row_action row \<in> {''buy'', ''add''} \<and> \<not> has_entry row then min s2 66 else s2)"

definition compute_factor_breakdown ::
  "scored_candidate \<Rightarrow> string \<Rightarrow> real \<Rightarrow> string \<Rightarrow> regime_info option \<Rightarrow>
   cross_feature option \<Rightarrow> news_metric option \<Rightarrow> factor_breakdown" where
  "compute_factor_breakdown row strategy_code weight risk_level ri cf nm =
     (let w = (if weight = 0 then 1 else weight);
          raw_score = raw_score_of row strategy_code risk_level cf nm;
          regime_multiplier = regime_multiplier_of row ri;
          final_score = cap_score row (clamp (raw_score * w * regime_multiplier) 0 100)
      in \<lparr>fb_base_score = round_nd (num_or (sc_score row) 0) 4,
          fb_alpha_score = round_nd (alpha_score_of row cf) 4,
          fb_catalyst_score = round_nd (catalyst_score_of row cf nm) 4,
          fb_quality_score = round_nd (quality_score_of row nm) 4,
          fb_risk_penalty = round_nd (risk_penalty_of row risk_level nm) 4,
          fb_crowd_penalty = round_nd (crowd_penalty_of row cf) 4,
          fb_source_bonus = round_nd (source_bonus_of row strategy_code cf) 4,
          fb_regime = regime_of ri,
          fb_regime_multiplier = round_nd regime_multiplier 4,
          fb_raw_score = round_nd raw_score 4,
          fb_weighted_score = round_nd final_score 4,
          fb_weight = round_nd w 4,
          fb_has_entry_plan = has_entry row\<rparr>)"

definition rank_score_of :: "factor_breakdown \<Rightarrow> real" where
  \<comment> \<open>\<open>float(score_breakdown.get("weighted_score") or 0.0)\<close>, stored as the signal's \<open>rank_score\<close>\<close>
  "rank_score_of b = fb_weighted_score b"

text \<open>
  The rank score as the specification words it: the weight and the regime multiplier scale
  the base score alone and the factor terms are added to that product.
\<close>

definition spec_rank_score :: "factor_breakdown \<Rightarrow> real \<Rightarrow> real" where
  "spec_rank_score b weight =
     clamp (fb_base_score b * weight * fb_regime_multiplier b + fb_alpha_score b
            + fb_catalyst_score b + fb_quality_score b + fb_source_bonus b
            - fb_risk_penalty b - fb_crowd_penalty b) 0 100"

text \<open>
  A worked candidate: score 60, action \<open>buy\<close>, active, plan quality 100 with an entry
  band, no quote, cross-section or news data, neutral regime with confidence 0.5,
  strategy \<open>watchlist_agent\<close> with weight 1.2 and medium risk.
\<close>

definition ex_scored :: scored_candidate where
  "ex_scored = \<lparr>sc_score = Some 60, sc_action = Some ''buy'', sc_status = Some ''active'',
      sc_is_holding_snapshot = False, sc_signal = None, sc_reason = None,
      sc_plan_quality = Some 100, sc_candidate_source = Some ''watchlist'',
      sc_source_agent = None, sc_entry_low = Some 99, sc_entry_high = Some 101,
      sc_quote_change_pct = None, sc_source_quote_change_pct = None,
      sc_kline_volume_ratio = None, sc_quote_turnover = None, sc_source_quote_turnover = None\<rparr>"

definition ex_regime :: "regime_info option" where
  "ex_regime = Some \<lparr>ri_regime = Some ''neutral'', ri_confidence = Some (1 / 2)\<rparr>"

definition ex_breakdown :: factor_breakdown where
  "ex_breakdown = compute_factor_breakdown ex_scored ''watchlist_agent'' (12 / 10) ''medium''
                    ex_regime None None"

text \<open>
  The same candidate with its status, action, holding flag and entry band left open; the
  worked candidate is \<open>ex_scored_with (Some ''active'') (Some ''buy'') False (Some 99) (Some 101)\<close>.
\<close>

definition ex_scored_with ::
  "string option \<Rightarrow> string option \<Rightarrow> bool \<Rightarrow> real option \<Rightarrow> real option \<Rightarrow> scored_candidate" where
  "ex_scored_with st act held lo hi = \<lparr>sc_score = Some 60, sc_action = act, sc_status = st,
      sc_is_holding_snapshot = held, sc_signal = None, sc_reason = None,
      sc_plan_quality = Some 100, sc_candidate_source = Some ''watchlist'',
      sc_source_agent = None, sc_entry_low = lo, sc_entry_high = hi,
      sc_quote_change_pct = None, sc_source_quote_change_pct = None,
      sc_kline_volume_ratio = None, sc_quote_turnover = None, sc_source_quote_turnover = None\<rparr>"

section \<open>Portfolio constraints (\<open>strategy_engine._apply_portfolio_constraints\<close>)\<close>

text \<open>
  The rows passed to \<open>_apply_portfolio_constraints\<close> are the signal objects touched by
  the refresh, one object per (candidate, strategy) pair; the model holds them in a list
  and names a row by its position. A demotion updates the row in place.
\<close>

record signal_run =
  sr_stock_market :: "string option"
  sr_status :: "string option"
  sr_action :: "string option"
  sr_action_label :: "string option"
  sr_is_holding_snapshot :: bool
  sr_risk_level :: "string option"
  sr_strategy_code :: "string option"
  sr_rank_score :: "real option"
  sr_confidence :: "real option"
  sr_reason :: "string option"
  sr_breakdown_weighted :: "real option"
  sr_constraint_reasons :: "string list"
  sr_constrained :: bool

definition digit_char :: "nat \<Rightarrow> char" where
  "digit_char n = char_of (48 + n)"

function show_nat :: "nat \<Rightarrow> string" where
  "show_nat n = (if n < 10 then [digit_char n] else show_nat (n div 10) @ [digit_char (n mod 10)])"
  by pat_completeness auto
termination
  by (relation "measure id") auto

definition py_int :: "real \<Rightarrow> int" where
  \<comment> \<open>\<open>int(x)\<close> truncates toward zero\<close>
  "py_int x = (if 0 \<le> x then \<lfloor>x\<rfloor> else \<lceil>x\<rceil>)"

definition MAX_UNHELD_ACTIVE_BY_MARKET :: "string \<rightharpoonup> nat" where
  "MAX_UNHELD_ACTIVE_BY_MARKET = [''CN'' \<mapsto> 30, ''HK'' \<mapsto> 20, ''US'' \<mapsto> 20]"

definition MAX_HIGH_RISK_RATIO_BY_MARKET :: "string \<rightharpoonup> real" where
  "MAX_HIGH_RISK_RATIO_BY_MARKET = [''CN'' \<mapsto> 35 / 100, ''HK'' \<mapsto> 32 / 100, ''US'' \<mapsto> 30 / 100]"

definition MAX_SINGLE_STRATEGY_SHARE :: real where
  "MAX_SINGLE_STRATEGY_SHARE = 42 / 100"

definition max_unheld_of :: "string \<Rightarrow> nat" where
  "max_unheld_of market = (case MAX_UNHELD_ACTIVE_BY_MARKET market of None \<Rightarrow> 20 | Some n \<Rightarrow> n)"

definition max_ratio_of :: "string \<Rightarrow> real" where
  "max_ratio_of market = (case MAX_HIGH_RISK_RATIO_BY_MARKET market of None \<Rightarrow> 32 / 100 | Some r \<Rightarrow> r)"

definition sig_market :: "signal_run \<Rightarrow> string" where
  \<comment> \<open>\<open>(r.stock_market or "CN").strip().upper() or "CN"\<close>\<close>
  "sig_market r =
     (let m = py_upper (py_strip (str_or (sr_stock_market r) ''CN'')) in if m = [] then ''CN'' else m)"

definition sig_active :: "signal_run \<Rightarrow> bool" where
  "sig_active r = (str_or (sr_status r) ''inactive'' = ''active'')"

definition sig_eligible :: "signal_run \<Rightarrow> bool" where
  "sig_eligible r =
     (sig_active r \<and> \<not> sr_is_holding_snapshot r \<and> str_or (sr_action r) ''watch'' \<in> {''buy'', ''add''})"

definition sig_rank :: "signal_run \<Rightarrow> real" where
  "sig_rank r = num_or (sr_rank_score r) 0"

definition sig_high :: "signal_run \<Rightarrow> bool" where
  "sig_high r = (str_or (sr_risk_level r) ''medium'' = ''high'')"

definition sig_strategy :: "signal_run \<Rightarrow> string" where
  "sig_strategy r = str_or (sr_strategy_code r) ''unknown''"

definition demote_signal :: "signal_run \<Rightarrow> string \<Rightarrow> signal_run" where
  "demote_signal row reason =
     (let demoted_cap = (if sr_is_holding_snapshot row then 69 else 65);
          rank = min (num_or (sr_rank_score row) 0) demoted_cap;
          reasons = filter (\<lambda>x. py_strip x \<noteq> []) (sr_constraint_reasons row) @ [reason]
      in row\<lparr>sr_status := Some ''inactive'',
             sr_action := Some ''watch'',
             sr_action_label := Some lbl_watch,
             sr_rank_score := Some rank,
             sr_confidence := (case sr_confidence row of
                                 None \<Rightarrow> None
                               | Some c \<Rightarrow> Some (min (num_or (Some c) 0) (demoted_cap / 100))),
             sr_breakdown_weighted := (case sr_breakdown_weighted row of
                                         None \<Rightarrow> None
                                       | Some w \<Rightarrow> Some (round_nd rank 4)),
             sr_constraint_reasons := take 6 reasons,
             sr_constrained := True,
             sr_reason := (case sr_reason row of
                             None \<Rightarrow> Some reason
                           | Some old \<Rightarrow> if old = [] then Some reason
                                        else if contains reason old then Some old
                                        else Some (old @ txt_semicolon @ reason))\<rparr>)"

record pc_state =
  pc_rows :: "signal_run list"
  pc_demoted :: nat
  pc_cap_unheld :: nat
  pc_cap_high_risk :: nat
  pc_cap_strategy :: nat

datatype cap_kind = CapUnheld | CapHighRisk | CapStrategy

definition count_demotion :: "cap_kind \<Rightarrow> pc_state \<Rightarrow> pc_state" where
  "count_demotion kind st =
     (case kind of
        CapUnheld \<Rightarrow> st\<lparr>pc_demoted := pc_demoted st + 1, pc_cap_unheld := pc_cap_unheld st + 1\<rparr>
      | CapHighRisk \<Rightarrow> st\<lparr>pc_demoted := pc_demoted st + 1, pc_cap_high_risk := pc_cap_high_risk st + 1\<rparr>
      | CapStrategy \<Rightarrow> st\<lparr>pc_demoted := pc_demoted st + 1, pc_cap_strategy := pc_cap_strategy st + 1\<rparr>)"

definition demote_at :: "cap_kind \<Rightarrow> string \<Rightarrow> nat \<Rightarrow> pc_state \<Rightarrow> pc_state" where
  "demote_at kind reason i st =
     count_demotion kind (st\<lparr>pc_rows := (pc_rows st)[i := demote_signal (pc_rows st ! i) reason]\<rparr>)"

definition demote_beyond :: "nat \<Rightarrow> cap_kind \<Rightarrow> string \<Rightarrow> nat list \<Rightarrow> pc_state \<Rightarrow> pc_state" where
  \<comment> \<open>\<open>for idx, row in enumerate(xs): if idx < n: continue; demote\<close>\<close>
  "demote_beyond n kind reason xs st =
     fold (\<lambda>(idx, i) s. if idx < n then s else demote_at kind reason i s) (List.enumerate 0 xs) st"

definition sort_desc :: "signal_run list \<Rightarrow> nat list \<Rightarrow> nat list" where
  \<comment> \<open>\<open>xs.sort(key=rank_score, reverse=True)\<close>: stable, highest rank first\<close>
  "sort_desc rows xs = sort_key (\<lambda>i. - sig_rank (rows ! i)) xs"

fun setdefault_append :: "'k \<Rightarrow> 'v \<Rightarrow> ('k \<times> 'v list) list \<Rightarrow> ('k \<times> 'v list) list" where
  "setdefault_append k v [] = [(k, [v])]"
| "setdefault_append k v ((k', vs) # rest) =
     (if k = k' then (k', vs @ [v]) # rest else (k', vs) # setdefault_append k v rest)"

definition group_by :: "('v \<Rightarrow> 'k) \<Rightarrow> 'v list \<Rightarrow> ('k \<times> 'v list) list" where
  \<comment> \<open>\<open>for x in xs: d.setdefault(key(x), []).append(x)\<close>, the items in insertion order\<close>
  "group_by f xs = fold (\<lambda>x acc. setdefault_append (f x) x acc) xs []"

definition reason_unheld :: "string \<Rightarrow> nat \<Rightarrow> string" where
  "reason_unheld market n = txt_portfolio_prefix @ market @ txt_unheld_over @ show_nat n @ '')''"

definition reason_high_risk :: "string \<Rightarrow> real \<Rightarrow> string" where
  "reason_high_risk market ratio =
     txt_portfolio_prefix @ market @ txt_high_risk_over @ show_nat (nat (py_int (ratio * 100))) @ ''%)''"

definition reason_strategy :: "string \<Rightarrow> string \<Rightarrow> string" where
  "reason_strategy market sc = txt_portfolio_prefix @ market @ txt_strategy @ sc @ txt_concentration"

definition allow_high_of :: "string \<Rightarrow> nat \<Rightarrow> nat" where
  \<comment> \<open>\<open>max(1, int(round(len(remaining) * max_ratio)))\<close>\<close>
  "allow_high_of market n = nat (max 1 (py_round (of_nat n * max_ratio_of market)))"

definition cap_per_strategy_of :: "nat \<Rightarrow> nat" where
  \<comment> \<open>\<open>max(1, int(round(len(final_rows) * MAX_SINGLE_STRATEGY_SHARE)))\<close>\<close>
  "cap_per_strategy_of n = nat (max 1 (py_round (of_nat n * MAX_SINGLE_STRATEGY_SHARE)))"

definition cap_high_risk :: "string \<Rightarrow> nat list \<Rightarrow> pc_state \<Rightarrow> pc_state" where
  "cap_high_risk market remaining st =
     (let high_rows = filter (\<lambda>i. sig_high (pc_rows st ! i)) remaining;
          max_ratio = max_ratio_of market;
          allow_high = allow_high_of market (length remaining)
      in demote_beyond allow_high CapHighRisk (reason_high_risk market max_ratio)
           (sort_desc (pc_rows st) high_rows) st)"

definition cap_strategy :: "string \<Rightarrow> nat list \<Rightarrow> pc_state \<Rightarrow> pc_state" where
  "cap_strategy market final_rows st =
     (let cap = cap_per_strategy_of (length final_rows);
          by_strategy = group_by (\<lambda>i. sig_strategy (pc_rows st ! i)) final_rows
      in fold (\<lambda>(sc, srows) s.
                 demote_beyond cap CapStrategy (reason_strategy market sc)
                   (sort_desc (pc_rows s) srows) s)
           by_strategy st)"

definition constrain_market :: "string \<Rightarrow> nat list \<Rightarrow> pc_state \<Rightarrow> pc_state" where
  "constrain_market market market_rows st =
     (let active_unheld = sort_desc (pc_rows st)
                            (filter (\<lambda>i. sig_eligible (pc_rows st ! i)) market_rows);
          max_unheld = max_unheld_of market;
          st1 = demote_beyond max_unheld CapUnheld (reason_unheld market max_unheld) active_unheld st;
          remaining = filter (\<lambda>i. sig_active (pc_rows st1 ! i)) (take max_unheld active_unheld)
      in if remaining = [] then st1
         else
           let st2 = cap_high_risk market remaining st1;
               final_rows = filter (\<lambda>i. sig_active (pc_rows st2 ! i)) remaining
           in if final_rows = [] then st2 else cap_strategy market final_rows st2)"

definition apply_portfolio_constraints :: "signal_run list \<Rightarrow> pc_state" where
  "apply_portfolio_constraints rows =
     fold (\<lambda>(market, market_rows) st. constrain_market market market_rows st)
       (group_by (\<lambda>i. sig_market (rows ! i)) [0..<length rows])
       \<lparr>pc_rows = rows, pc_demoted = 0, pc_cap_unheld = 0, pc_cap_high_risk = 0, pc_cap_strategy = 0\<rparr>"

text \<open>What the claims speak of: the eligible pool of a market, and a demoted row.\<close>

definition pool :: "signal_run list \<Rightarrow> string \<Rightarrow> nat list" where
  "pool rows market =
     filter (\<lambda>i. sig_market (rows ! i) = market \<and> sig_eligible (rows ! i)) [0..<length rows]"

definition is_demoted :: "signal_run \<Rightarrow> bool" where
  "is_demoted r = (sr_constrained r \<and> sr_status r = Some ''inactive'' \<and> sr_action r = Some ''watch'')"

text \<open>
  The relation between the rows before and after some demotions: the list keeps its
  length, and a row is either as it was or a demoted row at a position of \<open>S\<close>.
\<close>

definition evolves :: "nat set \<Rightarrow> signal_run list \<Rightarrow> signal_run list \<Rightarrow> bool" where
  "evolves S rows rows' =
     (length rows' = length rows \<and>
      (\<forall>i < length rows. rows' ! i = rows ! i \<or> (i \<in> S \<and> is_demoted (rows' ! i))))"

definition grouped :: "('v \<Rightarrow> 'k) \<Rightarrow> 'v list \<Rightarrow> ('k \<times> 'v list) list \<Rightarrow> bool" where
  "grouped f xs acc =
     (distinct (map fst acc) \<and> (\<forall>x \<in> set xs. f x \<in> fst ` set acc) \<and>
      (\<forall>(k, vs) \<in> set acc. vs = filter (\<lambda>x. f x = k) xs))"

definition active_count :: "signal_run list \<Rightarrow> nat list \<Rightarrow> nat" where
  \<comment> \<open>how many of the rows at the given positions are active\<close>
  "active_count rows xs = length (filter (\<lambda>i. sig_active (rows ! i)) xs)"

definition high_risk_share :: "signal_run list \<Rightarrow> nat list \<Rightarrow> real" where
  \<comment> \<open>the share of high-risk rows among the active rows at the given positions\<close>
  "high_risk_share rows xs =
     of_nat (length (filter (\<lambda>i. sig_active (rows ! i) \<and> sig_high (rows ! i)) xs))
       / of_nat (active_count rows xs)"

definition high_count :: "signal_run list \<Rightarrow> nat list \<Rightarrow> nat" where
  "high_count rows xs = length (filter (\<lambda>i. sig_high (rows ! i)) xs)"

definition init_state :: "signal_run list \<Rightarrow> pc_state" where
  "init_state rows =
     \<lparr>pc_rows = rows, pc_demoted = 0, pc_cap_unheld = 0, pc_cap_high_risk = 0, pc_cap_strategy = 0\<rparr>"

text \<open>
  The outcome of the three caps of one market, read off the rows as they are before the
  call. \<open>top_ranked\<close> are the first N of the eligible pool by rank score;
  \<open>high_risk_kept\<close> and \<open>high_risk_excess\<close> split the high-risk rows among some
  survivors at the allowance; a survivor is \<open>over_strategy_cap\<close> when it is ranked
  beyond the per-strategy cap among the survivors of its own strategy.
\<close>

definition top_ranked :: "signal_run list \<Rightarrow> string \<Rightarrow> nat list" where
  "top_ranked rows m = take (max_unheld_of m) (sort_desc rows (pool rows m))"

definition high_risk_kept :: "signal_run list \<Rightarrow> string \<Rightarrow> nat list \<Rightarrow> nat list" where
  "high_risk_kept rows m xs =
     take (allow_high_of m (length xs)) (sort_desc rows (filter (\<lambda>i. sig_high (rows ! i)) xs))"

definition high_risk_excess :: "signal_run list \<Rightarrow> string \<Rightarrow> nat list \<Rightarrow> nat list" where
  "high_risk_excess rows m xs =
     drop (allow_high_of m (length xs)) (sort_desc rows (filter (\<lambda>i. sig_high (rows ! i)) xs))"

definition within_high_risk :: "signal_run list \<Rightarrow> string \<Rightarrow> nat list" where
  "within_high_risk rows m =
     filter (\<lambda>i. i \<notin> set (high_risk_excess rows m (top_ranked rows m))) (top_ranked rows m)"

definition over_strategy_cap :: "signal_run list \<Rightarrow> nat list \<Rightarrow> nat \<Rightarrow> bool" where
  "over_strategy_cap rows xs i =
     (i \<in> set (drop (cap_per_strategy_of (length xs))
                 (sort_desc rows (filter (\<lambda>j. sig_strategy (rows ! j) = sig_strategy (rows ! i)) xs))))"

definition strategy_excess :: "signal_run list \<Rightarrow> string \<Rightarrow> nat list" where
  "strategy_excess rows m =
     filter (over_strategy_cap rows (within_high_risk rows m)) (within_high_risk rows m)"

definition kept :: "signal_run list \<Rightarrow> string \<Rightarrow> nat list" where
  "kept rows m =
     filter (\<lambda>i. \<not> over_strategy_cap rows (within_high_risk rows m) i) (within_high_risk rows m)"

text \<open>
  Worked rows: active, unheld \<open>buy\<close> signals of one market. \<open>ex_rows21\<close> has 21 of them
  in market HK (cap 20) with ranks 90 down to 70, the first nine of strategy \<open>a\<close>.
\<close>

definition ex_sig :: "string \<Rightarrow> string \<Rightarrow> string \<Rightarrow> real \<Rightarrow> signal_run" where
  "ex_sig market risk sc rank =
     \<lparr>sr_stock_market = Some market, sr_status = Some ''active'', sr_action = Some ''buy'',
      sr_action_label = None, sr_is_holding_snapshot = False, sr_risk_level = Some risk,
      sr_strategy_code = Some sc, sr_rank_score = Some rank, sr_confidence = None,
      sr_reason = None, sr_breakdown_weighted = None, sr_constraint_reasons = [],
      sr_constrained = False\<rparr>"

definition ex_rows21 :: "signal_run list" where
  "ex_rows21 =
     map (\<lambda>(sc, rank). ex_sig ''HK'' ''medium'' sc rank)
       [(''a'', 90), (''a'', 89), (''a'', 88), (''a'', 87), (''a'', 86), (''a'', 85), (''a'', 84),
        (''a'', 83), (''a'', 82), (''b'', 81), (''b'', 80), (''b'', 79), (''b'', 78), (''c'', 77),
        (''c'', 76), (''c'', 75), (''c'', 74), (''d'', 73), (''d'', 72), (''d'', 71), (''d'', 70)]"

definition ex_rows1 :: "signal_run list" where
  "ex_rows1 = [ex_sig ''CN'' ''high'' ''a'' 80]"

text \<open>
  \<open>ex_rows21_spread\<close> has the same 21 HK signals with the strategies spread seven each,
  so that no strategy exceeds its share; \<open>ex_rows2\<close> has two high-risk CN signals ranked
  80 and 70.
\<close>

definition ex_rows21_spread :: "signal_run list" where
  "ex_rows21_spread =
     map (\<lambda>(sc, rank). ex_sig ''HK'' ''medium'' sc rank)
       [(''a'', 90), (''a'', 89), (''a'', 88), (''a'', 87), (''a'', 86), (''a'', 85), (''a'', 84),
        (''b'', 83), (''b'', 82), (''b'', 81), (''b'', 80), (''b'', 79), (''b'', 78), (''b'', 77),
        (''c'', 76), (''c'', 75), (''c'', 74), (''c'', 73), (''c'', 72), (''c'', 71), (''c'', 70)]"

definition ex_rows2 :: "signal_run list" where
  "ex_rows2 = [ex_sig ''CN'' ''high'' ''a'' 80, ex_sig ''CN'' ''high'' ''b'' 70]"

section \<open>Outcome evaluators (\<open>evaluate_strategy_outcomes\<close>, \<open>evaluate_entry_candidate_outcomes\<close>)\<close>

text \<open>
  Calendar days are day numbers; \<open>snapshot_date\<close> is held as the result of \<open>_parse_day\<close>
  (\<open>None\<close> when the text does not parse). A kline holds the parsed day and the close as a
  float, \<open>None\<close> when the attribute is missing or does not convert.
\<close>

type_synonym day = int

record kline =
  k_date :: "day option"
  k_close :: "real option"

definition pick_close_on_or_before :: "kline list \<Rightarrow> day \<Rightarrow> real option" where
  "pick_close_on_or_before klines target =
     (let rows = sort_key fst (List.map_filter
                   (\<lambda>k. case k_date k of None \<Rightarrow> None
                        | Some d \<Rightarrow> (case k_close k of None \<Rightarrow> None | Some c \<Rightarrow> Some (d, c))) klines)
      in case find (\<lambda>r. fst r \<le> target) (rev rows) of None \<Rightarrow> None | Some r \<Rightarrow> Some (snd r))"

text \<open>
  The columns both evaluators read from their source row, a \<open>StrategySignalRun\<close> or an
  \<open>EntryCandidate\<close>. \<open>src_quote_price\<close> is \<open>_safe_float\<close> of
  \<open>payload["source_meta"]["quote"]["current_price"]\<close> for a signal and of
  \<open>meta["quote"]["current_price"]\<close> for a candidate, \<open>None\<close> when a level is missing.
\<close>

record eval_source =
  src_id :: int
  src_snapshot_day :: "day option"
  src_symbol :: "string option"
  src_market :: "string option"
  src_entry_low :: "real option"
  src_entry_high :: "real option"
  src_target_price :: "real option"
  src_stop_loss :: "real option"
  src_quote_price :: "real option"

record outcome_row =
  o_source_id :: int
  o_horizon_days :: int
  o_target_date :: day
  o_base_price :: "real option"
  o_outcome_price :: real
  o_return_pct :: "real option"
  o_hit_target :: "bool option"
  o_hit_stop :: "bool option"
  o_status :: string

record eval_stats =
  st_total :: nat
  st_eligible :: nat
  st_evaluated :: nat
  st_skipped_not_due :: nat
  st_skipped_no_price :: nat
  st_skipped_no_base_price :: nat

record eval_state =
  ev_existing :: "(int \<times> int) list"
  ev_added :: "outcome_row list"
  ev_cache :: "string \<times> string \<rightharpoonup> kline list"
  ev_stats :: eval_stats

definition safe_horizons :: "int list \<Rightarrow> int list" where
  \<comment> \<open>\<open>sorted({max(1, int(h)) for h in horizons if int(h) > 0})\<close>, \<open>[1, 3, 5]\<close> when empty\<close>
  "safe_horizons hs =
     (let s = sort (remdups (map (max 1) (filter (\<lambda>h. 0 < h) hs)))
      in if s = [] then [1, 3, 5] else s)"

definition resolve_base_price :: "eval_source \<Rightarrow> kline list \<Rightarrow> day \<Rightarrow> real option" where
  "resolve_base_price s klines snap_day =
     (let b1 = (case src_entry_low s of
                  Some l \<Rightarrow> (case src_entry_high s of Some h \<Rightarrow> Some ((l + h) / 2) | None \<Rightarrow> Some l)
                | None \<Rightarrow> src_entry_high s);
          b2 = (case b1 of None \<Rightarrow> src_quote_price s | Some b \<Rightarrow> Some b)
      in case b2 of None \<Rightarrow> pick_close_on_or_before klines snap_day | Some b \<Rightarrow> Some b)"

definition reached_target :: "eval_source \<Rightarrow> real \<Rightarrow> bool" where
  \<comment> \<open>\<open>s.target_price is not None and outcome_price >= float(s.target_price)\<close>\<close>
  "reached_target s outcome_price =
     (case src_target_price s of None \<Rightarrow> False | Some t \<Rightarrow> t \<le> outcome_price)"

definition reached_stop :: "eval_source \<Rightarrow> real \<Rightarrow> bool" where
  \<comment> \<open>\<open>s.stop_loss is not None and outcome_price <= float(s.stop_loss)\<close>\<close>
  "reached_stop s outcome_price =
     (case src_stop_loss s of None \<Rightarrow> False | Some l \<Rightarrow> outcome_price \<le> l)"

definition no_base :: "real option \<Rightarrow> bool" where
  \<comment> \<open>\<open>base_price is None or base_price <= 0\<close>\<close>
  "no_base b = (case b of None \<Rightarrow> True | Some v \<Rightarrow> v \<le> 0)"

definition build_outcome :: "eval_source \<Rightarrow> int \<Rightarrow> day \<Rightarrow> real option \<Rightarrow> real \<Rightarrow> outcome_row" where
  "build_outcome s horizon target_day base_price outcome_price =
     (let status = (if no_base base_price then ''no_base_price''
                    else if reached_target s outcome_price then ''hit_target''
                    else if reached_stop s outcome_price then ''hit_stop''
                    else ''evaluated'');
          ret = (case base_price of
                   None \<Rightarrow> None
                 | Some b \<Rightarrow> if b \<le> 0 then None else Some ((outcome_price - b) / b * 100));
          hit_target = (if status \<noteq> ''no_base_price'' then Some (reached_target s outcome_price) else None);
          hit_stop = (if status \<noteq> ''no_base_price'' then Some (reached_stop s outcome_price) else None)
      in \<lparr>o_source_id = src_id s, o_horizon_days = horizon, o_target_date = target_day,
          o_base_price = base_price, o_outcome_price = outcome_price, o_return_pct = ret,
          o_hit_target = hit_target, o_hit_stop = hit_stop, o_status = status\<rparr>)"

definition bump_not_due :: "eval_stats \<Rightarrow> eval_stats" where
  "bump_not_due t = t\<lparr>st_skipped_not_due := st_skipped_not_due t + 1\<rparr>"

definition bump_eligible :: "eval_stats \<Rightarrow> eval_stats" where
  "bump_eligible t = t\<lparr>st_eligible := st_eligible t + 1\<rparr>"

definition bump_no_price :: "eval_stats \<Rightarrow> eval_stats" where
  "bump_no_price t = t\<lparr>st_skipped_no_price := st_skipped_no_price t + 1\<rparr>"

definition bump_evaluated :: "bool \<Rightarrow> eval_stats \<Rightarrow> eval_stats" where
  "bump_evaluated nb t =
     t\<lparr>st_evaluated := st_evaluated t + 1,
       st_skipped_no_base_price := st_skipped_no_base_price t + (if nb then 1 else 0)\<rparr>"

definition eval_horizon ::
  "day \<Rightarrow> eval_source \<Rightarrow> day \<Rightarrow> kline list \<Rightarrow> int \<Rightarrow> eval_state \<Rightarrow> eval_state" where
  "eval_horizon today s snap_day klines horizon st =
     (if (src_id s, horizon) \<in> set (ev_existing st) then st
      else
        let target_day = snap_day + horizon
        in if today < target_day then st\<lparr>ev_stats := bump_not_due (ev_stats st)\<rparr>
           else
             (case pick_close_on_or_before klines target_day of
                None \<Rightarrow> st\<lparr>ev_stats := bump_no_price (bump_eligible (ev_stats st))\<rparr>
              | Some outcome_price \<Rightarrow>
                  let base_price = resolve_base_price s klines snap_day
                  in st\<lparr>ev_existing := ev_existing st @ [(src_id s, horizon)],
                        ev_added := ev_added st @
                          [build_outcome s horizon target_day base_price outcome_price],
                        ev_stats := bump_evaluated (no_base base_price)
                                      (bump_eligible (ev_stats st))\<rparr>))"

definition kline_key :: "eval_source \<Rightarrow> string \<times> string" where
  "kline_key s = (py_strip (str_or (src_symbol s) ''''), py_upper (py_strip (str_or (src_market s) ''CN'')))"

definition eval_source_step ::
  "(string \<times> string \<Rightarrow> int \<Rightarrow> kline list) \<Rightarrow> day \<Rightarrow> int list \<Rightarrow> eval_source \<Rightarrow>
   eval_state \<Rightarrow> eval_state" where
  "eval_source_step get_klines today horizons s st =
     (case src_snapshot_day s of
        None \<Rightarrow> st
      | Some snap_day \<Rightarrow>
          let key = kline_key s;
              klines = (case ev_cache st key of
                          Some ks \<Rightarrow> ks
                        | None \<Rightarrow> get_klines key (min (max 120 (today - snap_day + 30)) 600));
              st1 = st\<lparr>ev_cache := (ev_cache st)(key \<mapsto> klines)\<rparr>
          in fold (eval_horizon today s snap_day klines) horizons st1)"

definition existing_keys :: "eval_source list \<Rightarrow> outcome_row list \<Rightarrow> (int \<times> int) list" where
  \<comment> \<open>the (source id, horizon) pairs of the stored outcomes of the queried sources\<close>
  "existing_keys sources table =
     map (\<lambda>r. (o_source_id r, o_horizon_days r))
       (filter (\<lambda>r. o_source_id r \<in> set (map src_id sources)) table)"

definition zero_stats :: eval_stats where
  "zero_stats = \<lparr>st_total = 0, st_eligible = 0, st_evaluated = 0, st_skipped_not_due = 0,
                 st_skipped_no_price = 0, st_skipped_no_base_price = 0\<rparr>"

text \<open>
  The evaluation loop over the queried rows \<open>sources\<close>, against the outcome table
  \<open>table\<close>. \<open>get_klines key days\<close> is the collector's answer (the empty list when it
  raises). The result holds the rows added to the session and the counters.
\<close>

definition evaluate_outcomes ::
  "(string \<times> string \<Rightarrow> int \<Rightarrow> kline list) \<Rightarrow> day \<Rightarrow> int list \<Rightarrow> eval_source list \<Rightarrow>
   outcome_row list \<Rightarrow> eval_state" where
  "evaluate_outcomes get_klines today horizons sources table =
     (let hs = safe_horizons horizons;
          st0 = \<lparr>ev_existing = [], ev_added = [], ev_cache = Map.empty,
                 ev_stats = zero_stats\<lparr>st_total := length sources\<rparr>\<rparr>
      in if sources = [] then st0
         else fold (eval_source_step get_klines today hs) sources
                (st0\<lparr>ev_existing := existing_keys sources table\<rparr>))"

definition evaluate_strategy_outcomes ::
  "(string \<times> string \<Rightarrow> int \<Rightarrow> kline list) \<Rightarrow> day \<Rightarrow> int list \<Rightarrow> eval_source list \<Rightarrow>
   outcome_row list \<Rightarrow> eval_state" where
  "evaluate_strategy_outcomes get_klines today horizons signals table =
     evaluate_outcomes get_klines today horizons signals table"

definition evaluate_entry_candidate_outcomes ::
  "(string \<times> string \<Rightarrow> int \<Rightarrow> kline list) \<Rightarrow> day \<Rightarrow> int list \<Rightarrow> eval_source list \<Rightarrow>
   outcome_row list \<Rightarrow> eval_state" where
  "evaluate_entry_candidate_outcomes get_klines today horizons candidates table =
     evaluate_outcomes get_klines today horizons candidates table"

definition table_after :: "outcome_row list \<Rightarrow> eval_state \<Rightarrow> outcome_row list" where
  \<comment> \<open>the outcome table after \<open>db.commit()\<close>: the added rows are inserted, nothing is updated\<close>
  "table_after table st = table @ ev_added st"

definition okey :: "outcome_row \<Rightarrow> int \<times> int" where
  "okey r = (o_source_id r, o_horizon_days r)"

text \<open>Invariant of the evaluation loop, used in the proofs below.\<close>

definition built :: "day \<Rightarrow> eval_source list \<Rightarrow> outcome_row \<Rightarrow> bool" where
  "built today sources r =
     (\<exists>s \<in> set sources. \<exists>snap klines h op.
        src_snapshot_day s = Some snap \<and> snap + h \<le> today \<and>
        pick_close_on_or_before klines (snap + h) = Some op \<and>
        r = build_outcome s h (snap + h) (resolve_base_price s klines snap) op)"

definition ev_inv :: "day \<Rightarrow> eval_source list \<Rightarrow> (int \<times> int) set \<Rightarrow> eval_state \<Rightarrow> bool" where
  "ev_inv today sources E0 st =
     (E0 \<subseteq> set (ev_existing st) \<and> okey ` set (ev_added st) \<subseteq> set (ev_existing st) \<and>
      distinct (map okey (ev_added st)) \<and>
      (\<forall>r \<in> set (ev_added st). okey r \<notin> E0 \<and> built today sources r))"

text \<open>
  A worked run: one source with entry band 100..100, target 110 and stop 95, snapshot on
  day 0, a close of 112 on day 3, evaluated on day 10 for horizon 3. The second source has
  an entry band of 0..0.
\<close>

definition ex_source :: eval_source where
  "ex_source = \<lparr>src_id = 1, src_snapshot_day = Some 0, src_symbol = Some ''600519'',
      src_market = Some ''CN'', src_entry_low = Some 100, src_entry_high = Some 100,
      src_target_price = Some 110, src_stop_loss = Some 95, src_quote_price = None\<rparr>"

definition ex_zero_source :: eval_source where
  "ex_zero_source = \<lparr>src_id = 2, src_snapshot_day = Some 0, src_symbol = Some ''600519'',
      src_market = Some ''CN'', src_entry_low = Some 0, src_entry_high = Some 0,
      src_target_price = Some 110, src_stop_loss = Some 95, src_quote_price = None\<rparr>"

definition ex_get_klines :: "string \<times> string \<Rightarrow> int \<Rightarrow> kline list" where
  "ex_get_klines key days = [\<lparr>k_date = Some 3, k_close = Some 112\<rparr>]"

definition ex_row :: outcome_row where
  "ex_row = \<lparr>o_source_id = 1, o_horizon_days = 3, o_target_date = 3, o_base_price = Some 100,
      o_outcome_price = 112, o_return_pct = Some 12, o_hit_target = Some True,
      o_hit_stop = Some False, o_status = ''hit_target''\<rparr>"

definition ex_zero_row :: outcome_row where
  "ex_zero_row = \<lparr>o_source_id = 2, o_horizon_days = 3, o_target_date = 3, o_base_price = Some 0,
      o_outcome_price = 112, o_return_pct = None, o_hit_target = None,
      o_hit_stop = None, o_status = ''no_base_price''\<rparr>"





section \<open>Weight rebalancer (\<open>strategy_engine.rebalance_strategy_weights\<close>)\<close>

record catalog_entry =
  code :: string
  default_weight :: real

text \<open>One row of the grouped outcome query of \<open>_aggregate_recent_outcomes\<close>.\<close>

record agg_row =
  ar_code :: "string option"
  ar_market :: "string option"
  ar_total :: "int option"
  ar_wins :: "int option"
  ar_avg_ret :: "real option"

record pair_metrics =
  sample_size :: int
  wins :: int
  avg_return_pct :: real

record all_metrics = pair_metrics +
  ret_sum :: real

definition no_all_metrics :: all_metrics where
  "no_all_metrics = \<lparr>sample_size = 0, wins = 0, avg_return_pct = 0, ret_sum = 0\<rparr>"

definition no_pair_metrics :: pair_metrics where
  "no_pair_metrics = \<lparr>sample_size = 0, wins = 0, avg_return_pct = 0\<rparr>"

type_synonym by_pair_map = "string \<times> string \<rightharpoonup> pair_metrics"
type_synonym by_all_map = "string \<rightharpoonup> all_metrics"

definition aggregate_row :: "agg_row \<Rightarrow> by_pair_map \<times> by_all_map \<Rightarrow> by_pair_map \<times> by_all_map" where
  "aggregate_row r acc =
     (let c = py_strip (str_or (ar_code r) '''');
          m0 = py_upper (py_strip (str_or (ar_market r) ''ALL''));
          m = (if m0 = [] then ''ALL'' else m0);
          t = int_or (ar_total r) 0;
          w = int_or (ar_wins r) 0;
          a = num_or (ar_avg_ret r) 0;
          x = (case snd acc c of None \<Rightarrow> no_all_metrics | Some y \<Rightarrow> y)
      in ((fst acc)((c, m) \<mapsto> \<lparr>sample_size = t, wins = w, avg_return_pct = a\<rparr>),
          (snd acc)(c \<mapsto> x\<lparr>sample_size := sample_size x + t, wins := wins x + w,
                              ret_sum := ret_sum x + a * of_int t\<rparr>)))"

definition finish_all :: "all_metrics \<Rightarrow> all_metrics" where
  "finish_all x =
     x\<lparr>avg_return_pct := (if sample_size x > 0 then ret_sum x / of_int (sample_size x) else 0)\<rparr>"

definition aggregate_recent_outcomes :: "agg_row list \<Rightarrow> by_pair_map \<times> by_all_map" where
  "aggregate_recent_outcomes rows =
     (let acc = fold aggregate_row rows (Map.empty, Map.empty)
      in (fst acc, \<lambda>c. map_option finish_all (snd acc c)))"

record target_metrics = pair_metrics +
  tm_default_weight :: real

text \<open>
  A stored weight row, keyed by (strategy code, market, regime). The reason text is kept
  as the numbers it is formatted from.
\<close>

record weight_reason =
  wr_win_rate :: real
  wr_avg_ret :: real
  wr_samples :: int
  wr_alpha :: real

record weight_row =
  weight :: real
  w_reason :: "weight_reason option"
  w_window_days :: "int option"
  w_sample_size :: "int option"

record weight_history =
  wh_code :: string
  wh_market :: string
  wh_regime :: string
  wh_old_weight :: real
  wh_new_weight :: real
  wh_reason :: weight_reason
  wh_window_days :: int
  wh_sample_size :: int
  wh_wins :: int
  wh_win_rate :: real
  wh_avg_return_pct :: real
  wh_target :: real

record changed_row =
  cr_code :: string
  cr_market :: string
  cr_old_weight :: real
  cr_new_weight :: real
  cr_sample_size :: int

type_synonym weight_db = "string \<times> string \<times> string \<rightharpoonup> weight_row"

record rebalance_state =
  weights :: weight_db
  history :: "weight_history list"
  changed :: nat
  checked :: nat
  skipped_low_sample :: nat
  rows_changed :: "changed_row list"

definition eff_regime :: "string \<Rightarrow> string" where
  \<comment> \<open>\<open>(regime or "default").strip() or "default"\<close>\<close>
  "eff_regime regime =
     (let r = py_strip (if regime = [] then ''default'' else regime)
      in if r = [] then ''default'' else r)"

definition eff_alpha :: "real \<Rightarrow> real" where
  \<comment> \<open>\<open>_clamp(float(alpha or 0.35), 0.05, 0.95)\<close>\<close>
  "eff_alpha alpha = clamp (if alpha = 0 then 35 / 100 else alpha) (5 / 100) (95 / 100)"

definition eff_window_days :: "int \<Rightarrow> int" where
  \<comment> \<open>\<open>max(7, min(int(window_days or 45), 365))\<close>\<close>
  "eff_window_days d = max 7 (min (if d = 0 then 45 else d) 365)"

definition eff_min_samples :: "int \<Rightarrow> int" where
  \<comment> \<open>\<open>max(3, min(int(min_samples or 8), 200))\<close>\<close>
  "eff_min_samples n = max 3 (min (if n = 0 then 8 else n) 200)"

definition build_targets ::
  "catalog_entry list \<Rightarrow> by_pair_map \<Rightarrow> by_all_map \<Rightarrow> (string \<times> string \<times> target_metrics) list" where
  "build_targets catalogs by_pair by_all =
     concat (map (\<lambda>c.
       (let am = (case by_all (code c) of None \<Rightarrow> no_all_metrics | Some x \<Rightarrow> x)
        in (code c, ''ALL'',
            \<lparr>sample_size = sample_size am, wins = wins am, avg_return_pct = avg_return_pct am,
             tm_default_weight = default_weight c\<rparr>)
           # map (\<lambda>market.
               (let pm = (case by_pair (code c, market) of None \<Rightarrow> no_pair_metrics | Some x \<Rightarrow> x)
                in (code c, market,
                    \<lparr>sample_size = sample_size pm, wins = wins pm,
                     avg_return_pct = avg_return_pct pm, tm_default_weight = default_weight c\<rparr>)))
               [''CN'', ''HK'', ''US''])) catalogs)"

definition win_rate_of :: "int \<Rightarrow> int \<Rightarrow> real" where
  "win_rate_of w n = (if n > 0 then of_int w / of_int n * 100 else 0)"

definition target_weight :: "real \<Rightarrow> real \<Rightarrow> real \<Rightarrow> real" where
  "target_weight dw win_rate avg_ret =
     (let win_term = clamp ((win_rate - 50) / 50) (- 1) 1;
          ret_term = clamp (avg_ret / 8) (- 1) 1
      in clamp (dw * (1 + 45 / 100 * win_term + 35 / 100 * ret_term)) (45 / 100) (190 / 100))"

definition new_weight_of :: "real \<Rightarrow> real \<Rightarrow> real \<Rightarrow> real" where
  "new_weight_of old_weight target alpha =
     round_nd (clamp (old_weight * (1 - alpha) + target * alpha) (45 / 100) (190 / 100)) 4"

definition rebalance_target ::
  "int \<Rightarrow> int \<Rightarrow> real \<Rightarrow> string \<Rightarrow> string \<times> string \<times> target_metrics \<Rightarrow>
   rebalance_state \<Rightarrow> rebalance_state" where
  "rebalance_target window_days min_samples alpha reg tgt st0 =
     (case tgt of (cd, market, metrics) \<Rightarrow>
      let st = st0\<lparr>checked := checked st0 + 1\<rparr>;
          n = sample_size metrics;
          w = wins metrics;
          avg_ret = avg_return_pct metrics;
          dw = tm_default_weight metrics;
          row = weights st (cd, market, reg);
          old_weight = (case row of None \<Rightarrow> dw | Some r \<Rightarrow> weight r)
      in if n < min_samples then st\<lparr>skipped_low_sample := skipped_low_sample st + 1\<rparr>
         else
           let win_rate = win_rate_of w n;
               target = target_weight dw win_rate avg_ret;
               new_weight = new_weight_of old_weight target alpha
           in if \<bar>new_weight - old_weight\<bar> < 1 / 100 then st
              else
                let reason = \<lparr>wr_win_rate = win_rate, wr_avg_ret = avg_ret, wr_samples = n,
                              wr_alpha = alpha\<rparr>;
                    stored = (case row of
                        None \<Rightarrow> \<lparr>weight = new_weight, w_reason = Some reason,
                                  w_window_days = Some window_days, w_sample_size = Some n\<rparr>
                      | Some r \<Rightarrow> r\<lparr>weight := new_weight, w_reason := Some reason,
                                     w_window_days := Some window_days, w_sample_size := Some n\<rparr>)
                in st\<lparr>weights := (weights st)((cd, market, reg) \<mapsto> stored),
                      history := history st @
                        [\<lparr>wh_code = cd, wh_market = market, wh_regime = reg,
                          wh_old_weight = old_weight, wh_new_weight = new_weight,
                          wh_reason = reason, wh_window_days = window_days, wh_sample_size = n,
                          wh_wins = w, wh_win_rate = round_nd win_rate 3,
                          wh_avg_return_pct = round_nd avg_ret 4, wh_target = round_nd target 4\<rparr>],
                      changed := changed st + 1,
                      rows_changed := rows_changed st @
                        [\<lparr>cr_code = cd, cr_market = market, cr_old_weight = round_nd old_weight 4,
                          cr_new_weight = round_nd new_weight 4, cr_sample_size = n\<rparr>]\<rparr>)"

definition rebalance_strategy_weights ::
  "int \<Rightarrow> int \<Rightarrow> real \<Rightarrow> string \<Rightarrow> catalog_entry list \<Rightarrow> agg_row list \<Rightarrow> weight_db \<Rightarrow>
   rebalance_state" where
  "rebalance_strategy_weights window_days min_samples alpha regime catalogs agg_rows db =
     (let reg = eff_regime regime;
          a = eff_alpha alpha;
          wd = eff_window_days window_days;
          ms = eff_min_samples min_samples;
          agg = aggregate_recent_outcomes agg_rows
      in fold (rebalance_target wd ms a reg) (build_targets catalogs (fst agg) (snd agg))
           \<lparr>weights = db, history = [], changed = 0, checked = 0, skipped_low_sample = 0,
            rows_changed = []\<rparr>)"

definition target_sample_size :: "agg_row list \<Rightarrow> string \<Rightarrow> string \<Rightarrow> int" where
  \<comment> \<open>the sample size the rebalancer reads for a (strategy code, market) pair\<close>
  "target_sample_size agg_rows cd market =
     (let agg = aggregate_recent_outcomes agg_rows
      in if market = ''ALL''
         then (case snd agg cd of None \<Rightarrow> 0 | Some x \<Rightarrow> sample_size x)
         else (case fst agg (cd, market) of None \<Rightarrow> 0 | Some x \<Rightarrow> sample_size x))"

definition in_bounds :: "weight_db \<Rightarrow> weight_db \<Rightarrow> bool" where
  "in_bounds db db' = (\<forall>k. db' k \<noteq> db k \<longrightarrow> (\<exists>r. db' k = Some r \<and> 45 / 100 \<le> weight r \<and> weight r \<le> 190 / 100))"

definition ex_catalog :: "catalog_entry list" where
  "ex_catalog = [\<lparr>code = ''trend_follow'', default_weight = 1\<rparr>]"

definition ex_agg :: "agg_row list" where
  "ex_agg = [\<lparr>ar_code = Some ''trend_follow'', ar_market = Some ''CN'', ar_total = Some 300,
              ar_wins = Some 300, ar_avg_ret = Some 8\<rparr>,
             \<lparr>ar_code = Some ''trend_follow'', ar_market = Some ''HK'', ar_total = Some 2,
              ar_wins = Some 2, ar_avg_ret = Some 8\<rparr>]"

definition ex_db :: weight_db where
  "ex_db = Map.empty((''trend_follow'', ''CN'', ''default'') \<mapsto>
             \<lparr>weight = 1, w_reason = None, w_window_days = None, w_sample_size = None\<rparr>,
           (''trend_follow'', ''HK'', ''default'') \<mapsto>
             \<lparr>weight = 1, w_reason = None, w_window_days = None, w_sample_size = None\<rparr>)"

section \<open>Candidate aggregator (\<open>entry_candidates.refresh_entry_candidates\<close>)\<close>

text \<open>
  The loop body that turns one merged input into an \<open>EntryCandidate\<close> row is modelled
  with the numbers and texts that decide action, score, plan and status. The evidence,
  signal and reason texts of a row are not part of the model. The invalidation text of a
  plan is kept as the case it is formatted from.
\<close>

record cquote =
  cq_current_price :: "real option"
  cq_change_pct :: "real option"
  cq_turnover :: "real option"

record kline_summary =
  ks_trend :: "string option"
  ks_macd_cross :: "string option"
  ks_rsi_status :: "string option"
  ks_kdj_status :: "string option"
  ks_volume_ratio :: "real option"
  ks_support :: "real option"
  ks_support_m :: "real option"
  ks_resistance :: "real option"
  ks_resistance_m :: "real option"
  ks_last_close :: "real option"

text \<open>
  What \<open>_score_suggestion\<close> reads of the attached suggestion: the context quality score
  of its meta and its age in hours (\<open>None\<close> when \<open>created_at\<close> is missing).
\<close>

record suggestion =
  sug_context_quality :: "real option"
  sug_age_hours :: "real option"

text \<open>The prices \<open>_build_plan\<close> looks up in the suggestion meta.\<close>

record meta_prices =
  mp_quote_price :: "real option"
  mp_context_quote_price :: "real option"
  mp_trigger_price :: "real option"
  mp_current_price :: "real option"
  mp_plan_entry_price :: "real option"

datatype invalidation =
    InvEmpty
  | InvBelowStop real
  | InvDefend real
  | InvRiskControl
  | InvText string

record plan =
  p_entry_low :: "real option"
  p_entry_high :: "real option"
  p_stop_loss :: "real option"
  p_target_price :: "real option"
  p_invalidation :: invalidation

record cand_input =
  in_key :: string
  in_candidate_source :: "string option"
  in_action :: "string option"
  in_action_label :: "string option"
  in_suggestion :: "suggestion option"
  in_strategy_tags_seed :: "string list"
  in_plan_seed :: "plan option"
  in_meta :: meta_prices
  in_quote :: cquote
  in_kline :: kline_summary

record entry_candidate =
  ca_key :: string
  ca_status :: string
  ca_score :: real
  ca_confidence :: real
  ca_action :: string
  ca_action_label :: string
  ca_candidate_source :: string
  ca_strategy_tags :: "string list"
  ca_is_holding_snapshot :: bool
  ca_plan_quality :: int
  ca_entry_low :: "real option"
  ca_entry_high :: "real option"
  ca_stop_loss :: "real option"
  ca_target_price :: "real option"

definition ACTION_BASE_SCORE :: "string \<rightharpoonup> real" where
  "ACTION_BASE_SCORE =
     [''buy'' \<mapsto> 78, ''add'' \<mapsto> 72, ''hold'' \<mapsto> 58, ''watch'' \<mapsto> 52, ''alert'' \<mapsto> 45,
      ''reduce'' \<mapsto> 30, ''sell'' \<mapsto> 20, ''avoid'' \<mapsto> 15]"

definition base_action_score :: "string \<Rightarrow> real" where
  "base_action_score action =
     (case ACTION_BASE_SCORE (py_lower (py_strip action)) of None \<Rightarrow> 45 | Some v \<Rightarrow> v)"

definition stripped :: "string option \<Rightarrow> string" where
  \<comment> \<open>\<open>(x or "").strip()\<close>\<close>
  "stripped x = py_strip (str_or x [])"

definition score_suggestion :: "string \<Rightarrow> suggestion \<Rightarrow> cquote \<Rightarrow> kline_summary \<Rightarrow> real" where
  "score_suggestion action sug q k =
     (let s0 = base_action_score action;
          s1 = s0 + (case cq_change_pct q of
                       None \<Rightarrow> 0
                     | Some pct \<Rightarrow> if 1 / 2 \<le> \<bar>pct\<bar> \<and> \<bar>pct\<bar> \<le> 6 then 2
                                   else if 10 \<le> \<bar>pct\<bar> then - 3 else 0);
          trend = stripped (ks_trend k);
          s2 = s1 + (if trend = txt_bull_trend then 8 else if trend = txt_bear_trend then - 8 else 0);
          macd = stripped (ks_macd_cross k);
          s3 = s2 + (if macd = txt_golden_cross then 5 else if macd = txt_death_cross then - 5 else 0);
          rsi = stripped (ks_rsi_status k);
          s4 = s3 + (if rsi \<in> {txt_oversold, txt_weak} then 2 else if rsi = txt_overbought then - 3 else 0);
          kdj = stripped (ks_kdj_status k);
          s5 = s4 + (if contains txt_golden_cross kdj then 3
                     else if contains txt_death_cross kdj then - 3 else 0);
          s6 = s5 + (case ks_volume_ratio k of
                       None \<Rightarrow> 0
                     | Some vr \<Rightarrow> if 2 \<le> vr then 4 else if 13 / 10 \<le> vr then 2 else 0);
          s7 = s6 + (case sug_context_quality sug of
                       None \<Rightarrow> 0
                     | Some quality \<Rightarrow> clamp ((quality - 60) / 10) (- 3) 5);
          s8 = s7 + (case sug_age_hours sug of
                       None \<Rightarrow> 0
                     | Some hours \<Rightarrow> if hours \<le> 6 then 3 else if 48 \<le> hours then - 3 else 0)
      in clamp s8 0 100)"

record scan_decision =
  dec_action :: string
  dec_action_label :: string
  dec_strategy_tags :: "string list"
  dec_points :: int

definition derive_market_scan_decision :: "cquote \<Rightarrow> kline_summary \<Rightarrow> scan_decision" where
  "derive_market_scan_decision q k =
     (let trend = stripped (ks_trend k);
          a1 = (if trend = txt_bull_trend then (2, [''trend_follow''])
                else if trend = txt_bear_trend then (- 2, []) else (0 :: int, []));
          macd = stripped (ks_macd_cross k);
          a2 = (if macd = txt_golden_cross then (fst a1 + 2, snd a1 @ [''macd_golden''])
                else if macd = txt_death_cross then (fst a1 - 2, snd a1) else a1);
          a3 = (case ks_volume_ratio k of
                  None \<Rightarrow> a2
                | Some vr \<Rightarrow> if 18 / 10 \<le> vr then (fst a2 + 1, snd a2 @ [''volume_breakout''])
                             else if vr \<le> 7 / 10 then (fst a2 - 1, snd a2) else a2);
          a4 = (case cq_change_pct q of
                  None \<Rightarrow> a3
                | Some pct \<Rightarrow> if 15 / 10 \<le> pct \<and> pct \<le> 85 / 10 then (fst a3 + 1, snd a3 @ [''momentum''])
                              else if 105 / 10 \<le> pct then (fst a3 - 2, snd a3)
                              else if pct \<le> - (55 / 10) then (fst a3 + 1, snd a3 @ [''rebound''])
                              else a3);
          support = py_or (ks_support_m k) (ks_support k);
          last_close = py_or (ks_last_close k) (cq_current_price q);
          a5 = (case support of
                  None \<Rightarrow> a4
                | Some sp \<Rightarrow>
                    (case last_close of
                       None \<Rightarrow> a4
                     | Some lc \<Rightarrow> if sp \<noteq> 0 \<and> lc \<noteq> 0 \<and> 0 < sp \<and> sp < lc \<and> lc \<le> sp * (103 / 100)
                                  then (fst a4 + 1, snd a4 @ [''pullback'']) else a4));
          points = fst a5
      in \<lparr>dec_action = (if 4 \<le> points then ''buy'' else if 3 \<le> points then ''add''
                        else if points \<le> - 3 then ''avoid'' else ''watch''),
          dec_action_label = (if 4 \<le> points then lbl_build else if 3 \<le> points then lbl_prepare_add
                              else if points \<le> - 3 then lbl_avoid else lbl_watch),
          dec_strategy_tags = snd a5, dec_points = points\<rparr>)"

definition score_market_scan_candidate ::
  "string \<Rightarrow> cquote \<Rightarrow> kline_summary \<Rightarrow> string list \<Rightarrow> real" where
  "score_market_scan_candidate action q k tags =
     (let s0 = base_action_score action;
          s1 = s0 + (if tags = [] then 0 else min 8 (of_nat (length tags) * 2));
          s2 = s1 + (case cq_change_pct q of
                       None \<Rightarrow> 0
                     | Some pct \<Rightarrow> if 1 \<le> pct \<and> pct \<le> 7 then 2 else if 10 \<le> pct then - 3 else 0);
          s3 = s2 + (case cq_turnover q of
                       None \<Rightarrow> 0
                     | Some t \<Rightarrow> if 3000000000 \<le> t then 3 else if 1000000000 \<le> t then 1 else 0);
          trend = stripped (ks_trend k);
          s4 = s3 + (if trend = txt_bull_trend then 5 else if trend = txt_bear_trend then - 6 else 0)
      in clamp s4 0 100)"

definition build_plan :: "string \<Rightarrow> cquote \<Rightarrow> kline_summary \<Rightarrow> meta_prices \<Rightarrow> plan" where
  "build_plan action q k meta =
     (let price = py_or (cq_current_price q) (py_or (mp_quote_price meta)
                   (py_or (mp_context_quote_price meta) (py_or (mp_trigger_price meta)
                   (py_or (mp_current_price meta) (py_or (mp_plan_entry_price meta)
                   (ks_last_close k))))));
          support0 = py_or (ks_support_m k) (ks_support k);
          resistance0 = py_or (ks_resistance_m k) (ks_resistance k)
      in case price of
           None \<Rightarrow> \<lparr>p_entry_low = None, p_entry_high = None, p_stop_loss = None,
                     p_target_price = None, p_invalidation = InvEmpty\<rparr>
         | Some pr \<Rightarrow>
             let support = (case support0 of None \<Rightarrow> pr * (95 / 100) | Some v \<Rightarrow> v);
                 resistance = (case resistance0 of None \<Rightarrow> pr * (106 / 100) | Some v \<Rightarrow> v)
             in if action \<in> {''buy'', ''add''}
                then
                  let stop_loss = (if support \<noteq> 0 then support * (985 / 1000) else pr * (95 / 100))
                  in \<lparr>p_entry_low = Some (pr * (99 / 100)), p_entry_high = Some (pr * (101 / 100)),
                      p_stop_loss = Some stop_loss,
                      p_target_price = Some (if resistance \<noteq> 0 \<and> pr < resistance
                                             then resistance * (99 / 100) else pr * (106 / 100)),
                      p_invalidation = InvBelowStop stop_loss\<rparr>
                else if action \<in> {''hold'', ''watch''}
                then
                  let stop_loss = (if support \<noteq> 0 then support * (98 / 100) else pr * (94 / 100))
                  in \<lparr>p_entry_low = None, p_entry_high = None, p_stop_loss = Some stop_loss,
                      p_target_price = Some (if resistance \<noteq> 0 then resistance * (99 / 100)
                                             else pr * (104 / 100)),
                      p_invalidation = InvDefend stop_loss\<rparr>
                else \<lparr>p_entry_low = None, p_entry_high = None, p_stop_loss = None,
                      p_target_price = None, p_invalidation = InvRiskControl\<rparr>)"

definition inv_blank :: "invalidation \<Rightarrow> bool" where
  \<comment> \<open>whether \<open>str(invalidation or "").strip()\<close> is empty\<close>
  "inv_blank i = (case i of InvEmpty \<Rightarrow> True | InvText s \<Rightarrow> py_strip s = [] | _ \<Rightarrow> False)"

definition plan_quality :: "plan \<Rightarrow> int" where
  "plan_quality p =
     (let s = (if p_entry_low p \<noteq> None \<or> p_entry_high p \<noteq> None then 30 else 0)
            + (if p_stop_loss p \<noteq> None then 30 else 0)
            + (if p_target_price p \<noteq> None then 30 else 0)
            + (if \<not> inv_blank (p_invalidation p) then 10 else 0)
      in max 0 (min 100 s))"

definition merge_seed_plan :: "plan \<Rightarrow> plan \<Rightarrow> plan" where
  \<comment> \<open>\<open>merged = dict(seed_plan)\<close>, overwritten by the non-null, non-blank values of the plan\<close>
  "merge_seed_plan seed p =
     \<lparr>p_entry_low = (case p_entry_low p of None \<Rightarrow> p_entry_low seed | Some v \<Rightarrow> Some v),
      p_entry_high = (case p_entry_high p of None \<Rightarrow> p_entry_high seed | Some v \<Rightarrow> Some v),
      p_stop_loss = (case p_stop_loss p of None \<Rightarrow> p_stop_loss seed | Some v \<Rightarrow> Some v),
      p_target_price = (case p_target_price p of None \<Rightarrow> p_target_price seed | Some v \<Rightarrow> Some v),
      p_invalidation = (if inv_blank (p_invalidation p) then p_invalidation seed
                        else p_invalidation p)\<rparr>"

text \<open>
  The action, label and strategy tags before the holding-aware normalization, and the
  score: from the attached suggestion when there is one, else from the seeded action or
  the market-scan decision.
\<close>

record resolved =
  rs_action :: string
  rs_action_label :: string
  rs_strategy_tags :: "string list"
  rs_score :: real

definition resolve_action :: "cand_input \<Rightarrow> resolved" where
  "resolve_action inp =
     (let q = in_quote inp; k = in_kline inp
      in case in_suggestion inp of
           Some sug \<Rightarrow>
             let action = py_lower (py_strip (str_or (in_action inp) ''watch''));
                 tags = in_strategy_tags_seed inp
                   @ (if stripped (ks_trend k) = txt_bull_trend then [''trend_follow''] else [])
                   @ (if stripped (ks_macd_cross k) = txt_golden_cross then [''macd_golden''] else [])
                   @ (if 18 / 10 \<le> (case py_or (ks_volume_ratio k) (Some 0) of None \<Rightarrow> 0 | Some v \<Rightarrow> v)
                      then [''volume_breakout''] else [])
             in \<lparr>rs_action = action,
                 rs_action_label = py_strip (str_or (in_action_label inp) lbl_watch),
                 rs_strategy_tags = tags,
                 rs_score = score_suggestion action sug q k\<rparr>
         | None \<Rightarrow>
             let seeded_action = py_lower (stripped (in_action inp));
                 decision = derive_market_scan_decision q k;
                 seeded = (ACTION_BASE_SCORE seeded_action \<noteq> None);
                 action = (if seeded then seeded_action else dec_action decision);
                 label = (if seeded
                          then py_strip (str_or (in_action_label inp)
                                 (if dec_action_label decision = [] then lbl_watch
                                  else dec_action_label decision))
                          else dec_action_label decision);
                 tags = (if seeded
                         then py_dedupe (filter (\<lambda>x. x \<noteq> [])
                                (if in_strategy_tags_seed inp \<noteq> [] then in_strategy_tags_seed inp
                                 else dec_strategy_tags decision))
                         else dec_strategy_tags decision)
             in \<lparr>rs_action = action, rs_action_label = label, rs_strategy_tags = tags,
                 rs_score = score_market_scan_candidate action q k tags\<rparr>)"

definition build_candidate :: "string set \<Rightarrow> cand_input \<Rightarrow> entry_candidate" where
  "build_candidate holding_keys inp =
     (let candidate_source = py_strip (str_or (in_candidate_source inp) ''watchlist'');
          is_holding = (in_key inp \<in> holding_keys);
          r = resolve_action inp;
          a1 = (if is_holding \<and> rs_action r = ''buy'' then (''add'', lbl_prepare_add)
                else (rs_action r, rs_action_label r));
          a2 = (if \<not> is_holding \<and> fst a1 = ''add'' then (''buy'', lbl_build) else a1);
          action = fst a2;
          strategy_tags = py_dedupe (filter (\<lambda>x. x \<noteq> []) (rs_strategy_tags r));
          plan0 = build_plan action (in_quote inp) (in_kline inp) (in_meta inp);
          plan1 = (case in_plan_seed inp of
                     None \<Rightarrow> plan0
                   | Some seed \<Rightarrow> if plan_quality plan0 < 90 then merge_seed_plan seed plan0 else plan0);
          quality = plan_quality plan1;
          score = rs_score r;
          threshold = (if candidate_source \<in> {''market_scan'', ''mixed''} then 62 else 55);
          status = (if action \<in> {''buy'', ''add''} \<and> 90 \<le> quality \<and> threshold \<le> score
                    then ''active'' else ''inactive'')
      in \<lparr>ca_key = in_key inp, ca_status = status, ca_score = score,
          ca_confidence = round_nd (score / 100) 3, ca_action = action, ca_action_label = snd a2,
          ca_candidate_source = candidate_source, ca_strategy_tags = strategy_tags,
          ca_is_holding_snapshot = is_holding, ca_plan_quality = quality,
          ca_entry_low = p_entry_low plan1, ca_entry_high = p_entry_high plan1,
          ca_stop_loss = p_stop_loss plan1, ca_target_price = p_target_price plan1\<rparr>)"

definition refresh_entry_candidates :: "string set \<Rightarrow> cand_input list \<Rightarrow> entry_candidate list" where
  \<comment> \<open>the rows inserted for the snapshot date, one per merged input\<close>
  "refresh_entry_candidates holding_keys inputs = map (build_candidate holding_keys) inputs"

text \<open>
  Worked inputs: a held symbol whose suggestion says \<open>buy\<close>, and an unheld symbol of the
  market scan whose technical summary (bullish trend, volume ratio 2) gives 3 points,
  that is \<open>add\<close>.
\<close>

definition no_meta :: meta_prices where
  "no_meta = \<lparr>mp_quote_price = None, mp_context_quote_price = None, mp_trigger_price = None,
              mp_current_price = None, mp_plan_entry_price = None\<rparr>"

definition ex_kline_bull :: kline_summary where
  "ex_kline_bull = \<lparr>ks_trend = Some txt_bull_trend, ks_macd_cross = None, ks_rsi_status = None,
      ks_kdj_status = None, ks_volume_ratio = Some 2, ks_support = None, ks_support_m = None,
      ks_resistance = None, ks_resistance_m = None, ks_last_close = None\<rparr>"

definition ex_cquote :: cquote where
  "ex_cquote = \<lparr>cq_current_price = Some 100, cq_change_pct = None, cq_turnover = None\<rparr>"

definition ex_held_input :: cand_input where
  "ex_held_input = \<lparr>in_key = ''CN:600519'', in_candidate_source = Some ''watchlist'',
      in_action = Some ''buy'', in_action_label = Some lbl_build,
      in_suggestion = Some \<lparr>sug_context_quality = None, sug_age_hours = None\<rparr>,
      in_strategy_tags_seed = [''watchlist_agent''], in_plan_seed = None, in_meta = no_meta,
      in_quote = ex_cquote, in_kline = ex_kline_bull\<rparr>"

definition ex_scan_input :: cand_input where
  "ex_scan_input = \<lparr>in_key = ''CN:000001'', in_candidate_source = Some ''market_scan'',
      in_action = None, in_action_label = None, in_suggestion = None,
      in_strategy_tags_seed = [], in_plan_seed = None, in_meta = no_meta,
      in_quote = ex_cquote, in_kline = ex_kline_bull\<rparr>"

definition ex_kline_none :: kline_summary where
  "ex_kline_none = \<lparr>ks_trend = None, ks_macd_cross = None, ks_rsi_status = None,
      ks_kdj_status = None, ks_volume_ratio = None, ks_support = None, ks_support_m = None,
      ks_resistance = None, ks_resistance_m = None, ks_last_close = None\<rparr>"

definition ex_idle_input :: cand_input where
  "ex_idle_input = \<lparr>in_key = ''CN:000002'', in_candidate_source = Some ''market_scan'',
      in_action = None, in_action_label = None, in_suggestion = None,
      in_strategy_tags_seed = [], in_plan_seed = None, in_meta = no_meta,
      in_quote = ex_cquote, in_kline = ex_kline_none\<rparr>"

section \<open>Price alert engine (\<open>price_alert_engine.PriceAlertEngine\<close>)\<close>

text \<open>
  Instants are seconds since the epoch in UTC (a naive \<open>datetime\<close> is read as UTC, as
  the engine does). \<open>_day_key\<close> and \<open>_minute_bucket\<close> are the day and the minute of an
  instant. A stored \<open>trigger_date\<close> is held as its day, \<open>None\<close> when null or empty.
\<close>

type_synonym instant = real

definition day_key :: "instant \<Rightarrow> int" where
  "day_key now = \<lfloor>now / 86400\<rfloor>"

definition minute_bucket :: "instant \<Rightarrow> int" where
  "minute_bucket now = \<lfloor>now / 60\<rfloor>"

record stock =
  s_id :: int
  s_market :: string
  s_symbol :: string

record quote =
  q_current_price :: "real option"
  q_change_pct :: "real option"
  q_turnover :: "real option"
  q_volume :: "real option"

text \<open>A JSON value of a condition: a number, a list, or anything else.\<close>

datatype jvalue = JNum real | JList "jvalue list" | JOther

definition safe_float :: "jvalue \<Rightarrow> real option" where
  "safe_float v = (case v of JNum x \<Rightarrow> Some x | _ \<Rightarrow> None)"

record cond =
  c_type :: string
  c_op :: string
  c_value :: jvalue

record cond_group =
  g_op :: "string option"
  g_items :: "cond option list"

record cond_detail =
  d_type :: string
  d_op :: string
  d_target :: jvalue
  d_actual :: "real option"
  d_matched :: bool
  d_unsupported :: bool

record alert_rule =
  r_id :: int
  r_stock :: "stock option"
  r_enabled :: bool
  r_condition_group :: cond_group
  r_market_hours_mode :: "string option"
  r_cooldown_minutes :: "int option"
  r_max_triggers_per_day :: "int option"
  r_repeat_mode :: "string option"
  r_expire_at :: "instant option"
  r_last_trigger_at :: "instant option"
  r_last_trigger_price :: "real option"
  r_trigger_count_today :: "int option"
  r_trigger_date :: "int option"

record alert_snapshot =
  sn_quote :: quote
  sn_conditions :: "cond_detail list"
  sn_group_op :: string

record alert_hit =
  h_rule_id :: int
  h_stock_id :: int
  h_trigger_time :: instant
  h_trigger_bucket :: int
  h_snapshot :: alert_snapshot
  h_notify_success :: bool
  h_notify_error :: string

datatype scan_item =
    NoStock int
  | NoQuote int
  | Gated int string
  | NotMatched int
  | WouldTrigger int alert_snapshot
  | Duplicated int
  | Triggered int bool string

definition op_eval :: "real option \<Rightarrow> string \<Rightarrow> jvalue \<Rightarrow> bool" where
  "op_eval left opr right =
     (case left of
        None \<Rightarrow> False
      | Some l \<Rightarrow>
          let oq = py_lower (py_strip opr)
          in if oq \<in> {''between'', ''in''}
             then (case right of
                     JList [a, b] \<Rightarrow>
                       (case safe_float a of
                          None \<Rightarrow> False
                        | Some lo \<Rightarrow> (case safe_float b of None \<Rightarrow> False
                                      | Some hi \<Rightarrow> lo \<le> l \<and> l \<le> hi))
                   | _ \<Rightarrow> False)
             else (case safe_float right of
                     None \<Rightarrow> False
                   | Some rv \<Rightarrow>
                       if oq = ''>'' then rv < l
                       else if oq = ''>='' then rv \<le> l
                       else if oq = ''<'' then l < rv
                       else if oq = ''<='' then l \<le> rv
                       else if oq \<in> {''='', ''==''} then l = rv
                       else if oq \<in> {''!='', ''<>''} then l \<noteq> rv
                       else False))"

text \<open>
  The collaborators of a scan: the batched quote of a stock (\<open>None\<close> when the fetch has
  none), whether the stock's market is trading, the volume ratio of the cached kline
  summary, and the notifier's answer.
\<close>

record alert_env =
  quote_of :: "stock \<Rightarrow> quote option"
  is_trading_time :: "stock \<Rightarrow> bool"
  volume_ratio_of :: "stock \<Rightarrow> real option"
  send_notify :: "alert_rule \<Rightarrow> alert_snapshot \<Rightarrow> bool \<times> string"

definition eval_condition :: "alert_env \<Rightarrow> stock \<Rightarrow> quote \<Rightarrow> cond \<Rightarrow> bool \<times> cond_detail" where
  "eval_condition env st q c =
     (let ctype = py_strip (c_type c);
          opr = py_strip (c_op c);
          left = (if ctype = ''price'' then Some (q_current_price q)
                  else if ctype = ''change_pct'' then Some (q_change_pct q)
                  else if ctype = ''turnover'' then Some (q_turnover q)
                  else if ctype = ''volume'' then Some (q_volume q)
                  else if ctype = ''volume_ratio'' then Some (volume_ratio_of env st)
                  else None)
      in case left of
           None \<Rightarrow> (False, \<lparr>d_type = ctype, d_op = [], d_target = JOther, d_actual = None,
                             d_matched = False, d_unsupported = True\<rparr>)
         | Some l \<Rightarrow>
             let ok = op_eval l opr (c_value c)
             in (ok, \<lparr>d_type = ctype, d_op = opr, d_target = c_value c, d_actual = l,
                      d_matched = ok, d_unsupported = False\<rparr>))"

definition eval_rule :: "alert_env \<Rightarrow> stock \<Rightarrow> alert_rule \<Rightarrow> quote \<Rightarrow> bool \<times> alert_snapshot option" where
  \<comment> \<open>the snapshot is \<open>None\<close> for the \<open>empty_items\<close> result\<close>
  "eval_rule env st rule q =
     (let g = r_condition_group rule;
          opr = py_lower (case g_op g of None \<Rightarrow> ''and'' | Some s \<Rightarrow> s);
          items = g_items g
      in if items = [] then (False, None)
         else
           let results = map (eval_condition env st q) (List.map_filter id items);
               bools = map fst results;
               matched = (if bools = [] then False
                          else if opr = ''or'' then list_ex id bools
                          else list_all id bools)
           in (matched, Some \<lparr>sn_quote = q, sn_conditions = map snd results, sn_group_op = opr\<rparr>))"

definition can_trigger ::
  "alert_env \<Rightarrow> bool \<Rightarrow> instant \<Rightarrow> stock \<Rightarrow> alert_rule \<Rightarrow> (bool \<times> string) \<times> alert_rule" where
  "can_trigger env bypass_market_hours now st rule =
     (if \<not> r_enabled rule then ((False, ''disabled''), rule)
      else if (case r_expire_at rule of None \<Rightarrow> False | Some e \<Rightarrow> e < now)
      then ((False, ''expired''), rule)
      else if r_market_hours_mode rule = Some ''trading_only'' \<and> \<not> bypass_market_hours
              \<and> \<not> is_trading_time env st
      then ((False, ''non_trading''), rule)
      else
        let today = day_key now;
            rule1 = (if r_trigger_date rule \<noteq> Some today
                     then rule\<lparr>r_trigger_date := Some today, r_trigger_count_today := Some 0\<rparr>
                     else rule);
            max_per_day = int_or (r_max_triggers_per_day rule1) 0
        in if 0 < max_per_day \<and> max_per_day \<le> int_or (r_trigger_count_today rule1) 0
           then ((False, ''daily_limit''), rule1)
           else if r_repeat_mode rule1 = Some ''once'' \<and> r_last_trigger_at rule1 \<noteq> None
           then ((False, ''once_triggered''), rule1)
           else if (case r_last_trigger_at rule1 of
                      None \<Rightarrow> False
                    | Some lt \<Rightarrow> now - lt < of_int (max 0 (int_or (r_cooldown_minutes rule1) 0) * 60))
           then ((False, ''cooldown''), rule1)
           else ((True, ''ok''), rule1))"

record scan_state =
  ss_hits :: "alert_hit list"
  ss_rules :: "alert_rule list"
  ss_items :: "scan_item list"
  ss_triggered :: nat
  ss_skipped :: nat

definition skip_with :: "scan_item \<Rightarrow> alert_rule \<Rightarrow> scan_state \<Rightarrow> scan_state" where
  "skip_with item rule s =
     s\<lparr>ss_rules := ss_rules s @ [rule], ss_items := ss_items s @ [item],
       ss_skipped := ss_skipped s + 1\<rparr>"

text \<open>
  One iteration of the loop of \<open>scan_once\<close>. The hit table has the uniqueness constraint
  on (rule id, minute bucket): the flush of a duplicate fails, the session is rolled back
  (the rule is as loaded) and the rule is reported as duplicated. \<open>ss_rules\<close> collects
  the rule objects as the session holds them after their iteration.
\<close>

definition scan_rule :: "alert_env \<Rightarrow> bool \<Rightarrow> bool \<Rightarrow> instant \<Rightarrow> alert_rule \<Rightarrow> scan_state \<Rightarrow> scan_state" where
  "scan_rule env dry_run bypass_market_hours now rule s =
     (case r_stock rule of
        None \<Rightarrow> skip_with (NoStock (r_id rule)) rule s
      | Some st \<Rightarrow>
          (case quote_of env st of
             None \<Rightarrow> skip_with (NoQuote (r_id rule)) rule s
           | Some q \<Rightarrow>
               (case can_trigger env bypass_market_hours now st rule of
                  ((can, reason), rule1) \<Rightarrow>
                    if \<not> can then skip_with (Gated (r_id rule) reason) rule1 s
                    else
                      (case eval_rule env st rule1 q of
                         (matched, snap) \<Rightarrow>
                           if \<not> matched then skip_with (NotMatched (r_id rule)) rule1 s
                           else
                             let snapshot = (case snap of
                                   Some sn \<Rightarrow> sn
                                 | None \<Rightarrow> \<lparr>sn_quote = q, sn_conditions = [], sn_group_op = []\<rparr>)
                             in if dry_run
                                then s\<lparr>ss_rules := ss_rules s @ [rule1],
                                       ss_items := ss_items s @ [WouldTrigger (r_id rule) snapshot],
                                       ss_triggered := ss_triggered s + 1\<rparr>
                                else
                                  let bucket = minute_bucket now
                                  in if (r_id rule, bucket) \<in>
                                          set (map (\<lambda>h. (h_rule_id h, h_trigger_bucket h)) (ss_hits s))
                                     then skip_with (Duplicated (r_id rule)) rule s
                                     else
                                       (case send_notify env rule1 snapshot of
                                          (notify_ok, notify_err) \<Rightarrow>
                                            s\<lparr>ss_hits := ss_hits s @
                                                 [\<lparr>h_rule_id = r_id rule, h_stock_id = s_id st,
                                                   h_trigger_time = now, h_trigger_bucket = bucket,
                                                   h_snapshot = snapshot,
                                                   h_notify_success = notify_ok,
                                                   h_notify_error = notify_err\<rparr>],
                                              ss_rules := ss_rules s @
                                                 [rule1\<lparr>r_last_trigger_at := Some now,
                                                   r_last_trigger_price := q_current_price q,
                                                   r_trigger_count_today :=
                                                     Some (int_or (r_trigger_count_today rule1) 0 + 1),
                                                   r_trigger_date := Some (day_key now),
                                                   r_enabled := (if r_repeat_mode rule1 = Some ''once''
                                                                 then False else r_enabled rule1)\<rparr>],
                                              ss_items := ss_items s @
                                                 [Triggered (r_id rule) notify_ok notify_err],
                                              ss_triggered := ss_triggered s + 1\<rparr>)))))"

definition scan_once ::
  "alert_env \<Rightarrow> int option \<Rightarrow> bool \<Rightarrow> bool \<Rightarrow> instant \<Rightarrow> alert_rule list \<Rightarrow> alert_hit list \<Rightarrow> scan_state" where
  "scan_once env only_rule_id dry_run bypass_market_hours now all_rules hits =
     (let rules = filter (\<lambda>r. r_enabled r \<and> r_stock r \<noteq> None \<and>
                     (case only_rule_id of None \<Rightarrow> True
                      | Some i \<Rightarrow> i = 0 \<or> r_id r = i)) all_rules
      in fold (scan_rule env dry_run bypass_market_hours now) rules
           \<lparr>ss_hits = hits, ss_rules = [], ss_items = [], ss_triggered = 0, ss_skipped = 0\<rparr>)"

text \<open>The three gates of claim C7.\<close>

definition rule_expired :: "instant \<Rightarrow> alert_rule \<Rightarrow> bool" where
  "rule_expired now rule = (case r_expire_at rule of None \<Rightarrow> False | Some e \<Rightarrow> e < now)"

definition in_cooldown :: "instant \<Rightarrow> alert_rule \<Rightarrow> bool" where
  "in_cooldown now rule =
     (case r_last_trigger_at rule of
        None \<Rightarrow> False
      | Some lt \<Rightarrow> now - lt < of_int (max 0 (int_or (r_cooldown_minutes rule) 0) * 60))"

definition gated :: "instant \<Rightarrow> alert_rule \<Rightarrow> bool" where
  "gated now rule = (\<not> r_enabled rule \<or> rule_expired now rule \<or> in_cooldown now rule)"

text \<open>
  A worked scan: a rule with a 30 minute cooldown that fired 10 minutes ago, whose
  condition \<open>price > 10\<close> matches the quote (price 12).
\<close>

definition ex_stock :: stock where
  "ex_stock = \<lparr>s_id = 1, s_market = ''CN'', s_symbol = ''600519''\<rparr>"

definition ex_quote :: quote where
  "ex_quote = \<lparr>q_current_price = Some 12, q_change_pct = Some 1, q_turnover = None, q_volume = None\<rparr>"

definition ex_env :: alert_env where
  "ex_env = \<lparr>quote_of = (\<lambda>s. Some ex_quote), is_trading_time = (\<lambda>s. True),
             volume_ratio_of = (\<lambda>s. None), send_notify = (\<lambda>r sn. (True, []))\<rparr>"

definition ex_rule :: alert_rule where
  "ex_rule = \<lparr>r_id = 7, r_stock = Some ex_stock, r_enabled = True,
      r_condition_group = \<lparr>g_op = Some ''and'',
         g_items = [Some \<lparr>c_type = ''price'', c_op = ''>'', c_value = JNum 10\<rparr>]\<rparr>,
      r_market_hours_mode = Some ''always'', r_cooldown_minutes = Some 30,
      r_max_triggers_per_day = Some 3, r_repeat_mode = Some ''repeat'', r_expire_at = None,
      r_last_trigger_at = Some 999400, r_last_trigger_price = Some 11,
      r_trigger_count_today = Some 1, r_trigger_date = Some 11\<rparr>"

section \<open>Facts about the primitives\<close>

lemma py_round_ge: "of_int a \<le> x \<Longrightarrow> a \<le> py_round x"
proof -
  assume "of_int a \<le> x"
  then have "a \<le> \<lfloor>x\<rfloor>" by (simp add: le_floor_iff)
  then show ?thesis unfolding py_round_def Let_def by auto
qed

lemma clamp_bounds: "lo \<le> hi \<Longrightarrow> lo \<le> clamp v lo hi \<and> clamp v lo hi \<le> hi"
  by (auto simp: clamp_def max_def min_def)

lemma py_round_le: "x \<le> of_int b \<Longrightarrow> py_round x \<le> b"
proof -
  assume h: "x \<le> of_int b"
  show ?thesis
  proof (cases "x = of_int b")
    case True then show ?thesis by (simp add: py_round_def)
  next
    case False
    with h have "x < of_int b" by simp
    then have "\<lfloor>x\<rfloor> < b" by (simp add: floor_less_iff)
    then show ?thesis unfolding py_round_def Let_def by auto
  qed
qed


lemma round_nd_ge: "of_int a \<le> x * 10 ^ n \<Longrightarrow> of_int a / 10 ^ n \<le> round_nd x n"
  unfolding round_nd_def
  by (intro divide_right_mono) (simp_all add: py_round_ge)

lemma round_nd_le: "x * 10 ^ n \<le> of_int b \<Longrightarrow> round_nd x n \<le> of_int b / 10 ^ n"
  unfolding round_nd_def
  by (intro divide_right_mono) (simp_all add: py_round_le)

lemma round_nd_unit: "0 \<le> x \<Longrightarrow> x \<le> 100 \<Longrightarrow> 0 \<le> round_nd x 4 \<and> round_nd x 4 \<le> 100"
  using round_nd_ge [of 0 x 4] round_nd_le [of x 4 1000000] by simp


section \<open>Strategy scorer: the rank score\<close>

lemma cap_score_bounds: "0 \<le> s \<Longrightarrow> s \<le> 100 \<Longrightarrow> 0 \<le> cap_score row s \<and> cap_score row s \<le> 100"
  by (auto simp: cap_score_def Let_def min_def)

lemma round_nd_exact: "x * 10 ^ n = of_int k \<Longrightarrow> round_nd x n = of_int k / 10 ^ n"
  by (simp add: round_nd_def py_round_def)

text \<open>
  Claim C1, as the code has it. The rank score of a (candidate, strategy) pair is the sum
  of base score and factor terms less the penalties (less 8 for a buy or add without an
  entry band, less 6 for a buy or add with plan quality below 90), multiplied as a whole
  by the weight and the regime multiplier and clamped to [0, 100]; the result is then cut
  to 69 when the candidate's status is not \<open>active\<close>, to 78 (held) or 65 (not held) when
  the action is hold or watch, to 66 when the action is buy or add and both ends of the
  entry band are missing, and rounded to four decimals. So the rank score lies in
  [0, 100], and is at most 69, 78 or 65, and 66 in the three capped cases.
\<close>

theorem rank_score_formula:
  "rank_score_of (compute_factor_breakdown row strategy_code wt risk_level ri cf nm) =
     round_nd
       (let s = clamp
              ((num_or (sc_score row) 0 + alpha_score_of row cf + catalyst_score_of row cf nm
                  + quality_score_of row nm + source_bonus_of row strategy_code cf
                - risk_penalty_of row risk_level nm - crowd_penalty_of row cf
                - (if row_action row \<in> {''buy'', ''add''}
                      \<and> sc_entry_low row = None \<and> sc_entry_high row = None then 8 else 0)
                - (if row_action row \<in> {''buy'', ''add''} \<and> int_or (sc_plan_quality row) 0 < 90
                   then 6 else 0))
               * (if wt = 0 then 1 else wt) * regime_multiplier_of row ri) 0 100;
            s1 = (if str_or (sc_status row) ''inactive'' \<noteq> ''active'' then min s 69 else s);
            s2 = (if row_action row \<in> {''hold'', ''watch''}
                  then min s1 (if sc_is_holding_snapshot row then 78 else 65) else s1)
        in if row_action row \<in> {''buy'', ''add''}
                \<and> sc_entry_low row = None \<and> sc_entry_high row = None
           then min s2 66 else s2) 4
   \<and> 0 \<le> rank_score_of (compute_factor_breakdown row strategy_code wt risk_level ri cf nm)
   \<and> rank_score_of (compute_factor_breakdown row strategy_code wt risk_level ri cf nm) \<le> 100
   \<and> (str_or (sc_status row) ''inactive'' \<noteq> ''active'' \<longrightarrow>
        rank_score_of (compute_factor_breakdown row strategy_code wt risk_level ri cf nm) \<le> 69)
   \<and> (row_action row \<in> {''hold'', ''watch''} \<longrightarrow>
        rank_score_of (compute_factor_breakdown row strategy_code wt risk_level ri cf nm)
          \<le> (if sc_is_holding_snapshot row then 78 else 65))
   \<and> (row_action row \<in> {''buy'', ''add''} \<and> sc_entry_low row = None \<and> sc_entry_high row = None \<longrightarrow>
        rank_score_of (compute_factor_breakdown row strategy_code wt risk_level ri cf nm) \<le> 66)"
proof -
  let ?raw = "raw_score_of row strategy_code risk_level cf nm"
  let ?c = "clamp (?raw * (if wt = 0 then 1 else wt) * regime_multiplier_of row ri) 0 100"
  let ?rank = "rank_score_of (compute_factor_breakdown row strategy_code wt risk_level ri cf nm)"
  have eq: "?rank = round_nd (cap_score row ?c) 4"
    by (simp add: rank_score_of_def compute_factor_breakdown_def Let_def)
  have c: "0 \<le> ?c \<and> ?c \<le> 100" by (rule clamp_bounds) simp
  then have "0 \<le> cap_score row ?c \<and> cap_score row ?c \<le> 100" by (simp add: cap_score_bounds)
  then have b: "0 \<le> ?rank \<and> ?rank \<le> 100"
    unfolding eq by (simp add: round_nd_unit)
  have le: "?rank \<le> of_int k" if "cap_score row ?c \<le> of_int k" for k
  proof -
    from that have "cap_score row ?c * 10 ^ 4 \<le> of_int (k * 10 ^ 4)" by simp
    from round_nd_le [OF this] show ?thesis unfolding eq by simp
  qed
  have i: "?rank \<le> 69" if "str_or (sc_status row) ''inactive'' \<noteq> ''active''"
    using le [of 69] that by (simp add: cap_score_def row_active_def Let_def min_def)
  have h: "?rank \<le> (if sc_is_holding_snapshot row then 78 else 65)"
    if "row_action row \<in> {''hold'', ''watch''}"
    using le [of 78] le [of 65] that by (auto simp: cap_score_def Let_def min_def)
  have n: "?rank \<le> 66"
    if "row_action row \<in> {''buy'', ''add''} \<and> sc_entry_low row = None \<and> sc_entry_high row = None"
    using le [of 66] that by (simp add: cap_score_def has_entry_def Let_def min_def)
  have f: "?rank = round_nd
       (let s = clamp
              ((num_or (sc_score row) 0 + alpha_score_of row cf + catalyst_score_of row cf nm
                  + quality_score_of row nm + source_bonus_of row strategy_code cf
                - risk_penalty_of row risk_level nm - crowd_penalty_of row cf
                - (if row_action row \<in> {''buy'', ''add''}
                      \<and> sc_entry_low row = None \<and> sc_entry_high row = None then 8 else 0)
                - (if row_action row \<in> {''buy'', ''add''} \<and> int_or (sc_plan_quality row) 0 < 90
                   then 6 else 0))
               * (if wt = 0 then 1 else wt) * regime_multiplier_of row ri) 0 100;
            s1 = (if str_or (sc_status row) ''inactive'' \<noteq> ''active'' then min s 69 else s);
            s2 = (if row_action row \<in> {''hold'', ''watch''}
                  then min s1 (if sc_is_holding_snapshot row then 78 else 65) else s1)
        in if row_action row \<in> {''buy'', ''add''}
                \<and> sc_entry_low row = None \<and> sc_entry_high row = None
           then min s2 66 else s2) 4"
    unfolding eq cap_score_def raw_score_of_def row_active_def has_entry_def row_plan_quality_def
    by (simp only: de_Morgan_disj not_not Let_def)
  from f b i h n show ?thesis by blast
qed

lemma ex_scored_fields:
  "sc_score ex_scored = Some 60" "sc_action ex_scored = Some ''buy''" "sc_status ex_scored = Some ''active''"
  "sc_is_holding_snapshot ex_scored = False" "sc_signal ex_scored = None" "sc_reason ex_scored = None"
  "sc_plan_quality ex_scored = Some 100" "sc_candidate_source ex_scored = Some ''watchlist''"
  "sc_source_agent ex_scored = None" "sc_entry_low ex_scored = Some 99" "sc_entry_high ex_scored = Some 101"
  "sc_quote_change_pct ex_scored = None" "sc_source_quote_change_pct ex_scored = None"
  "sc_kline_volume_ratio ex_scored = None" "sc_quote_turnover ex_scored = None"
  "sc_source_quote_turnover ex_scored = None"
  by (simp_all add: ex_scored_def)

lemma ex_row_facts:
  "row_action ex_scored = ''buy''" "row_active ex_scored" "has_entry ex_scored"
  "row_plan_quality ex_scored = 100" "extract_quote_change_pct ex_scored = None"
  "extract_turnover ex_scored = None"
  by (simp_all add: row_action_def row_active_def has_entry_def row_plan_quality_def
        extract_quote_change_pct_def extract_turnover_def ex_scored_fields str_or_def int_or_def
        py_strip_def py_lower_def is_space_def lower_char_def)

lemma ex_terms:
  "alpha_score_of ex_scored None = 45 / 10"
  "catalyst_score_of ex_scored None None = 0"
  "quality_score_of ex_scored None = 10"
  "risk_penalty_of ex_scored ''medium'' None = 0"
  "crowd_penalty_of ex_scored None = 0"
  "source_bonus_of ex_scored ''watchlist_agent'' None = 0"
  "regime_multiplier_of ex_scored ex_regime = 1"
proof -
  show "alpha_score_of ex_scored None = 45 / 10"
    by (simp add: alpha_score_of_def ex_scored_fields num_or_def rel_strength_def clamp_def)
  have "\<not> contains txt_breakout '' ''" "\<not> contains ''breakout'' '' ''"
       "\<not> contains txt_pullback '' ''" "\<not> contains txt_oversold_drop '' ''"
    by (simp_all add: txt_breakout_def txt_pullback_def txt_oversold_drop_def)
  moreover have "py_lower '' '' = '' ''" by (simp add: py_lower_def lower_char_def)
  moreover have "py_strip ''watchlist'' = ''watchlist''" by (simp add: py_strip_def is_space_def)
  ultimately show "catalyst_score_of ex_scored None None = 0"
    by (simp add: catalyst_score_of_def ex_scored_fields ex_row_facts str_or_def rel_strength_def
          event_bias_of_def clamp_def Let_def)
  show "quality_score_of ex_scored None = 10"
    by (simp add: quality_score_of_def ex_row_facts clamp_def)
  show "risk_penalty_of ex_scored ''medium'' None = 0"
    by (simp add: risk_penalty_of_def ex_row_facts event_bias_of_def)
  show "crowd_penalty_of ex_scored None = 0"
    by (simp add: crowd_penalty_of_def ex_row_facts ex_scored_fields clamp_def)
  show "source_bonus_of ex_scored ''watchlist_agent'' None = 0"
    by (simp add: source_bonus_of_def ex_scored_fields str_or_def rel_strength_def)
  show "regime_multiplier_of ex_scored ex_regime = 1"
  proof -
    have n: "regime_of ex_regime = ''neutral''" by (simp add: regime_of_def ex_regime_def str_or_def)
    have "regime_multiplier_of ex_scored ex_regime =
        clamp (1 + clamp (((case ex_regime of None \<Rightarrow> 0 | Some r \<Rightarrow> num_or (ri_confidence r) 0) - 1 / 2)
          * (6 / 100)) (- (3 / 100)) (3 / 100)) (85 / 100) (112 / 100)"
      using n by (simp add: regime_multiplier_of_def)
    also have "\<dots> = 1" by (simp add: ex_regime_def num_or_def clamp_def)
    finally show ?thesis .
  qed
qed

lemma ex_raw: "raw_score_of ex_scored ''watchlist_agent'' ''medium'' None None = 745 / 10"
  by (simp add: raw_score_of_def ex_terms ex_row_facts ex_scored_fields num_or_def)

lemma breakdown_fields:
  "fb_base_score (compute_factor_breakdown row sc wt risk ri cf nm) = round_nd (num_or (sc_score row) 0) 4"
  "fb_alpha_score (compute_factor_breakdown row sc wt risk ri cf nm) = round_nd (alpha_score_of row cf) 4"
  "fb_catalyst_score (compute_factor_breakdown row sc wt risk ri cf nm) = round_nd (catalyst_score_of row cf nm) 4"
  "fb_quality_score (compute_factor_breakdown row sc wt risk ri cf nm) = round_nd (quality_score_of row nm) 4"
  "fb_risk_penalty (compute_factor_breakdown row sc wt risk ri cf nm) = round_nd (risk_penalty_of row risk nm) 4"
  "fb_crowd_penalty (compute_factor_breakdown row sc wt risk ri cf nm) = round_nd (crowd_penalty_of row cf) 4"
  "fb_source_bonus (compute_factor_breakdown row sc wt risk ri cf nm) = round_nd (source_bonus_of row sc cf) 4"
  "fb_regime_multiplier (compute_factor_breakdown row sc wt risk ri cf nm) = round_nd (regime_multiplier_of row ri) 4"
  "fb_weighted_score (compute_factor_breakdown row sc wt risk ri cf nm) =
     round_nd (cap_score row (clamp (raw_score_of row sc risk cf nm * (if wt = 0 then 1 else wt)
        * regime_multiplier_of row ri) 0 100)) 4"
  by (simp_all add: compute_factor_breakdown_def Let_def)

lemma ex_cap: "cap_score ex_scored s = s"
  by (simp add: cap_score_def ex_row_facts Let_def)

lemma ex_rounds:
  "round_nd 60 4 = 60" "round_nd (9 / 2) 4 = 9 / 2" "round_nd 0 4 = 0"
  "round_nd 10 4 = 10" "round_nd 1 4 = 1" "round_nd (447 / 5) 4 = 447 / 5"
  by (simp_all add: round_nd_def py_round_def)

lemma ex_weighted: "fb_weighted_score ex_breakdown = 447 / 5"
  unfolding ex_breakdown_def breakdown_fields ex_raw ex_terms ex_cap
  by (simp add: clamp_def ex_rounds)

lemma ex_breakdown_fields:
  "fb_base_score ex_breakdown = 60" "fb_alpha_score ex_breakdown = 9 / 2"
  "fb_catalyst_score ex_breakdown = 0" "fb_quality_score ex_breakdown = 10"
  "fb_risk_penalty ex_breakdown = 0" "fb_crowd_penalty ex_breakdown = 0"
  "fb_source_bonus ex_breakdown = 0" "fb_regime_multiplier ex_breakdown = 1"
  unfolding ex_breakdown_def breakdown_fields ex_terms
  by (simp_all add: ex_rounds ex_scored_fields num_or_def)

text \<open>
  On the worked candidate the code's rank score is 89.4 (74.5 * 1.2 * 1.0); the formula
  of the specification gives 86.5 (60 * 1.2 * 1.0 + 4.5 + 10).
\<close>

theorem rank_score_counterexample:
  "rank_score_of ex_breakdown = 894 / 10 \<and> spec_rank_score ex_breakdown (12 / 10) = 865 / 10
   \<and> rank_score_of ex_breakdown \<noteq> spec_rank_score ex_breakdown (12 / 10)"
  by (simp add: rank_score_of_def spec_rank_score_def ex_breakdown_fields ex_weighted clamp_def)

lemma exw_actions:
  "row_action (ex_scored_with st (Some ''buy'') held lo hi) = ''buy''"
  "row_action (ex_scored_with st (Some ''watch'') held lo hi) = ''watch''"
  "row_action (ex_scored_with st (Some ''hold'') held lo hi) = ''hold''"
  by (simp_all add: row_action_def ex_scored_with_def str_or_def py_strip_def py_lower_def
        is_space_def lower_char_def)

lemma exw_fields:
  "sc_score (ex_scored_with st act held lo hi) = Some 60"
  "sc_status (ex_scored_with st act held lo hi) = st"
  "sc_is_holding_snapshot (ex_scored_with st act held lo hi) = held"
  "sc_plan_quality (ex_scored_with st act held lo hi) = Some 100"
  "sc_entry_low (ex_scored_with st act held lo hi) = lo"
  "sc_entry_high (ex_scored_with st act held lo hi) = hi"
  by (simp_all add: ex_scored_with_def)

lemma exw_terms:
  "alpha_score_of (ex_scored_with st act held lo hi) None = 9 / 2"
  "catalyst_score_of (ex_scored_with st act held lo hi) None None = 0"
  "quality_score_of (ex_scored_with st act held lo hi) None = 10"
  "risk_penalty_of (ex_scored_with st act held lo hi) ''medium'' None
     = (if str_or st ''inactive'' = ''active'' then 0 else 5 / 2)"
  "crowd_penalty_of (ex_scored_with st act held lo hi) None = 0"
  "source_bonus_of (ex_scored_with st act held lo hi) ''watchlist_agent'' None = 0"
  "regime_multiplier_of (ex_scored_with st act held lo hi) ex_regime = 1"
proof -
  let ?r = "ex_scored_with st act held lo hi"
  have q: "extract_quote_change_pct ?r = None" "extract_turnover ?r = None"
    "sc_kline_volume_ratio ?r = None" "row_plan_quality ?r = 100"
    "sc_signal ?r = None" "sc_reason ?r = None" "sc_candidate_source ?r = Some ''watchlist''"
    "sc_source_agent ?r = None"
    by (simp_all add: extract_quote_change_pct_def extract_turnover_def row_plan_quality_def
          int_or_def ex_scored_with_def)
  show "alpha_score_of ?r None = 9 / 2"
    by (simp add: alpha_score_of_def exw_fields num_or_def rel_strength_def clamp_def)
  have "\<not> contains txt_breakout '' ''" "\<not> contains ''breakout'' '' ''"
       "\<not> contains txt_pullback '' ''" "\<not> contains txt_oversold_drop '' ''"
    by (simp_all add: txt_breakout_def txt_pullback_def txt_oversold_drop_def)
  moreover have "py_lower '' '' = '' ''" by (simp add: py_lower_def lower_char_def)
  moreover have "py_strip ''watchlist'' = ''watchlist''" by (simp add: py_strip_def is_space_def)
  ultimately show "catalyst_score_of ?r None None = 0"
    by (simp add: catalyst_score_of_def q str_or_def rel_strength_def
          event_bias_of_def clamp_def Let_def)
  show "quality_score_of ?r None = 10"
    by (simp add: quality_score_of_def q clamp_def)
  show "risk_penalty_of ?r ''medium'' None = (if str_or st ''inactive'' = ''active'' then 0 else 5 / 2)"
    by (simp add: risk_penalty_of_def q row_active_def exw_fields event_bias_of_def)
  show "crowd_penalty_of ?r None = 0"
    by (simp add: crowd_penalty_of_def q clamp_def)
  show "source_bonus_of ?r ''watchlist_agent'' None = 0"
    by (simp add: source_bonus_of_def q str_or_def rel_strength_def)
  show "regime_multiplier_of ?r ex_regime = 1"
  proof -
    have n: "regime_of ex_regime = ''neutral''" by (simp add: regime_of_def ex_regime_def str_or_def)
    have "regime_multiplier_of ?r ex_regime =
        clamp (1 + clamp (((case ex_regime of None \<Rightarrow> 0 | Some r \<Rightarrow> num_or (ri_confidence r) 0) - 1 / 2)
          * (6 / 100)) (- (3 / 100)) (3 / 100)) (85 / 100) (112 / 100)"
      using n by (simp add: regime_multiplier_of_def)
    also have "\<dots> = 1" by (simp add: ex_regime_def num_or_def clamp_def)
    finally show ?thesis .
  qed
qed

lemma exw_rounds:
  "round_nd 69 4 = 69" "round_nd 65 4 = 65" "round_nd 78 4 = 78" "round_nd 66 4 = 66"
  "round_nd (447 / 5) 4 = 447 / 5"
  by (simp_all add: round_nd_def py_round_def)

text \<open>
  The worked candidate scores 89.4 (74.5 * 1.2, no cut). With status \<open>inactive\<close> the product
  is 86.4 and the score 69; with action \<open>watch\<close> it is 65 when not held; with action
  \<open>hold\<close> on a held symbol it is 78; as a buy without an entry band the product is 79.8
  and the score 66.
\<close>

theorem rank_score_formula_witness:
  "rank_score_of (compute_factor_breakdown
      (ex_scored_with (Some ''active'') (Some ''buy'') False (Some 99) (Some 101))
      ''watchlist_agent'' (12 / 10) ''medium'' ex_regime None None) = 894 / 10
   \<and> rank_score_of (compute_factor_breakdown
      (ex_scored_with (Some ''inactive'') (Some ''buy'') False (Some 99) (Some 101))
      ''watchlist_agent'' (12 / 10) ''medium'' ex_regime None None) = 69
   \<and> rank_score_of (compute_factor_breakdown
      (ex_scored_with (Some ''active'') (Some ''watch'') False (Some 99) (Some 101))
      ''watchlist_agent'' (12 / 10) ''medium'' ex_regime None None) = 65
   \<and> rank_score_of (compute_factor_breakdown
      (ex_scored_with (Some ''active'') (Some ''hold'') True (Some 99) (Some 101))
      ''watchlist_agent'' (12 / 10) ''medium'' ex_regime None None) = 78
   \<and> rank_score_of (compute_factor_breakdown
      (ex_scored_with (Some ''active'') (Some ''buy'') False None None)
      ''watchlist_agent'' (12 / 10) ''medium'' ex_regime None None) = 66"
proof -
  note t = rank_score_formula [where strategy_code = "''watchlist_agent''" and wt = "12 / 10"
      and risk_level = "''medium''" and ri = ex_regime and cf = None and nm = None, THEN conjunct1]
  have a: "rank_score_of (compute_factor_breakdown
      (ex_scored_with (Some ''active'') (Some ''buy'') False (Some 99) (Some 101))
      ''watchlist_agent'' (12 / 10) ''medium'' ex_regime None None) = 894 / 10"
    unfolding t exw_terms exw_actions exw_fields
    by (simp add: num_or_def int_or_def str_or_def clamp_def exw_rounds)
  have b: "rank_score_of (compute_factor_breakdown
      (ex_scored_with (Some ''inactive'') (Some ''buy'') False (Some 99) (Some 101))
      ''watchlist_agent'' (12 / 10) ''medium'' ex_regime None None) = 69"
    unfolding t exw_terms exw_actions exw_fields
    by (simp add: num_or_def int_or_def str_or_def clamp_def exw_rounds)
  have c: "rank_score_of (compute_factor_breakdown
      (ex_scored_with (Some ''active'') (Some ''watch'') False (Some 99) (Some 101))
      ''watchlist_agent'' (12 / 10) ''medium'' ex_regime None None) = 65"
    unfolding t exw_terms exw_actions exw_fields
    by (simp add: num_or_def int_or_def str_or_def clamp_def exw_rounds)
  have d: "rank_score_of (compute_factor_breakdown
      (ex_scored_with (Some ''active'') (Some ''hold'') True (Some 99) (Some 101))
      ''watchlist_agent'' (12 / 10) ''medium'' ex_regime None None) = 78"
    unfolding t exw_terms exw_actions exw_fields
    by (simp add: num_or_def int_or_def str_or_def clamp_def exw_rounds)
  have e: "rank_score_of (compute_factor_breakdown
      (ex_scored_with (Some ''active'') (Some ''buy'') False None None)
      ''watchlist_agent'' (12 / 10) ''medium'' ex_regime None None) = 66"
    unfolding t exw_terms exw_actions exw_fields
    by (simp add: num_or_def int_or_def str_or_def clamp_def exw_rounds)
  from a b c d e show ?thesis by blast
qed

section \<open>Portfolio constraints: the caps\<close>

subsection \<open>Grouping\<close>

lemma setdefault_append_keys:
  "fst ` set (setdefault_append k v acc) = insert k (fst ` set acc)"
proof (induction acc)
  case Nil
  show ?case by simp
next
  case (Cons a acc)
  obtain k0 vs0 where a: "a = (k0, vs0)" by (cases a)
  show ?case
  proof (cases "k = k0")
    case True
    then show ?thesis by (simp add: a)
  next
    case False
    then show ?thesis using Cons.IH by (simp add: a insert_commute)
  qed
qed

lemma setdefault_append_distinct:
  "distinct (map fst acc) \<Longrightarrow> distinct (map fst (setdefault_append k v acc))"
proof (induction acc)
  case Nil
  then show ?case by simp
next
  case (Cons a acc)
  obtain k' vs where a: "a = (k', vs)" by (cases a)
  show ?case
  proof (cases "k = k'")
    case True
    then show ?thesis using Cons.prems a by simp
  next
    case False
    have "k' \<notin> fst ` set (setdefault_append k v acc)"
      using Cons.prems a False by (simp add: setdefault_append_keys)
    then show ?thesis using Cons a False by simp
  qed
qed

lemma setdefault_append_mem:
  "distinct (map fst acc) \<Longrightarrow> (k', vs') \<in> set (setdefault_append k v acc) \<Longrightarrow>
   (k' = k \<and> ((\<exists>vs. (k, vs) \<in> set acc \<and> vs' = vs @ [v]) \<or> (k \<notin> fst ` set acc \<and> vs' = [v])))
   \<or> (k' \<noteq> k \<and> (k', vs') \<in> set acc)"
proof (induction acc)
  case Nil
  then show ?case by auto
next
  case (Cons a acc)
  obtain k0 vs0 where a: "a = (k0, vs0)" by (cases a)
  show ?case
  proof (cases "k = k0")
    case True
    with Cons.prems a have "(k', vs') = (k0, vs0 @ [v]) \<or> (k', vs') \<in> set acc" by simp
    then show ?thesis
    proof
      assume "(k', vs') = (k0, vs0 @ [v])"
      then show ?thesis using True a by auto
    next
      assume m: "(k', vs') \<in> set acc"
      then have "k' \<in> fst ` set acc" by force
      with Cons.prems(1) a True have "k' \<noteq> k" by auto
      then show ?thesis using m by simp
    qed
  next
    case False
    with Cons.prems a have "(k', vs') = (k0, vs0) \<or> (k', vs') \<in> set (setdefault_append k v acc)"
      by simp
    then show ?thesis
    proof
      assume "(k', vs') = (k0, vs0)"
      then show ?thesis using False a by auto
    next
      assume "(k', vs') \<in> set (setdefault_append k v acc)"
      from Cons.IH [OF _ this] Cons.prems(1) a False show ?thesis by auto
    qed
  qed
qed

lemma grouped_step:
  assumes "grouped f xs acc"
  shows "grouped f (xs @ [x]) (setdefault_append (f x) x acc)"
  unfolding grouped_def
proof (intro conjI ballI)
  show "distinct (map fst (setdefault_append (f x) x acc))"
    using assms by (simp add: grouped_def setdefault_append_distinct)
next
  fix y assume "y \<in> set (xs @ [x])"
  then show "f y \<in> fst ` set (setdefault_append (f x) x acc)"
    using assms by (auto simp: grouped_def setdefault_append_keys)
next
  fix p assume p: "p \<in> set (setdefault_append (f x) x acc)"
  obtain k' vs' where pk: "p = (k', vs')" by (cases p)
  from assms have d: "distinct (map fst acc)" by (simp add: grouped_def)
  from setdefault_append_mem [OF d p [unfolded pk]]
  have "vs' = filter (\<lambda>y. f y = k') (xs @ [x])"
  proof (elim disjE conjE exE)
    fix vs assume "k' = f x" "(f x, vs) \<in> set acc" "vs' = vs @ [x]"
    then show ?thesis using assms by (auto simp: grouped_def)
  next
    assume k: "k' = f x" and n: "f x \<notin> fst ` set acc" and v: "vs' = [x]"
    have "\<forall>y \<in> set xs. f y \<noteq> f x"
    proof (intro ballI notI)
      fix y assume "y \<in> set xs" "f y = f x"
      with assms have "f x \<in> fst ` set acc" by (metis grouped_def)
      with n show False ..
    qed
    then have "filter (\<lambda>y. f y = f x) xs = []" by (simp add: filter_empty_conv)
    then show ?thesis using k v by simp
  next
    assume "k' \<noteq> f x" "(k', vs') \<in> set acc"
    then show ?thesis using assms by (auto simp: grouped_def)
  qed
  then show "case p of (k, vs) \<Rightarrow> vs = filter (\<lambda>x. f x = k) (xs @ [x])" by (simp add: pk)
qed

lemma grouped_fold:
  "grouped f ys acc \<Longrightarrow> grouped f (ys @ xs) (fold (\<lambda>x acc. setdefault_append (f x) x acc) xs acc)"
proof (induction xs arbitrary: ys acc)
  case Nil
  then show ?case by simp
next
  case (Cons x xs)
  from Cons.IH [OF grouped_step [OF Cons.prems, of x]] show ?case by simp
qed

lemma grouped_group_by: "grouped f xs (group_by f xs)"
  using grouped_fold [of f "[]" "[]" xs] by (simp add: group_by_def grouped_def)

lemma group_by_subset: "(k, vs) \<in> set (group_by f xs) \<Longrightarrow> set vs \<subseteq> set xs"
  using grouped_group_by [of f xs] by (auto simp: grouped_def)

subsection \<open>Demotion\<close>

lemma demote_signal_demoted: "is_demoted (demote_signal r reason)"
  by (simp add: is_demoted_def demote_signal_def Let_def)

lemma demoted_inactive: "is_demoted r \<Longrightarrow> \<not> sig_active r"
  by (simp add: is_demoted_def sig_active_def str_or_def)

lemma evolves_refl: "evolves S rows rows"
  by (simp add: evolves_def)

lemma evolves_mono: "evolves S a b \<Longrightarrow> S \<subseteq> T \<Longrightarrow> evolves T a b"
  unfolding evolves_def by blast

lemma evolves_length: "evolves S a b \<Longrightarrow> length b = length a"
  by (simp add: evolves_def)

lemma evolves_trans:
  assumes ab: "evolves S a b" and bc: "evolves T b c"
  shows "evolves (S \<union> T) a c"
  unfolding evolves_def
proof (intro conjI allI impI)
  show "length c = length a" using ab bc by (simp add: evolves_def)
next
  fix i assume i: "i < length a"
  then have ib: "i < length b" using ab by (simp add: evolves_def)
  from ab i have 1: "b ! i = a ! i \<or> (i \<in> S \<and> is_demoted (b ! i))" by (simp add: evolves_def)
  from bc ib have 2: "c ! i = b ! i \<or> (i \<in> T \<and> is_demoted (c ! i))" by (simp add: evolves_def)
  from 1 2 show "c ! i = a ! i \<or> (i \<in> S \<union> T \<and> is_demoted (c ! i))" by auto
qed

lemma evolves_keeps_demoted:
  "evolves S a b \<Longrightarrow> i < length a \<Longrightarrow> is_demoted (a ! i) \<Longrightarrow> is_demoted (b ! i)"
  unfolding evolves_def by metis

lemma evolves_outside:
  "evolves S a b \<Longrightarrow> i < length a \<Longrightarrow> i \<notin> S \<Longrightarrow> b ! i = a ! i"
  unfolding evolves_def by metis

lemma pc_rows_demote_at:
  "pc_rows (demote_at kind reason i st) = (pc_rows st)[i := demote_signal (pc_rows st ! i) reason]"
  by (cases kind) (simp_all add: demote_at_def count_demotion_def)

lemma evolves_demote_at: "evolves {i} (pc_rows st) (pc_rows (demote_at kind reason i st))"
  unfolding evolves_def pc_rows_demote_at
proof (intro conjI allI impI)
  show "length ((pc_rows st)[i := demote_signal (pc_rows st ! i) reason]) = length (pc_rows st)"
    by simp
next
  fix j assume j: "j < length (pc_rows st)"
  show "(pc_rows st)[i := demote_signal (pc_rows st ! i) reason] ! j = pc_rows st ! j \<or>
        (j \<in> {i} \<and> is_demoted ((pc_rows st)[i := demote_signal (pc_rows st ! i) reason] ! j))"
  proof (cases "j = i")
    case True
    then show ?thesis using j by (simp add: demote_signal_demoted)
  next
    case False
    then show ?thesis by simp
  qed
qed

lemma demote_at_demoted:
  "i < length (pc_rows st) \<Longrightarrow> is_demoted (pc_rows (demote_at kind reason i st) ! i)"
  by (simp add: pc_rows_demote_at demote_signal_demoted)

lemma fold_demote_at:
  "evolves (set xs) (pc_rows st) (pc_rows (fold (demote_at kind reason) xs st)) \<and>
   (\<forall>i \<in> set xs. i < length (pc_rows st) \<longrightarrow>
      is_demoted (pc_rows (fold (demote_at kind reason) xs st) ! i))"
proof (induction xs arbitrary: st)
  case Nil
  show ?case by (simp add: evolves_refl)
next
  case (Cons x xs)
  let ?st1 = "demote_at kind reason x st"
  let ?st2 = "fold (demote_at kind reason) xs ?st1"
  have e1: "evolves {x} (pc_rows st) (pc_rows ?st1)" by (rule evolves_demote_at)
  have len: "length (pc_rows ?st1) = length (pc_rows st)" by (rule evolves_length [OF e1])
  from Cons.IH [of ?st1] have e2: "evolves (set xs) (pc_rows ?st1) (pc_rows ?st2)"
    and d2: "\<forall>i \<in> set xs. i < length (pc_rows ?st1) \<longrightarrow> is_demoted (pc_rows ?st2 ! i)"
    by blast+
  have e: "evolves (set (x # xs)) (pc_rows st) (pc_rows ?st2)"
    using evolves_trans [OF e1 e2] by simp
  have "\<forall>i \<in> set (x # xs). i < length (pc_rows st) \<longrightarrow> is_demoted (pc_rows ?st2 ! i)"
  proof (intro ballI impI)
    fix i assume i: "i \<in> set (x # xs)" and il: "i < length (pc_rows st)"
    show "is_demoted (pc_rows ?st2 ! i)"
    proof (cases "i \<in> set xs")
      case True
      with d2 il len show ?thesis by simp
    next
      case False
      with i have ix: "i = x" by simp
      have "is_demoted (pc_rows ?st1 ! i)" unfolding ix using il ix by (simp add: demote_at_demoted)
      from evolves_keeps_demoted [OF e2 _ this] il len show ?thesis by simp
    qed
  qed
  with e show ?case by simp
qed

lemma fold_enumerate_skip:
  "fold (\<lambda>(idx, i) s. if idx < n then s else f i s) (List.enumerate k xs) st
     = fold f (drop (n - k) xs) st"
proof (induction xs arbitrary: k st)
  case Nil
  show ?case by simp
next
  case (Cons x xs)
  show ?case
  proof (cases "k < n")
    case True
    then have "drop (n - k) (x # xs) = drop (n - Suc k) xs"
      by (simp add: drop_Cons' Suc_diff_Suc)
    with True Cons.IH [of "Suc k" st] show ?thesis by simp
  next
    case False
    then have "n - k = 0" "n - Suc k = 0" by simp_all
    with False Cons.IH [of "Suc k" "f x st"] show ?thesis by simp
  qed
qed

lemma demote_beyond_eq:
  "demote_beyond n kind reason xs st = fold (demote_at kind reason) (drop n xs) st"
  unfolding demote_beyond_def using fold_enumerate_skip [of n "demote_at kind reason" 0 xs st] by simp

lemma demote_beyond_evolves:
  "evolves (set (drop n xs)) (pc_rows st) (pc_rows (demote_beyond n kind reason xs st))"
  unfolding demote_beyond_eq using fold_demote_at by blast

lemma demote_beyond_demoted:
  "i \<in> set (drop n xs) \<Longrightarrow> i < length (pc_rows st) \<Longrightarrow>
   is_demoted (pc_rows (demote_beyond n kind reason xs st) ! i)"
  unfolding demote_beyond_eq using fold_demote_at by blast

lemma demote_beyond_none:
  "length xs \<le> n \<Longrightarrow> demote_beyond n kind reason xs st = st"
  by (simp add: demote_beyond_eq)

lemma set_sort_desc [simp]: "set (sort_desc rows xs) = set xs"
  by (simp add: sort_desc_def)

lemma length_sort_desc [simp]: "length (sort_desc rows xs) = length xs"
  by (simp add: sort_desc_def)

lemma distinct_sort_desc [simp]: "distinct (sort_desc rows xs) = distinct xs"
  by (simp add: sort_desc_def)

subsection \<open>One market\<close>

lemma cap_high_risk_evolves:
  "evolves (set remaining) (pc_rows st) (pc_rows (cap_high_risk market remaining st))"
proof -
  let ?hs = "sort_desc (pc_rows st) (filter (\<lambda>i. sig_high (pc_rows st ! i)) remaining)"
  have "set (drop (allow_high_of market (length remaining)) ?hs) \<subseteq> set remaining"
    using set_drop_subset [of _ ?hs] by auto
  from evolves_mono [OF demote_beyond_evolves this] show ?thesis
    by (simp add: cap_high_risk_def Let_def)
qed

lemma fold_strategy_evolves:
  "\<forall>(k, vs) \<in> set gs. set vs \<subseteq> T \<Longrightarrow>
   evolves T (pc_rows st)
     (pc_rows (fold (\<lambda>(sc, srows) s. demote_beyond cap CapStrategy (reason sc)
                       (sort_desc (pc_rows s) srows) s) gs st))"
proof (induction gs arbitrary: st)
  case Nil
  show ?case by (simp add: evolves_refl)
next
  case (Cons g gs)
  obtain sc srows where g: "g = (sc, srows)" by (cases g)
  let ?st1 = "demote_beyond cap CapStrategy (reason sc) (sort_desc (pc_rows st) srows) st"
  have sub: "set (drop cap (sort_desc (pc_rows st) srows)) \<subseteq> T"
    using set_drop_subset [of cap "sort_desc (pc_rows st) srows"] Cons.prems g by auto
  have e1: "evolves T (pc_rows st) (pc_rows ?st1)"
    by (rule evolves_mono [OF demote_beyond_evolves sub])
  have e2: "evolves T (pc_rows ?st1)
     (pc_rows (fold (\<lambda>(sc, srows) s. demote_beyond cap CapStrategy (reason sc)
                       (sort_desc (pc_rows s) srows) s) gs ?st1))"
    using Cons.prems by (intro Cons.IH) simp
  from evolves_trans [OF e1 e2] show ?case by (simp add: g)
qed

lemma cap_strategy_evolves:
  "evolves (set final_rows) (pc_rows st) (pc_rows (cap_strategy market final_rows st))"
proof -
  have "\<forall>(k, vs) \<in> set (group_by (\<lambda>i. sig_strategy (pc_rows st ! i)) final_rows).
          set vs \<subseteq> set final_rows"
    using group_by_subset by fastforce
  from fold_strategy_evolves [OF this] show ?thesis
    by (simp add: cap_strategy_def Let_def)
qed

lemma constrain_market_props:
  fixes market market_rows st
  defines "au \<equiv> sort_desc (pc_rows st) (filter (\<lambda>i. sig_eligible (pc_rows st ! i)) market_rows)"
  shows "evolves (set au) (pc_rows st) (pc_rows (constrain_market market market_rows st))"
    and "\<forall>i \<in> set (drop (max_unheld_of market) au). i < length (pc_rows st) \<longrightarrow>
           is_demoted (pc_rows (constrain_market market market_rows st) ! i)"
proof -
  let ?n = "max_unheld_of market"
  let ?st1 = "demote_beyond ?n CapUnheld (reason_unheld market ?n) au st"
  let ?rem = "filter (\<lambda>i. sig_active (pc_rows ?st1 ! i)) (take ?n au)"
  let ?st2 = "cap_high_risk market ?rem ?st1"
  let ?fin = "filter (\<lambda>i. sig_active (pc_rows ?st2 ! i)) ?rem"
  let ?st3 = "cap_strategy market ?fin ?st2"
  have cm: "constrain_market market market_rows st =
      (if ?rem = [] then ?st1 else if ?fin = [] then ?st2 else ?st3)"
    by (simp add: constrain_market_def au_def Let_def)
  have remsub: "set ?rem \<subseteq> set au" using set_take_subset [of ?n au] by auto
  have e1: "evolves (set au) (pc_rows st) (pc_rows ?st1)"
    by (rule evolves_mono [OF demote_beyond_evolves set_drop_subset])
  have e2: "evolves (set au) (pc_rows ?st1) (pc_rows ?st2)"
    by (rule evolves_mono [OF cap_high_risk_evolves remsub])
  have e3: "evolves (set au) (pc_rows ?st2) (pc_rows ?st3)"
    by (rule evolves_mono [OF cap_strategy_evolves]) (use remsub in auto)
  have e12: "evolves (set au) (pc_rows st) (pc_rows ?st2)" using evolves_trans [OF e1 e2] by simp
  have e123: "evolves (set au) (pc_rows st) (pc_rows ?st3)" using evolves_trans [OF e12 e3] by simp
  show "evolves (set au) (pc_rows st) (pc_rows (constrain_market market market_rows st))"
    unfolding cm using e1 e12 e123 by simp
  have l1: "length (pc_rows ?st1) = length (pc_rows st)" by (rule evolves_length [OF e1])
  have l2: "length (pc_rows ?st2) = length (pc_rows st)" by (rule evolves_length [OF e12])
  show "\<forall>i \<in> set (drop ?n au). i < length (pc_rows st) \<longrightarrow>
           is_demoted (pc_rows (constrain_market market market_rows st) ! i)"
  proof (intro ballI impI)
    fix i assume i: "i \<in> set (drop ?n au)" and il: "i < length (pc_rows st)"
    have d1: "is_demoted (pc_rows ?st1 ! i)" by (rule demote_beyond_demoted [OF i il])
    have d2: "is_demoted (pc_rows ?st2 ! i)"
      by (rule evolves_keeps_demoted [OF e2 _ d1]) (simp add: l1 il)
    have d3: "is_demoted (pc_rows ?st3 ! i)"
      by (rule evolves_keeps_demoted [OF e3 _ d2]) (simp add: l2 il)
    show "is_demoted (pc_rows (constrain_market market market_rows st) ! i)"
      unfolding cm using d1 d2 d3 by simp
  qed
qed

subsection \<open>All markets\<close>

lemma insort_key_cong_set:
  "f x = g x \<Longrightarrow> \<forall>y \<in> set ys. f y = g y \<Longrightarrow> insort_key f x ys = insort_key g x ys"
  by (induction ys) simp_all

lemma sort_key_cong_set:
  "\<forall>x \<in> set xs. f x = g x \<Longrightarrow> sort_key f xs = sort_key g xs"
proof (induction xs)
  case Nil
  show ?case by simp
next
  case (Cons x xs)
  then have ih: "sort_key f xs = sort_key g xs" by simp
  have "insort_key f x (sort_key g xs) = insort_key g x (sort_key g xs)"
    using Cons.prems by (intro insort_key_cong_set) simp_all
  with ih show ?case by (simp add: sort_key_def)
qed

lemma fold_constrain_evolves:
  "\<forall>(m, ms) \<in> set gs. set ms \<subseteq> U \<Longrightarrow>
   evolves U (pc_rows st)
     (pc_rows (fold (\<lambda>(market, market_rows) st. constrain_market market market_rows st) gs st))"
proof (induction gs arbitrary: st)
  case Nil
  show ?case by (simp add: evolves_refl)
next
  case (Cons g gs)
  obtain m ms where g: "g = (m, ms)" by (cases g)
  let ?st1 = "constrain_market m ms st"
  have "set (sort_desc (pc_rows st) (filter (\<lambda>i. sig_eligible (pc_rows st ! i)) ms)) \<subseteq> U"
    using Cons.prems g by auto
  from evolves_mono [OF constrain_market_props(1) this]
  have e1: "evolves U (pc_rows st) (pc_rows ?st1)" .
  have e2: "evolves U (pc_rows ?st1)
     (pc_rows (fold (\<lambda>(market, market_rows) st. constrain_market market market_rows st) gs ?st1))"
    using Cons.prems by (intro Cons.IH) simp
  from evolves_trans [OF e1 e2] show ?case by (simp add: g)
qed

lemma apply_evolves: "evolves UNIV rows (pc_rows (apply_portfolio_constraints rows))"
  unfolding apply_portfolio_constraints_def
  using fold_constrain_evolves [of _ UNIV
    "\<lparr>pc_rows = rows, pc_demoted = 0, pc_cap_unheld = 0, pc_cap_high_risk = 0, pc_cap_strategy = 0\<rparr>"]
  by simp

lemma pool_mem: "i \<in> set (pool rows m) \<longleftrightarrow> i < length rows \<and> sig_market (rows ! i) = m \<and> sig_eligible (rows ! i)"
  by (auto simp: pool_def)

lemma distinct_pool: "distinct (pool rows m)"
  by (simp add: pool_def)

subsection \<open>Which rows each cap demotes\<close>

lemma group_by_cong:
  "\<forall>x \<in> set xs. f x = g x \<Longrightarrow> group_by f xs = group_by g xs"
  unfolding group_by_def by (rule fold_cong) auto

lemma sort_desc_cong:
  "\<forall>i \<in> set xs. a ! i = b ! i \<Longrightarrow> sort_desc a xs = sort_desc b xs"
  unfolding sort_desc_def by (rule sort_key_cong_set) simp

lemma sort_desc_sorted:
  "sorted (map (\<lambda>i. - sig_rank (rows ! i)) (sort_desc rows xs))"
  by (simp add: sort_desc_def)

lemma sort_desc_split_rank:
  assumes i: "i \<in> set (take n (sort_desc rows xs))" and j: "j \<in> set (drop n (sort_desc rows xs))"
  shows "sig_rank (rows ! j) \<le> sig_rank (rows ! i)"
proof -
  let ?k = "\<lambda>i. - sig_rank (rows ! i)"
  let ?s = "sort_desc rows xs"
  have "sorted (map ?k (take n ?s) @ map ?k (drop n ?s))"
    using sort_desc_sorted [of rows xs] by (simp only: map_append [symmetric] append_take_drop_id)
  then have "\<forall>x \<in> set (map ?k (take n ?s)). \<forall>y \<in> set (map ?k (drop n ?s)). x \<le> y"
    by (simp only: sorted_append) blast
  with i j have "?k i \<le> ?k j" by simp
  then show ?thesis by simp
qed

lemma take_drop_disjoint:
  "distinct xs \<Longrightarrow> set (take n xs) \<inter> set (drop n xs) = {}"
  using distinct_append [of "take n xs" "drop n xs"] by simp

lemma length_filter_not_in:
  assumes "distinct xs" "distinct ys" "set ys \<subseteq> set xs"
  shows "length (filter (\<lambda>i. i \<notin> set ys) xs) = length xs - length ys"
proof -
  have "distinct (filter (\<lambda>i. i \<notin> set ys) xs)" using assms(1) by simp
  then have "length (filter (\<lambda>i. i \<notin> set ys) xs) = card (set (filter (\<lambda>i. i \<notin> set ys) xs))"
    by (rule distinct_card [symmetric])
  also have "set (filter (\<lambda>i. i \<notin> set ys) xs) = set xs - set ys" by auto
  also have "card (set xs - set ys) = card (set xs) - card (set ys)"
    by (rule card_Diff_subset) (simp_all add: assms(3))
  finally show ?thesis using assms(1,2) by (simp add: distinct_card)
qed

lemma cap_high_risk_nil: "cap_high_risk market [] st = st"
  by (simp add: cap_high_risk_def Let_def sort_desc_def demote_beyond_none)

lemma cap_strategy_nil: "cap_strategy market [] st = st"
  by (simp add: cap_strategy_def Let_def group_by_def)

lemma high_risk_excess_subset: "set (high_risk_excess rows m xs) \<subseteq> {i \<in> set xs. sig_high (rows ! i)}"
proof -
  have "set (high_risk_excess rows m xs) \<subseteq> set (sort_desc rows (filter (\<lambda>i. sig_high (rows ! i)) xs))"
    unfolding high_risk_excess_def by (rule set_drop_subset)
  then show ?thesis by auto
qed

lemma high_risk_kept_subset: "set (high_risk_kept rows m xs) \<subseteq> {i \<in> set xs. sig_high (rows ! i)}"
proof -
  have "set (high_risk_kept rows m xs) \<subseteq> set (sort_desc rows (filter (\<lambda>i. sig_high (rows ! i)) xs))"
    unfolding high_risk_kept_def by (rule set_take_subset)
  then show ?thesis by auto
qed

lemma cap_high_risk_exact:
  assumes agree: "\<forall>i \<in> set remaining. pc_rows st ! i = R0 ! i"
      and len: "\<forall>i \<in> set remaining. i < length (pc_rows st)"
  shows "evolves (set (high_risk_excess R0 market remaining)) (pc_rows st)
           (pc_rows (cap_high_risk market remaining st))"
    and "\<forall>i \<in> set (high_risk_excess R0 market remaining).
           is_demoted (pc_rows (cap_high_risk market remaining st) ! i)"
proof -
  let ?hs = "sort_desc R0 (filter (\<lambda>i. sig_high (R0 ! i)) remaining)"
  let ?a = "allow_high_of market (length remaining)"
  have f: "filter (\<lambda>i. sig_high (pc_rows st ! i)) remaining = filter (\<lambda>i. sig_high (R0 ! i)) remaining"
    by (rule filter_cong) (simp_all add: agree)
  have s: "sort_desc (pc_rows st) (filter (\<lambda>i. sig_high (R0 ! i)) remaining) = ?hs"
    by (rule sort_desc_cong) (simp add: agree)
  have c: "cap_high_risk market remaining st =
      demote_beyond ?a CapHighRisk (reason_high_risk market (max_ratio_of market)) ?hs st"
    by (simp add: cap_high_risk_def Let_def f s)
  show "evolves (set (high_risk_excess R0 market remaining)) (pc_rows st)
           (pc_rows (cap_high_risk market remaining st))"
    unfolding c high_risk_excess_def by (rule demote_beyond_evolves)
  show "\<forall>i \<in> set (high_risk_excess R0 market remaining).
           is_demoted (pc_rows (cap_high_risk market remaining st) ! i)"
  proof
    fix i assume i: "i \<in> set (high_risk_excess R0 market remaining)"
    with high_risk_excess_subset [of R0 market remaining] have "i \<in> set remaining" by auto
    with len have il: "i < length (pc_rows st)" by simp
    from i have "i \<in> set (drop ?a ?hs)" by (simp add: high_risk_excess_def)
    from demote_beyond_demoted [OF this il]
    show "is_demoted (pc_rows (cap_high_risk market remaining st) ! i)" unfolding c .
  qed
qed

lemma fold_strategy_exact:
  assumes "distinct (map fst gs)"
      and "\<forall>(k, vs) \<in> set gs. vs = filter (\<lambda>j. f j = k) xs"
      and "\<forall>(k, vs) \<in> set gs. \<forall>j \<in> set vs. pc_rows st ! j = R0 ! j \<and> j < length (pc_rows st)"
  shows "evolves (\<Union>p \<in> set gs. set (drop cap (sort_desc R0 (snd p)))) (pc_rows st)
           (pc_rows (fold (\<lambda>(sc, srows) s. demote_beyond cap CapStrategy (reason sc)
                             (sort_desc (pc_rows s) srows) s) gs st))
         \<and> (\<forall>i \<in> (\<Union>p \<in> set gs. set (drop cap (sort_desc R0 (snd p)))).
              is_demoted (pc_rows (fold (\<lambda>(sc, srows) s. demote_beyond cap CapStrategy (reason sc)
                             (sort_desc (pc_rows s) srows) s) gs st) ! i))"
  using assms
proof (induction gs arbitrary: st)
  case Nil
  show ?case by (simp add: evolves_refl)
next
  case (Cons g gs)
  obtain sc srows where g: "g = (sc, srows)" by (cases g)
  let ?F = "\<lambda>(sc, srows) s. demote_beyond cap CapStrategy (reason sc) (sort_desc (pc_rows s) srows) s"
  let ?d1 = "set (drop cap (sort_desc R0 srows))"
  let ?D = "\<Union>p \<in> set gs. set (drop cap (sort_desc R0 (snd p)))"
  from Cons.prems(3) g have ag: "\<forall>j \<in> set srows. pc_rows st ! j = R0 ! j \<and> j < length (pc_rows st)"
    by simp
  have se: "sort_desc (pc_rows st) srows = sort_desc R0 srows"
    by (rule sort_desc_cong) (simp add: ag)
  let ?st1 = "demote_beyond cap CapStrategy (reason sc) (sort_desc R0 srows) st"
  have step: "fold ?F (g # gs) st = fold ?F gs ?st1" by (simp add: g se)
  have e1: "evolves ?d1 (pc_rows st) (pc_rows ?st1)" by (rule demote_beyond_evolves)
  have l1: "length (pc_rows ?st1) = length (pc_rows st)" by (rule evolves_length [OF e1])
  have d1sub: "?d1 \<subseteq> set srows" using set_drop_subset [of cap "sort_desc R0 srows"] by simp
  have sr: "srows = filter (\<lambda>j. f j = sc) xs" using Cons.prems(2) g by simp
  have p1: "distinct (map fst gs)" using Cons.prems(1) by simp
  have p2: "\<forall>(k, vs) \<in> set gs. vs = filter (\<lambda>j. f j = k) xs" using Cons.prems(2) by simp
  have p3: "\<forall>(k, vs) \<in> set gs. \<forall>j \<in> set vs. pc_rows ?st1 ! j = R0 ! j \<and> j < length (pc_rows ?st1)"
  proof (intro ballI, clarify)
    fix k vs j assume kv: "(k, vs) \<in> set gs" and j: "j \<in> set vs"
    from kv have "k \<in> fst ` set gs" by force
    with Cons.prems(1) g have ne: "k \<noteq> sc" by auto
    from p2 kv have "vs = filter (\<lambda>j. f j = k) xs" by fast
    with j have "f j = k" by simp
    with ne sr have "j \<notin> set srows" by simp
    with d1sub have nd: "j \<notin> ?d1" by blast
    from Cons.prems(3) kv j have a: "pc_rows st ! j = R0 ! j" and b: "j < length (pc_rows st)"
      by fastforce+
    from evolves_outside [OF e1 b nd] a b l1
    show "pc_rows ?st1 ! j = R0 ! j \<and> j < length (pc_rows ?st1)" by simp
  qed
  from Cons.IH [OF p1 p2 p3]
  have e2: "evolves ?D (pc_rows ?st1) (pc_rows (fold ?F gs ?st1))"
    and d2: "\<forall>i \<in> ?D. is_demoted (pc_rows (fold ?F gs ?st1) ! i)" by blast+
  have U: "(\<Union>p \<in> set (g # gs). set (drop cap (sort_desc R0 (snd p)))) = ?d1 \<union> ?D"
    by (simp add: g)
  have e: "evolves (?d1 \<union> ?D) (pc_rows st) (pc_rows (fold ?F gs ?st1))"
    by (rule evolves_trans [OF e1 e2])
  have d: "\<forall>i \<in> ?d1 \<union> ?D. is_demoted (pc_rows (fold ?F gs ?st1) ! i)"
  proof
    fix i assume "i \<in> ?d1 \<union> ?D"
    then show "is_demoted (pc_rows (fold ?F gs ?st1) ! i)"
    proof
      assume i: "i \<in> ?d1"
      with d1sub ag have il: "i < length (pc_rows st)" by blast
      have "is_demoted (pc_rows ?st1 ! i)" by (rule demote_beyond_demoted [OF i il])
      from evolves_keeps_demoted [OF e2 _ this] il l1 show ?thesis by simp
    next
      assume "i \<in> ?D"
      with d2 show ?thesis by blast
    qed
  qed
  from e d show ?case unfolding step U by blast
qed

lemma cap_strategy_exact:
  assumes agree: "\<forall>j \<in> set final. pc_rows st ! j = R0 ! j"
      and len: "\<forall>j \<in> set final. j < length (pc_rows st)"
  shows "evolves {i \<in> set final. over_strategy_cap R0 final i} (pc_rows st)
           (pc_rows (cap_strategy market final st))"
    and "\<forall>i \<in> {i \<in> set final. over_strategy_cap R0 final i}.
           is_demoted (pc_rows (cap_strategy market final st) ! i)"
proof -
  let ?f = "\<lambda>i. sig_strategy (R0 ! i)"
  let ?cap = "cap_per_strategy_of (length final)"
  let ?gs = "group_by ?f final"
  let ?D = "\<Union>p \<in> set ?gs. set (drop ?cap (sort_desc R0 (snd p)))"
  have gb: "group_by (\<lambda>i. sig_strategy (pc_rows st ! i)) final = ?gs"
    by (rule group_by_cong) (simp add: agree)
  have gr: "grouped ?f final ?gs" by (rule grouped_group_by)
  then have a1: "distinct (map fst ?gs)" by (simp add: grouped_def)
  from gr have a2: "\<forall>(k, vs) \<in> set ?gs. vs = filter (\<lambda>j. ?f j = k) final" by (simp add: grouped_def)
  have a3: "\<forall>(k, vs) \<in> set ?gs. \<forall>j \<in> set vs. pc_rows st ! j = R0 ! j \<and> j < length (pc_rows st)"
  proof (intro ballI, clarify)
    fix k vs j assume "(k, vs) \<in> set ?gs" "j \<in> set vs"
    with group_by_subset [of k vs ?f final] have "j \<in> set final" by blast
    with agree len show "pc_rows st ! j = R0 ! j \<and> j < length (pc_rows st)" by simp
  qed
  have D: "?D = {i \<in> set final. over_strategy_cap R0 final i}"
  proof (intro set_eqI iffI)
    fix i assume "i \<in> ?D"
    then obtain k vs where kv: "(k, vs) \<in> set ?gs" and i: "i \<in> set (drop ?cap (sort_desc R0 vs))"
      by force
    from a2 kv have vs: "vs = filter (\<lambda>j. ?f j = k) final" by fast
    from i have "i \<in> set (sort_desc R0 vs)" by (rule in_set_dropD)
    then have iv: "i \<in> set vs" by simp
    with vs have fi: "?f i = k" and ifin: "i \<in> set final" by simp_all
    from i vs fi have "over_strategy_cap R0 final i" by (simp add: over_strategy_cap_def)
    with ifin show "i \<in> {i \<in> set final. over_strategy_cap R0 final i}" by simp
  next
    fix i assume "i \<in> {i \<in> set final. over_strategy_cap R0 final i}"
    then have ifin: "i \<in> set final" and o: "over_strategy_cap R0 final i" by simp_all
    from gr ifin have "?f i \<in> fst ` set ?gs" unfolding grouped_def by blast
    then obtain vs where kv: "(?f i, vs) \<in> set ?gs" by force
    from a2 kv have vs: "vs = filter (\<lambda>j. ?f j = ?f i) final" by fast
    from o have "i \<in> set (drop ?cap (sort_desc R0 vs))" by (simp add: over_strategy_cap_def vs)
    with kv show "i \<in> ?D" by force
  qed
  have c: "cap_strategy market final st =
      fold (\<lambda>(sc, srows) s. demote_beyond ?cap CapStrategy (reason_strategy market sc)
              (sort_desc (pc_rows s) srows) s) ?gs st"
    by (simp add: cap_strategy_def Let_def gb)
  from fold_strategy_exact [OF a1 a2 a3, of ?cap "reason_strategy market"]
  show "evolves {i \<in> set final. over_strategy_cap R0 final i} (pc_rows st)
           (pc_rows (cap_strategy market final st))"
    and "\<forall>i \<in> {i \<in> set final. over_strategy_cap R0 final i}.
           is_demoted (pc_rows (cap_strategy market final st) ! i)"
    unfolding c D by blast+
qed

text \<open>
  One market: the rows demoted are those ranked beyond the first N of the eligible rows,
  the high-risk excess among the first N, and the rows over the strategy cap among what
  is left; every other row is untouched.
\<close>

lemma constrain_market_exact:
  fixes m :: string and ms :: "nat list" and st :: pc_state and R0 :: "signal_run list"
  assumes agree: "\<forall>i \<in> set ms. pc_rows st ! i = R0 ! i"
      and len: "\<forall>i \<in> set ms. i < length (pc_rows st)"
      and dist: "distinct ms"
  defines "au \<equiv> sort_desc R0 (filter (\<lambda>i. sig_eligible (R0 ! i)) ms)"
  defines "tops \<equiv> take (max_unheld_of m) au"
  defines "fin \<equiv> filter (\<lambda>i. i \<notin> set (high_risk_excess R0 m tops)) tops"
  defines "D \<equiv> set (drop (max_unheld_of m) au) \<union> set (high_risk_excess R0 m tops)
                  \<union> {i \<in> set fin. over_strategy_cap R0 fin i}"
  shows "evolves D (pc_rows st) (pc_rows (constrain_market m ms st))"
    and "\<forall>i \<in> D. is_demoted (pc_rows (constrain_market m ms st) ! i)"
proof -
  let ?n = "max_unheld_of m"
  let ?st1 = "demote_beyond ?n CapUnheld (reason_unheld m ?n) au st"
  let ?st2 = "cap_high_risk m tops ?st1"
  let ?st3 = "cap_strategy m fin ?st2"
  let ?hx = "set (high_risk_excess R0 m tops)"
  let ?sx = "{i \<in> set fin. over_strategy_cap R0 fin i}"
  have f0: "filter (\<lambda>i. sig_eligible (pc_rows st ! i)) ms = filter (\<lambda>i. sig_eligible (R0 ! i)) ms"
    by (rule filter_cong) (simp_all add: agree)
  have au0: "sort_desc (pc_rows st) (filter (\<lambda>i. sig_eligible (R0 ! i)) ms) = au"
    unfolding au_def by (rule sort_desc_cong) (simp add: agree)
  have ausub: "set au \<subseteq> {i \<in> set ms. sig_eligible (R0 ! i)}" by (auto simp: au_def)
  have audist: "distinct au" using dist by (simp add: au_def)
  have topsub: "set tops \<subseteq> set au" unfolding tops_def by (rule set_take_subset)
  have finsub: "set fin \<subseteq> set tops" by (auto simp: fin_def)
  have e1: "evolves (set (drop ?n au)) (pc_rows st) (pc_rows ?st1)" by (rule demote_beyond_evolves)
  have l1: "length (pc_rows ?st1) = length (pc_rows st)" by (rule evolves_length [OF e1])
  have top1: "pc_rows ?st1 ! i = R0 ! i \<and> i < length (pc_rows ?st1) \<and> sig_eligible (R0 ! i)"
    if i: "i \<in> set tops" for i
  proof -
    from i topsub ausub have ims: "i \<in> set ms" and el: "sig_eligible (R0 ! i)" by auto
    from take_drop_disjoint [OF audist, of ?n] i have "i \<notin> set (drop ?n au)"
      by (auto simp: tops_def)
    from evolves_outside [OF e1 _ this] ims len agree l1 el show ?thesis by simp
  qed
  have rem: "filter (\<lambda>i. sig_active (pc_rows ?st1 ! i)) tops = tops"
  proof -
    have "\<forall>i \<in> set tops. sig_active (pc_rows ?st1 ! i)"
      using top1 by (simp add: sig_eligible_def)
    then show ?thesis by (simp only: filter_id_conv)
  qed
  have e2: "evolves ?hx (pc_rows ?st1) (pc_rows ?st2)"
    and d2: "\<forall>i \<in> ?hx. is_demoted (pc_rows ?st2 ! i)"
    using cap_high_risk_exact [of tops ?st1 R0 m] top1 by blast+
  have l2: "length (pc_rows ?st2) = length (pc_rows st)" using evolves_length [OF e2] l1 by simp
  have fin2: "pc_rows ?st2 ! i = R0 ! i \<and> i < length (pc_rows ?st2)" if i: "i \<in> set fin" for i
  proof -
    from i have it: "i \<in> set tops" and nh: "i \<notin> ?hx" by (simp_all add: fin_def)
    from evolves_outside [OF e2 _ nh] top1 [OF it] l1 l2 show ?thesis by simp
  qed
  have fineq: "filter (\<lambda>i. sig_active (pc_rows ?st2 ! i)) tops = fin"
    unfolding fin_def
  proof (rule filter_cong [OF refl])
    fix i assume it: "i \<in> set tops"
    show "sig_active (pc_rows ?st2 ! i) = (i \<notin> ?hx)"
    proof (cases "i \<in> ?hx")
      case True
      with d2 have "is_demoted (pc_rows ?st2 ! i)" by blast
      from demoted_inactive [OF this] True show ?thesis by simp
    next
      case False
      from evolves_outside [OF e2 _ False] top1 [OF it] have "pc_rows ?st2 ! i = R0 ! i" by simp
      with top1 [OF it] False show ?thesis by (simp add: sig_eligible_def)
    qed
  qed
  have e3: "evolves ?sx (pc_rows ?st2) (pc_rows ?st3)"
    and d3: "\<forall>i \<in> ?sx. is_demoted (pc_rows ?st3 ! i)"
    using cap_strategy_exact [of fin ?st2 R0 m] fin2 by blast+
  have cm: "constrain_market m ms st = ?st3"
  proof -
    have "constrain_market m ms st =
        (if tops = [] then ?st1 else if fin = [] then ?st2 else ?st3)"
      by (simp add: constrain_market_def Let_def f0 au0 tops_def [symmetric] rem fineq)
    moreover have "?st2 = ?st1" if "tops = []" using that by (simp add: cap_high_risk_nil)
    moreover have "fin = []" if "tops = []" using that by (simp add: fin_def)
    moreover have "?st3 = ?st2" if "fin = []" using that by (simp add: cap_strategy_nil)
    ultimately show ?thesis by presburger
  qed
  have e12: "evolves (set (drop ?n au) \<union> ?hx) (pc_rows st) (pc_rows ?st2)"
    by (rule evolves_trans [OF e1 e2])
  have e123: "evolves D (pc_rows st) (pc_rows ?st3)"
    unfolding D_def by (rule evolves_trans [OF e12 e3])
  show "evolves D (pc_rows st) (pc_rows (constrain_market m ms st))"
    unfolding cm by (rule e123)
  show "\<forall>i \<in> D. is_demoted (pc_rows (constrain_market m ms st) ! i)"
    unfolding cm
  proof
    fix i assume i: "i \<in> D"
    have dsub: "D \<subseteq> set ms"
      using ausub topsub finsub set_drop_subset [of ?n au] high_risk_excess_subset [of R0 m tops]
      unfolding D_def by blast
    with i len have il: "i < length (pc_rows st)" by blast
    from i consider "i \<in> set (drop ?n au)" | "i \<in> ?hx" | "i \<in> ?sx" unfolding D_def by blast
    then show "is_demoted (pc_rows ?st3 ! i)"
    proof cases
      case 1
      have a: "is_demoted (pc_rows ?st1 ! i)" by (rule demote_beyond_demoted [OF 1 il])
      have b: "is_demoted (pc_rows ?st2 ! i)"
        by (rule evolves_keeps_demoted [OF e2 _ a]) (simp add: l1 il)
      show ?thesis by (rule evolves_keeps_demoted [OF e3 _ b]) (simp add: l2 il)
    next
      case 2
      with d2 have b: "is_demoted (pc_rows ?st2 ! i)" by blast
      show ?thesis by (rule evolves_keeps_demoted [OF e3 _ b]) (simp add: l2 il)
    next
      case 3
      with d3 show ?thesis by blast
    qed
  qed
qed

text \<open>
  All markets: a member of the eligible pool of a market is demoted when it is ranked
  beyond the first N, in the high-risk excess or over the strategy cap, and is left as it
  was otherwise.
\<close>

lemma apply_exact:
  assumes ip: "i \<in> set (pool rows m)"
  shows "(i \<in> set (kept rows m) \<longrightarrow> pc_rows (apply_portfolio_constraints rows) ! i = rows ! i)
       \<and> (i \<notin> set (kept rows m) \<longrightarrow> is_demoted (pc_rows (apply_portfolio_constraints rows) ! i))"
proof -
  let ?key = "\<lambda>i. sig_market (rows ! i)"
  let ?n = "length rows"
  let ?G = "group_by ?key [0..<?n]"
  let ?step = "\<lambda>(market, market_rows) st. constrain_market market market_rows st"
  let ?st0 = "\<lparr>pc_rows = rows, pc_demoted = 0, pc_cap_unheld = 0, pc_cap_high_risk = 0, pc_cap_strategy = 0\<rparr>"
  let ?U = "{j. ?key j \<noteq> m}"
  from ip have il: "i < ?n" and ik: "?key i = m" by (simp_all add: pool_mem)
  have gr: "grouped ?key [0..<?n] ?G" by (rule grouped_group_by)
  from gr il ik have "m \<in> fst ` set ?G" unfolding grouped_def by force
  then obtain ms where mem: "(m, ms) \<in> set ?G" by force
  from gr mem have ms: "ms = filter (\<lambda>j. ?key j = m) [0..<?n]" unfolding grouped_def by fast
  from mem obtain pre post where G: "?G = pre @ (m, ms) # post" by (meson split_list)
  from gr have dist: "distinct (map fst ?G)" by (simp add: grouped_def)
  have others: "set vs \<subseteq> ?U" if kv: "(k, vs) \<in> set pre \<union> set post" for k vs
  proof
    fix j assume j: "j \<in> set vs"
    from kv G have "(k, vs) \<in> set ?G" by auto
    with gr have "vs = filter (\<lambda>j. ?key j = k) [0..<?n]" unfolding grouped_def by fast
    with j have jk: "?key j = k" by simp
    from dist G have "m \<notin> fst ` set pre" "m \<notin> fst ` set post" by auto
    with kv have "k \<noteq> m" by force
    with jk show "j \<in> ?U" by simp
  qed
  let ?sta = "fold ?step pre ?st0"
  let ?stb = "constrain_market m ms ?sta"
  let ?stc = "fold ?step post ?stb"
  have fin: "apply_portfolio_constraints rows = ?stc"
    by (simp add: apply_portfolio_constraints_def G)
  have "evolves ?U (pc_rows ?st0) (pc_rows ?sta)"
    by (rule fold_constrain_evolves) (use others in auto)
  then have ea: "evolves ?U rows (pc_rows ?sta)" by simp
  have la: "length (pc_rows ?sta) = ?n" by (rule evolves_length [OF ea])
  have ag: "\<forall>j \<in> set ms. pc_rows ?sta ! j = rows ! j"
  proof
    fix j assume "j \<in> set ms"
    then show "pc_rows ?sta ! j = rows ! j" using evolves_outside [OF ea, of j] by (simp add: ms)
  qed
  have ln: "\<forall>j \<in> set ms. j < length (pc_rows ?sta)" by (simp add: ms la)
  have dm: "distinct ms" by (simp add: ms)
  have pl: "filter (\<lambda>i. sig_eligible (rows ! i)) ms = pool rows m" by (simp add: ms pool_def)
  let ?au = "sort_desc rows (pool rows m)"
  let ?D = "set (drop (max_unheld_of m) ?au) \<union> set (high_risk_excess rows m (top_ranked rows m))
              \<union> {i \<in> set (within_high_risk rows m). over_strategy_cap rows (within_high_risk rows m) i}"
  from constrain_market_exact [OF ag ln dm, of m]
  have eb: "evolves ?D (pc_rows ?sta) (pc_rows ?stb)"
    and db: "\<forall>i \<in> ?D. is_demoted (pc_rows ?stb ! i)"
    by (simp_all only: pl top_ranked_def [symmetric] within_high_risk_def [symmetric])
  have lb: "length (pc_rows ?stb) = ?n" using evolves_length [OF eb] la by simp
  have ec: "evolves ?U (pc_rows ?stb) (pc_rows ?stc)"
    by (rule fold_constrain_evolves) (use others in auto)
  have last: "pc_rows ?stc ! i = pc_rows ?stb ! i"
    using evolves_outside [OF ec, of i] il ik lb by simp
  have iau: "i \<in> set (take (max_unheld_of m) ?au) \<union> set (drop (max_unheld_of m) ?au)"
    using ip by (simp only: set_append [symmetric] append_take_drop_id) simp
  have dau: "distinct ?au" by (simp add: distinct_pool)
  have k: "i \<in> set (kept rows m) \<longleftrightarrow> i \<notin> ?D"
  proof
    assume "i \<in> set (kept rows m)"
    then have w: "i \<in> set (within_high_risk rows m)"
      and no: "\<not> over_strategy_cap rows (within_high_risk rows m) i" by (simp_all add: kept_def)
    from w have t: "i \<in> set (top_ranked rows m)"
      and nh: "i \<notin> set (high_risk_excess rows m (top_ranked rows m))"
      by (simp_all add: within_high_risk_def)
    from t take_drop_disjoint [OF dau, of "max_unheld_of m"] have "i \<notin> set (drop (max_unheld_of m) ?au)"
      by (auto simp: top_ranked_def)
    with nh no show "i \<notin> ?D" by simp
  next
    assume nd: "i \<notin> ?D"
    with iau have t: "i \<in> set (top_ranked rows m)" by (simp add: top_ranked_def)
    with nd have w: "i \<in> set (within_high_risk rows m)" by (simp add: within_high_risk_def)
    with nd show "i \<in> set (kept rows m)" by (simp add: kept_def)
  qed
  show ?thesis
  proof (intro conjI impI)
    assume "i \<in> set (kept rows m)"
    with k have "i \<notin> ?D" by simp
    from evolves_outside [OF eb _ this] il la ag ip
    have "pc_rows ?stb ! i = rows ! i" by (simp add: ms pool_mem)
    with last show "pc_rows (apply_portfolio_constraints rows) ! i = rows ! i" by (simp add: fin)
  next
    assume "i \<notin> set (kept rows m)"
    with k have "i \<in> ?D" by simp
    with db have "is_demoted (pc_rows ?stb ! i)" by blast
    with last show "is_demoted (pc_rows (apply_portfolio_constraints rows) ! i)" by (simp add: fin)
  qed
qed

lemma kept_subset: "set (kept rows m) \<subseteq> set (top_ranked rows m)"
  by (auto simp: kept_def within_high_risk_def)

lemma top_ranked_subset: "set (top_ranked rows m) \<subseteq> set (pool rows m)"
  using set_take_subset [of "max_unheld_of m" "sort_desc rows (pool rows m)"]
  by (simp add: top_ranked_def)

lemma distinct_top_ranked: "distinct (top_ranked rows m)"
  by (simp add: top_ranked_def distinct_pool)

lemma length_kept:
  "length (kept rows m) = length (top_ranked rows m)
     - length (high_risk_excess rows m (top_ranked rows m)) - length (strategy_excess rows m)"
proof -
  let ?t = "top_ranked rows m"
  let ?hx = "high_risk_excess rows m ?t"
  let ?w = "within_high_risk rows m"
  have dh: "distinct ?hx"
    by (simp add: high_risk_excess_def distinct_top_ranked)
  have sh: "set ?hx \<subseteq> set ?t" using high_risk_excess_subset [of rows m ?t] by blast
  have w: "length ?w = length ?t - length ?hx"
    unfolding within_high_risk_def by (rule length_filter_not_in [OF distinct_top_ranked dh sh])
  have "length (kept rows m) + length (strategy_excess rows m) = length ?w"
    unfolding kept_def strategy_excess_def
    using sum_length_filter_compl [of "over_strategy_cap rows ?w" ?w] by simp
  with w show ?thesis by simp
qed

lemma apply_active_kept:
  "active_count (pc_rows (apply_portfolio_constraints rows)) (pool rows m) = length (kept rows m)"
proof -
  let ?rows' = "pc_rows (apply_portfolio_constraints rows)"
  have eq: "filter (\<lambda>i. sig_active (?rows' ! i)) (pool rows m)
      = filter (\<lambda>i. i \<in> set (kept rows m)) (pool rows m)"
  proof (rule filter_cong [OF refl])
    fix i assume ip: "i \<in> set (pool rows m)"
    show "sig_active (?rows' ! i) = (i \<in> set (kept rows m))"
    proof (cases "i \<in> set (kept rows m)")
      case True
      with apply_exact [OF ip] have "?rows' ! i = rows ! i" by simp
      with ip True show ?thesis by (simp add: pool_mem sig_eligible_def)
    next
      case False
      with apply_exact [OF ip] have "is_demoted (?rows' ! i)" by simp
      from demoted_inactive [OF this] False show ?thesis by simp
    qed
  qed
  have dk: "distinct (kept rows m)" by (simp add: kept_def within_high_risk_def distinct_top_ranked)
  have sub: "set (kept rows m) \<subseteq> set (pool rows m)"
    using kept_subset [of rows m] top_ranked_subset [of rows m] by blast
  have "length (filter (\<lambda>i. i \<in> set (kept rows m)) (pool rows m))
      = card ({i. i \<in> set (kept rows m)} \<inter> set (pool rows m))"
    by (rule distinct_length_filter [OF distinct_pool])
  also have "{i. i \<in> set (kept rows m)} \<inter> set (pool rows m) = set (kept rows m)" using sub by blast
  also have "card (set (kept rows m)) = length (kept rows m)" by (rule distinct_card [OF dk])
  finally show ?thesis by (simp add: active_count_def eq)
qed

subsection \<open>The claims on the portfolio constraints\<close>

lemma max_unheld_values:
  "max_unheld_of ''CN'' = 30" "max_unheld_of ''HK'' = 20" "max_unheld_of ''US'' = 20"
  by (simp_all add: max_unheld_of_def MAX_UNHELD_ACTIVE_BY_MARKET_def)

text \<open>
  Claim C2, as the code has it. Take a market whose eligible pool (active, not held,
  action buy or add) has more than N members (N = 30 for CN, 20 for HK and US). The first
  N of the pool by rank score are the only ones that can stay active. Of these, the
  high-risk cap demotes the high-risk rows ranked beyond the allowance
  \<open>max(1, round(N * ratio))\<close> among the high-risk rows, and the single-strategy cap
  demotes, among the F rows then left, those ranked beyond \<open>max(1, round(F * 0.42))\<close>
  within their strategy. After the portfolio constraints a member of the pool is active
  exactly when it is one of the rows so kept, and a kept row is as it was before; every
  other member is demoted (constrained, status \<open>inactive\<close>, action \<open>watch\<close>). So the
  number of active members is N less the rows demoted by the two later caps: exactly N
  when neither cap demotes a row, and fewer otherwise.
\<close>

theorem portfolio_cap:
  "max_unheld_of m < length (pool rows m) \<Longrightarrow>
   length (top_ranked rows m) = max_unheld_of m \<and>
   set (top_ranked rows m) \<subseteq> set (pool rows m) \<and>
   (\<forall>i \<in> set (top_ranked rows m). \<forall>j \<in> set (pool rows m).
      j \<notin> set (top_ranked rows m) \<longrightarrow> sig_rank (rows ! j) \<le> sig_rank (rows ! i)) \<and>
   (\<forall>i \<in> set (pool rows m).
      i \<in> set (kept rows m) \<longleftrightarrow>
        i \<in> set (top_ranked rows m)
        \<and> i \<notin> set (high_risk_excess rows m (top_ranked rows m))
        \<and> i \<notin> set (strategy_excess rows m)) \<and>
   (\<forall>i \<in> set (pool rows m).
      sig_active (pc_rows (apply_portfolio_constraints rows) ! i) \<longleftrightarrow> i \<in> set (kept rows m)) \<and>
   (\<forall>i \<in> set (kept rows m). pc_rows (apply_portfolio_constraints rows) ! i = rows ! i) \<and>
   (\<forall>i \<in> set (pool rows m).
      i \<notin> set (kept rows m) \<longrightarrow> is_demoted (pc_rows (apply_portfolio_constraints rows) ! i)) \<and>
   length (high_risk_excess rows m (top_ranked rows m))
     = high_count rows (top_ranked rows m) - allow_high_of m (max_unheld_of m) \<and>
   active_count (pc_rows (apply_portfolio_constraints rows)) (pool rows m)
     = max_unheld_of m - length (high_risk_excess rows m (top_ranked rows m))
         - length (strategy_excess rows m) \<and>
   (high_risk_excess rows m (top_ranked rows m) = [] \<and> strategy_excess rows m = [] \<longrightarrow>
      active_count (pc_rows (apply_portfolio_constraints rows)) (pool rows m) = max_unheld_of m) \<and>
   max_unheld_of ''CN'' = 30 \<and> max_unheld_of ''HK'' = 20 \<and> max_unheld_of ''US'' = 20"
proof -
  assume big: "max_unheld_of m < length (pool rows m)"
  let ?rows' = "pc_rows (apply_portfolio_constraints rows)"
  let ?n = "max_unheld_of m"
  let ?s = "sort_desc rows (pool rows m)"
  let ?t = "top_ranked rows m"
  let ?hx = "high_risk_excess rows m ?t"
  have lt: "length ?t = ?n" using big by (simp add: top_ranked_def)
  have ts: "set ?t \<subseteq> set (pool rows m)" by (rule top_ranked_subset)
  have rk: "\<forall>i \<in> set ?t. \<forall>j \<in> set (pool rows m). j \<notin> set ?t \<longrightarrow> sig_rank (rows ! j) \<le> sig_rank (rows ! i)"
  proof (intro ballI impI)
    fix i j assume i: "i \<in> set ?t" and j: "j \<in> set (pool rows m)" and nj: "j \<notin> set ?t"
    from j have "j \<in> set (take ?n ?s @ drop ?n ?s)" by simp
    then have "j \<in> set (take ?n ?s) \<or> j \<in> set (drop ?n ?s)" by (simp only: set_append Un_iff)
    with nj have jd: "j \<in> set (drop ?n ?s)" by (simp add: top_ranked_def)
    from i have "i \<in> set (take ?n ?s)" by (simp add: top_ranked_def)
    from sort_desc_split_rank [OF this jd] show "sig_rank (rows ! j) \<le> sig_rank (rows ! i)" .
  qed
  have kp: "\<forall>i \<in> set (pool rows m). i \<in> set (kept rows m) \<longleftrightarrow>
      i \<in> set ?t \<and> i \<notin> set ?hx \<and> i \<notin> set (strategy_excess rows m)"
    by (auto simp: kept_def strategy_excess_def within_high_risk_def)
  have ac: "\<forall>i \<in> set (pool rows m). sig_active (?rows' ! i) \<longleftrightarrow> i \<in> set (kept rows m)"
  proof
    fix i assume ip: "i \<in> set (pool rows m)"
    show "sig_active (?rows' ! i) \<longleftrightarrow> i \<in> set (kept rows m)"
    proof (cases "i \<in> set (kept rows m)")
      case True
      with apply_exact [OF ip] have "?rows' ! i = rows ! i" by simp
      with ip True show ?thesis by (simp add: pool_mem sig_eligible_def)
    next
      case False
      with apply_exact [OF ip] have "is_demoted (?rows' ! i)" by simp
      from demoted_inactive [OF this] False show ?thesis by simp
    qed
  qed
  have un: "\<forall>i \<in> set (kept rows m). ?rows' ! i = rows ! i"
  proof
    fix i assume k: "i \<in> set (kept rows m)"
    with kept_subset [of rows m] ts have "i \<in> set (pool rows m)" by blast
    from apply_exact [OF this] k show "?rows' ! i = rows ! i" by simp
  qed
  have dm: "\<forall>i \<in> set (pool rows m). i \<notin> set (kept rows m) \<longrightarrow> is_demoted (?rows' ! i)"
    using apply_exact by blast
  have lh: "length ?hx = high_count rows ?t - allow_high_of m ?n"
    by (simp add: high_risk_excess_def high_count_def lt)
  have cnt: "active_count ?rows' (pool rows m) = ?n - length ?hx - length (strategy_excess rows m)"
    using apply_active_kept [of rows m] length_kept [of rows m] lt by simp
  have ex: "?hx = [] \<and> strategy_excess rows m = [] \<longrightarrow> active_count ?rows' (pool rows m) = ?n"
    using cnt by simp
  from lt ts rk kp ac un dm lh cnt ex max_unheld_values show ?thesis by blast
qed

lemma ex21_pool: "pool ex_rows21 ''HK'' = [0, 1, 2, 3, 4, 5, 6, 7, 8, 9, 10, 11, 12, 13, 14, 15, 16, 17, 18, 19, 20]"
  by code_simp

lemma ex21_count: "active_count (pc_rows (apply_portfolio_constraints ex_rows21)) (pool ex_rows21 ''HK'') = 19"
  by code_simp

text \<open>
  With 21 eligible HK signals, nine of them of one strategy, the cap of 20 demotes the
  lowest-ranked signal and the single-strategy cap (8 of 20) demotes one more: 19 remain
  active, not 20.
\<close>

theorem portfolio_cap_counterexample:
  "max_unheld_of ''HK'' = 20 \<and> length (pool ex_rows21 ''HK'') = 21 \<and>
   active_count (pc_rows (apply_portfolio_constraints ex_rows21)) (pool ex_rows21 ''HK'') = 19"
proof -
  have "length (pool ex_rows21 ''HK'') = 21" by (simp add: ex21_pool)
  then show ?thesis by (simp add: max_unheld_values ex21_count)
qed

lemma ex21_parts:
  "top_ranked ex_rows21 ''HK'' = [0, 1, 2, 3, 4, 5, 6, 7, 8, 9, 10, 11, 12, 13, 14, 15, 16, 17, 18, 19]"
  "high_risk_excess ex_rows21 ''HK'' (top_ranked ex_rows21 ''HK'') = []"
  "strategy_excess ex_rows21 ''HK'' = [8]"
  "kept ex_rows21 ''HK'' = [0, 1, 2, 3, 4, 5, 6, 7, 9, 10, 11, 12, 13, 14, 15, 16, 17, 18, 19]"
  by code_simp+

lemma ex21_spread_parts:
  "length (pool ex_rows21_spread ''HK'') = 21"
  "high_risk_excess ex_rows21_spread ''HK'' (top_ranked ex_rows21_spread ''HK'') = []"
  "strategy_excess ex_rows21_spread ''HK'' = []"
  by code_simp+

text \<open>
  In the 21 signals with nine of one strategy the rows kept are the first twenty less
  row 8, the ninth of its strategy: 19 are active. With the strategies spread seven each
  no later cap demotes a row and exactly 20 are active.
\<close>

theorem portfolio_cap_witness:
  "max_unheld_of ''HK'' < length (pool ex_rows21 ''HK'') \<and>
   kept ex_rows21 ''HK'' = [0, 1, 2, 3, 4, 5, 6, 7, 9, 10, 11, 12, 13, 14, 15, 16, 17, 18, 19] \<and>
   strategy_excess ex_rows21 ''HK'' = [8] \<and>
   active_count (pc_rows (apply_portfolio_constraints ex_rows21)) (pool ex_rows21 ''HK'') = 19 \<and>
   sig_active (pc_rows (apply_portfolio_constraints ex_rows21) ! 7) \<and>
   pc_rows (apply_portfolio_constraints ex_rows21) ! 7 = ex_rows21 ! 7 \<and>
   is_demoted (pc_rows (apply_portfolio_constraints ex_rows21) ! 8) \<and>
   is_demoted (pc_rows (apply_portfolio_constraints ex_rows21) ! 20) \<and>
   max_unheld_of ''HK'' < length (pool ex_rows21_spread ''HK'') \<and>
   active_count (pc_rows (apply_portfolio_constraints ex_rows21_spread)) (pool ex_rows21_spread ''HK'')
     = 20"
proof -
  have a: "max_unheld_of ''HK'' < length (pool ex_rows21 ''HK'')"
    by (simp add: max_unheld_values ex21_pool)
  have b: "max_unheld_of ''HK'' < length (pool ex_rows21_spread ''HK'')"
    by (simp add: max_unheld_values ex21_spread_parts)
  note t = portfolio_cap [OF a]
  note u = portfolio_cap [OF b]
  have p: "7 \<in> set (pool ex_rows21 ''HK'')" "8 \<in> set (pool ex_rows21 ''HK'')"
    "20 \<in> set (pool ex_rows21 ''HK'')" by (simp_all add: ex21_pool)
  have k: "7 \<in> set (kept ex_rows21 ''HK'')" "8 \<notin> set (kept ex_rows21 ''HK'')"
    "20 \<notin> set (kept ex_rows21 ''HK'')" by (simp_all add: ex21_parts)
  from t have "active_count (pc_rows (apply_portfolio_constraints ex_rows21)) (pool ex_rows21 ''HK'')
      = max_unheld_of ''HK'' - length (high_risk_excess ex_rows21 ''HK'' (top_ranked ex_rows21 ''HK''))
          - length (strategy_excess ex_rows21 ''HK'')" by blast
  then have c: "active_count (pc_rows (apply_portfolio_constraints ex_rows21)) (pool ex_rows21 ''HK'') = 19"
    by (simp add: ex21_parts(2,3) max_unheld_values)
  from t p(1) k(1) have d: "sig_active (pc_rows (apply_portfolio_constraints ex_rows21) ! 7)" by blast
  from t k(1) have e: "pc_rows (apply_portfolio_constraints ex_rows21) ! 7 = ex_rows21 ! 7" by blast
  from t p(2) k(2) have f: "is_demoted (pc_rows (apply_portfolio_constraints ex_rows21) ! 8)" by blast
  from t p(3) k(3) have g: "is_demoted (pc_rows (apply_portfolio_constraints ex_rows21) ! 20)" by blast
  from u ex21_spread_parts(2,3)
  have "active_count (pc_rows (apply_portfolio_constraints ex_rows21_spread))
      (pool ex_rows21_spread ''HK'') = max_unheld_of ''HK''" by blast
  then have h: "active_count (pc_rows (apply_portfolio_constraints ex_rows21_spread))
      (pool ex_rows21_spread ''HK'') = 20" by (simp add: max_unheld_values)
  from a b c d e f g h ex21_parts(3,4) show ?thesis by blast
qed

lemma allow_high_ge1: "1 \<le> allow_high_of market n"
  by (simp add: allow_high_of_def)

lemma cap_high_risk_within:
  "high_count (pc_rows st) remaining \<le> allow_high_of market (length remaining) \<Longrightarrow>
   cap_high_risk market remaining st = st"
  by (simp add: cap_high_risk_def Let_def high_count_def demote_beyond_none)

lemma sort_desc_hd_best:
  assumes "j \<in> set xs"
  shows "sig_rank (rows ! j) \<le> sig_rank (rows ! hd (sort_desc rows xs))"
proof -
  let ?s = "sort_desc rows xs"
  from assms have ne: "?s \<noteq> []" by (metis empty_iff empty_set set_sort_desc)
  then obtain x ys where s: "?s = x # ys" by (cases ?s) auto
  from sort_desc_sorted [of rows xs] have "\<forall>y \<in> set ys. - sig_rank (rows ! x) \<le> - sig_rank (rows ! y)"
    by (simp add: s)
  moreover from assms have "j \<in> set ?s" by simp
  ultimately show ?thesis by (auto simp: s)
qed

text \<open>
  Claim C10. Among the survivors \<open>remaining\<close> of the top-N cap the high-risk allowance is
  \<open>max(1, round(survivors * ratio))\<close>, at least 1 in every market. The high-risk
  constraint leaves the best-ranked high-risk survivors, as many as the allowance (all of
  them when there are fewer), exactly as they were, demotes the high-risk survivors
  ranked beyond the allowance, and touches no other row. So whenever a high-risk signal
  survives the top-N cap, a best-ranked one among them is not demoted by this constraint,
  and when there is at most one the constraint changes nothing. With one survivor, or
  two high-risk survivors of which one is demoted, the realized high-risk share is 1,
  above the ratio of the market (0.35 for CN, 0.32 for HK, 0.30 for US).
\<close>

theorem high_risk_allowance:
  "distinct remaining \<Longrightarrow> \<forall>i \<in> set remaining. i < length (pc_rows st) \<Longrightarrow>
   1 \<le> allow_high_of market (length remaining) \<and>
   allow_high_of market (length remaining)
     = nat (max 1 (py_round (of_nat (length remaining) * max_ratio_of market))) \<and>
   set (high_risk_kept (pc_rows st) market remaining)
       \<union> set (high_risk_excess (pc_rows st) market remaining)
     = {i \<in> set remaining. sig_high (pc_rows st ! i)} \<and>
   set (high_risk_kept (pc_rows st) market remaining)
       \<inter> set (high_risk_excess (pc_rows st) market remaining) = {} \<and>
   length (high_risk_kept (pc_rows st) market remaining)
     = min (allow_high_of market (length remaining)) (high_count (pc_rows st) remaining) \<and>
   (\<forall>i \<in> set (high_risk_kept (pc_rows st) market remaining).
      \<forall>j \<in> set (high_risk_excess (pc_rows st) market remaining).
        sig_rank (pc_rows st ! j) \<le> sig_rank (pc_rows st ! i)) \<and>
   (\<forall>i \<in> set (high_risk_kept (pc_rows st) market remaining).
      pc_rows (cap_high_risk market remaining st) ! i = pc_rows st ! i) \<and>
   (\<forall>i \<in> set (high_risk_excess (pc_rows st) market remaining).
      is_demoted (pc_rows (cap_high_risk market remaining st) ! i)) \<and>
   (\<forall>i < length (pc_rows st). i \<notin> set (high_risk_excess (pc_rows st) market remaining) \<longrightarrow>
      pc_rows (cap_high_risk market remaining st) ! i = pc_rows st ! i) \<and>
   ((\<exists>i \<in> set remaining. sig_high (pc_rows st ! i)) \<longrightarrow>
      (\<exists>i \<in> set remaining. sig_high (pc_rows st ! i)
         \<and> (\<forall>j \<in> set remaining. sig_high (pc_rows st ! j) \<longrightarrow>
               sig_rank (pc_rows st ! j) \<le> sig_rank (pc_rows st ! i))
         \<and> pc_rows (cap_high_risk market remaining st) ! i = pc_rows st ! i)) \<and>
   (high_count (pc_rows st) remaining \<le> 1 \<longrightarrow> cap_high_risk market remaining st = st) \<and>
   max_ratio_of ''CN'' = 35 / 100 \<and> max_ratio_of ''HK'' = 32 / 100 \<and> max_ratio_of ''US'' = 30 / 100 \<and>
   map sig_active (pc_rows (apply_portfolio_constraints ex_rows1)) = [True] \<and>
   max_ratio_of ''CN'' < high_risk_share (pc_rows (apply_portfolio_constraints ex_rows1)) (pool ex_rows1 ''CN'') \<and>
   map sig_active (pc_rows (apply_portfolio_constraints ex_rows2)) = [True, False] \<and>
   max_ratio_of ''CN'' < high_risk_share (pc_rows (apply_portfolio_constraints ex_rows2)) (pool ex_rows2 ''CN'')"
proof -
  assume dist: "distinct remaining" and len: "\<forall>i \<in> set remaining. i < length (pc_rows st)"
  let ?R = "pc_rows st"
  let ?R' = "pc_rows (cap_high_risk market remaining st)"
  let ?a = "allow_high_of market (length remaining)"
  let ?hs = "sort_desc ?R (filter (\<lambda>i. sig_high (?R ! i)) remaining)"
  let ?k = "high_risk_kept ?R market remaining"
  let ?x = "high_risk_excess ?R market remaining"
  have kd: "?k = take ?a ?hs" "?x = drop ?a ?hs"
    by (simp_all add: high_risk_kept_def high_risk_excess_def)
  have dh: "distinct ?hs" using dist by simp
  have c1: "1 \<le> ?a" by (rule allow_high_ge1)
  have c2: "?a = nat (max 1 (py_round (of_nat (length remaining) * max_ratio_of market)))"
    by (simp add: allow_high_of_def)
  have "set ?k \<union> set ?x = set (take ?a ?hs @ drop ?a ?hs)" unfolding kd by (simp only: set_append)
  then have c3: "set ?k \<union> set ?x = {i \<in> set remaining. sig_high (?R ! i)}" by auto
  have c4: "set ?k \<inter> set ?x = {}" unfolding kd by (rule take_drop_disjoint [OF dh])
  have c5: "length ?k = min ?a (high_count ?R remaining)"
    by (simp add: kd high_count_def min.commute)
  have c6: "\<forall>i \<in> set ?k. \<forall>j \<in> set ?x. sig_rank (?R ! j) \<le> sig_rank (?R ! i)"
    unfolding kd using sort_desc_split_rank by blast
  have ev: "evolves (set ?x) ?R ?R'" and dm: "\<forall>i \<in> set ?x. is_demoted (?R' ! i)"
    using cap_high_risk_exact [of remaining st ?R market] len by simp_all
  have c9: "\<forall>i < length ?R. i \<notin> set ?x \<longrightarrow> ?R' ! i = ?R ! i"
    using evolves_outside [OF ev] by blast
  have c7: "\<forall>i \<in> set ?k. ?R' ! i = ?R ! i"
  proof
    fix i assume i: "i \<in> set ?k"
    with c4 have nx: "i \<notin> set ?x" by blast
    from i c3 have "i \<in> set remaining" by blast
    with len have "i < length ?R" by simp
    with c9 nx show "?R' ! i = ?R ! i" by simp
  qed
  have c10: "\<exists>i \<in> set remaining. sig_high (?R ! i)
         \<and> (\<forall>j \<in> set remaining. sig_high (?R ! j) \<longrightarrow> sig_rank (?R ! j) \<le> sig_rank (?R ! i))
         \<and> ?R' ! i = ?R ! i"
    if ex: "\<exists>i \<in> set remaining. sig_high (?R ! i)"
  proof -
    from ex obtain i0 where "i0 \<in> set remaining" "sig_high (?R ! i0)" by blast
    then have i0: "i0 \<in> set ?hs" by simp
    have ne: "?hs \<noteq> []"
    proof
      assume "?hs = []"
      with i0 show False by simp
    qed
    with c1 have hk: "hd ?hs \<in> set ?k" unfolding kd by (cases ?hs) (auto simp: take_Cons')
    with c3 have hr: "hd ?hs \<in> set remaining" and hh: "sig_high (?R ! hd ?hs)" by auto
    have best: "\<forall>j \<in> set remaining. sig_high (?R ! j) \<longrightarrow> sig_rank (?R ! j) \<le> sig_rank (?R ! hd ?hs)"
    proof (intro ballI impI)
      fix j assume "j \<in> set remaining" "sig_high (?R ! j)"
      then have "j \<in> set (filter (\<lambda>i. sig_high (?R ! i)) remaining)" by simp
      then show "sig_rank (?R ! j) \<le> sig_rank (?R ! hd ?hs)" by (rule sort_desc_hd_best)
    qed
    from c7 hk have "?R' ! hd ?hs = ?R ! hd ?hs" by blast
    with hr hh best show ?thesis by blast
  qed
  have c11: "cap_high_risk market remaining st = st" if "high_count ?R remaining \<le> 1"
    by (rule cap_high_risk_within) (use that c1 in linarith)
  have r: "max_ratio_of ''CN'' = 35 / 100" "max_ratio_of ''HK'' = 32 / 100" "max_ratio_of ''US'' = 30 / 100"
    by (simp_all add: max_ratio_of_def MAX_HIGH_RISK_RATIO_BY_MARKET_def)
  have e1: "map sig_active (pc_rows (apply_portfolio_constraints ex_rows1)) = [True]" by code_simp
  have e2: "max_ratio_of ''CN'' < high_risk_share (pc_rows (apply_portfolio_constraints ex_rows1)) (pool ex_rows1 ''CN'')"
    by code_simp
  have e3: "map sig_active (pc_rows (apply_portfolio_constraints ex_rows2)) = [True, False]" by code_simp
  have e4: "max_ratio_of ''CN'' < high_risk_share (pc_rows (apply_portfolio_constraints ex_rows2)) (pool ex_rows2 ''CN'')"
    by code_simp
  from c1 c2 c3 c4 c5 c6 c7 dm c9 c10 c11 r e1 e2 e3 e4 show ?thesis by blast
qed

lemma ex2_parts:
  "allow_high_of ''CN'' 2 = 1"
  "high_risk_kept ex_rows2 ''CN'' [0, 1] = [0]"
  "high_risk_excess ex_rows2 ''CN'' [0, 1] = [1]"
  "sig_active (ex_rows2 ! 0)" "sig_high (ex_rows2 ! 0)" "sig_high (ex_rows2 ! 1)"
  by code_simp+

text \<open>
  Two high-risk CN survivors ranked 80 and 70: the allowance is 1, the row ranked 80 is
  left as it was, active, and the row ranked 70 is demoted.
\<close>

theorem high_risk_allowance_witness:
  "distinct [0, 1 :: nat] \<and>
   allow_high_of ''CN'' (length [0, 1 :: nat]) = 1 \<and>
   pc_rows (cap_high_risk ''CN'' [0, 1] (init_state ex_rows2)) ! 0 = ex_rows2 ! 0 \<and>
   sig_active (pc_rows (cap_high_risk ''CN'' [0, 1] (init_state ex_rows2)) ! 0) \<and>
   sig_high (pc_rows (cap_high_risk ''CN'' [0, 1] (init_state ex_rows2)) ! 0) \<and>
   is_demoted (pc_rows (cap_high_risk ''CN'' [0, 1] (init_state ex_rows2)) ! 1)"
proof -
  have r: "pc_rows (init_state ex_rows2) = ex_rows2" by (simp add: init_state_def)
  have d: "distinct [0, 1 :: nat]" by simp
  have l: "\<forall>i \<in> set [0, 1]. i < length (pc_rows (init_state ex_rows2))"
    by (simp add: init_state_def ex_rows2_def)
  note t = high_risk_allowance [OF d l, of "''CN''", unfolded r]
  have k0: "0 \<in> set (high_risk_kept ex_rows2 ''CN'' [0, 1])" by (simp only: ex2_parts) simp
  have x1: "1 \<in> set (high_risk_excess ex_rows2 ''CN'' [0, 1])" by (simp only: ex2_parts) simp
  from t k0 have a: "pc_rows (cap_high_risk ''CN'' [0, 1] (init_state ex_rows2)) ! 0 = ex_rows2 ! 0"
    by blast
  from t x1 have b: "is_demoted (pc_rows (cap_high_risk ''CN'' [0, 1] (init_state ex_rows2)) ! 1)"
    by blast
  have al: "allow_high_of ''CN'' (length [0, 1 :: nat]) = 1" by code_simp
  have c: "sig_active (pc_rows (cap_high_risk ''CN'' [0, 1] (init_state ex_rows2)) ! 0)"
    unfolding a by (rule ex2_parts(4))
  have e: "sig_high (pc_rows (cap_high_risk ''CN'' [0, 1] (init_state ex_rows2)) ! 0)"
    unfolding a by (rule ex2_parts(5))
  from d al a c e b show ?thesis by blast
qed

section \<open>Outcome evaluators: what a recorded row holds\<close>

lemma okey_build [simp]: "okey (build_outcome s h td b op) = (src_id s, h)"
  by (simp add: okey_def build_outcome_def Let_def)

lemma eval_horizon_inv:
  assumes inv: "ev_inv today sources E0 st" and s: "s \<in> set sources"
    and snap: "src_snapshot_day s = Some snap"
  shows "ev_inv today sources E0 (eval_horizon today s snap klines h st)"
proof (cases "(src_id s, h) \<in> set (ev_existing st) \<or> today < snap + h
              \<or> pick_close_on_or_before klines (snap + h) = None")
  case True
  then have "ev_existing (eval_horizon today s snap klines h st) = ev_existing st"
       "ev_added (eval_horizon today s snap klines h st) = ev_added st"
    by (auto simp: eval_horizon_def Let_def split: option.splits)
  then show ?thesis using inv by (simp add: ev_inv_def)
next
  case False
  then obtain op where op: "pick_close_on_or_before klines (snap + h) = Some op"
    and fresh: "(src_id s, h) \<notin> set (ev_existing st)" and due: "snap + h \<le> today"
    by auto
  let ?r = "build_outcome s h (snap + h) (resolve_base_price s klines snap) op"
  have ex: "ev_existing (eval_horizon today s snap klines h st) = ev_existing st @ [(src_id s, h)]"
    and ad: "ev_added (eval_horizon today s snap klines h st) = ev_added st @ [?r]"
    using op fresh due by (simp_all add: eval_horizon_def Let_def)
  have b: "built today sources ?r"
    unfolding built_def using s snap due op by blast
  have notE0: "okey ?r \<notin> E0" using inv fresh by (auto simp: ev_inv_def)
  have notin: "okey ?r \<notin> okey ` set (ev_added st)" using inv fresh by (auto simp: ev_inv_def)
  show ?thesis
    unfolding ev_inv_def ex ad using inv b notE0 notin
    by (auto simp: ev_inv_def)
qed

lemma fold_eval_horizon_inv:
  assumes "ev_inv today sources E0 st" "s \<in> set sources" "src_snapshot_day s = Some snap"
  shows "ev_inv today sources E0 (fold (eval_horizon today s snap klines) hs st)"
  using assms by (induction hs arbitrary: st) (simp_all add: eval_horizon_inv)

lemma ev_inv_cache: "ev_inv today sources E0 (st\<lparr>ev_cache := c\<rparr>) = ev_inv today sources E0 st"
  by (simp add: ev_inv_def)

lemma eval_source_step_inv:
  assumes "ev_inv today sources E0 st" "s \<in> set sources"
  shows "ev_inv today sources E0 (eval_source_step g today hs s st)"
proof (cases "src_snapshot_day s")
  case None
  then show ?thesis using assms by (simp add: eval_source_step_def)
next
  case (Some snap)
  show ?thesis
    unfolding eval_source_step_def Some option.case Let_def
    by (rule fold_eval_horizon_inv) (simp_all add: ev_inv_cache assms Some)
qed

lemma fold_eval_source_step_inv:
  assumes "ev_inv today sources E0 st" "set xs \<subseteq> set sources"
  shows "ev_inv today sources E0 (fold (eval_source_step g today hs) xs st)"
  using assms by (induction xs arbitrary: st) (simp_all add: eval_source_step_inv)

lemma evaluate_outcomes_inv:
  "ev_inv today sources (set (existing_keys sources table)) (evaluate_outcomes g today hs sources table)"
proof (cases "sources = []")
  case True
  then show ?thesis by (simp add: evaluate_outcomes_def ev_inv_def existing_keys_def)
next
  case False
  show ?thesis
    unfolding evaluate_outcomes_def Let_def using False
    by (simp, intro fold_eval_source_step_inv) (simp_all add: ev_inv_def)
qed

lemma built_source_id: "built today sources r \<Longrightarrow> o_source_id r \<in> src_id ` set sources"
  by (auto simp: built_def build_outcome_def Let_def)

lemma added_fresh:
  assumes "r \<in> set (ev_added (evaluate_outcomes g today hs sources table))"
  shows "okey r \<notin> okey ` set table"
proof
  assume "okey r \<in> okey ` set table"
  then obtain t where t: "t \<in> set table" "okey t = okey r" by auto
  from evaluate_outcomes_inv [of today sources table g hs] assms
  have a: "okey r \<notin> set (existing_keys sources table)" and b: "built today sources r"
    by (auto simp: ev_inv_def)
  from built_source_id [OF b] t have "o_source_id t \<in> set (map src_id sources)"
    by (simp add: okey_def)
  with t(1) have "okey t \<in> set (existing_keys sources table)"
    unfolding existing_keys_def okey_def by (auto intro!: image_eqI [where x = t])
  with t(2) have "okey r \<in> set (existing_keys sources table)" by simp
  with a show False by simp
qed

lemma added_distinct: "distinct (map okey (ev_added (evaluate_outcomes g today hs sources table)))"
  using evaluate_outcomes_inv [of today sources table g hs] by (simp add: ev_inv_def)



lemma ex_pick: "pick_close_on_or_before [\<lparr>k_date = Some 3, k_close = Some 112\<rparr>] 3 = Some 112"
  by (simp add: pick_close_on_or_before_def List.map_filter_def)


lemma ex_zero_base: "resolve_base_price ex_zero_source [\<lparr>k_date = Some 3, k_close = Some 112\<rparr>] 0 = Some 0"
  by (simp add: resolve_base_price_def ex_zero_source_def)


lemma ex_zero_build: "build_outcome ex_zero_source 3 3 (Some 0) 112 = ex_zero_row"
  by (simp add: build_outcome_def ex_zero_source_def ex_zero_row_def no_base_def reached_target_def reached_stop_def)

lemma ex_horizons: "safe_horizons [3] = [3]"
  by (simp add: safe_horizons_def)

lemma eval_horizon_add:
  "(src_id s, h) \<notin> set (ev_existing st) \<Longrightarrow> snap + h \<le> today \<Longrightarrow>
   pick_close_on_or_before klines (snap + h) = Some op \<Longrightarrow>
   ev_added (eval_horizon today s snap klines h st)
     = ev_added st @ [build_outcome s h (snap + h) (resolve_base_price s klines snap) op]"
  by (simp add: eval_horizon_def Let_def)

















lemma eval_horizon_skip:
  "(src_id s, h) \<in> set (ev_existing st) \<Longrightarrow> eval_horizon today s snap klines h st = st"
  by (simp add: eval_horizon_def)

lemma ex_second_run:
  "ev_added (evaluate_outcomes ex_get_klines 10 [3] [ex_source, ex_zero_source] [ex_row]) = [ex_zero_row]"
proof -
  let ?ks = "[\<lparr>k_date = Some 3, k_close = Some 112\<rparr>]"
  have ids: "src_id ex_source = 1" "src_id ex_zero_source = 2"
    "src_snapshot_day ex_source = Some 0" "src_snapshot_day ex_zero_source = Some 0"
    by (simp_all add: ex_source_def ex_zero_source_def)
  have k0: "existing_keys [ex_source, ex_zero_source] [ex_row] = [(1, 3)]"
    by (simp add: existing_keys_def ids ex_row_def)
  have s1: "eval_horizon 10 ex_source 0 ?ks 3
          \<lparr>ev_existing = [(1, 3)], ev_added = [], ev_cache = c, ev_stats = t\<rparr>
        = \<lparr>ev_existing = [(1, 3)], ev_added = [], ev_cache = c, ev_stats = t\<rparr>" for c t
    by (rule eval_horizon_skip) (simp add: ids)
  have s2: "ev_added (eval_horizon 10 ex_zero_source 0 ?ks 3
          \<lparr>ev_existing = [(1, 3)], ev_added = [], ev_cache = c, ev_stats = t\<rparr>) = [ex_zero_row]" for c t
    by (subst eval_horizon_add [where op = 112]) (simp_all add: ex_pick ex_zero_base ex_zero_build ids)
  show ?thesis
    by (simp add: evaluate_outcomes_def ex_horizons eval_source_step_def k0 ids s1 s2
          ex_get_klines_def Let_def)
qed

text \<open>
  Claim C5. Whatever the outcome table holds before a run (in particular the rows of an
  earlier run), either evaluator adds no row for a (source id, horizon) pair that the
  table already has, adds no pair twice, and leaves the rows of such a pair as they are:
  the table after the run has, for each pair it had before, exactly the rows it had.
\<close>

theorem outcome_insert_once:
  "st = evaluate_strategy_outcomes g today hs sources table
     \<or> st = evaluate_entry_candidate_outcomes g today hs sources table \<Longrightarrow>
   (\<forall>r \<in> set (ev_added st). okey r \<notin> okey ` set table) \<and>
   distinct (map okey (ev_added st)) \<and>
   (\<forall>k \<in> okey ` set table.
      filter (\<lambda>r. okey r = k) (table_after table st) = filter (\<lambda>r. okey r = k) table) \<and>
   (distinct (map okey table) \<longrightarrow> distinct (map okey (table_after table st)))"
proof -
  assume "st = evaluate_strategy_outcomes g today hs sources table
     \<or> st = evaluate_entry_candidate_outcomes g today hs sources table"
  then have st: "st = evaluate_outcomes g today hs sources table"
    by (auto simp: evaluate_strategy_outcomes_def evaluate_entry_candidate_outcomes_def)
  have fresh: "\<forall>r \<in> set (ev_added st). okey r \<notin> okey ` set table"
    unfolding st using added_fresh by blast
  have dist: "distinct (map okey (ev_added st))"
    unfolding st by (rule added_distinct)
  have keep: "\<forall>k \<in> okey ` set table.
      filter (\<lambda>r. okey r = k) (table_after table st) = filter (\<lambda>r. okey r = k) table"
  proof
    fix k assume k: "k \<in> okey ` set table"
    have "filter (\<lambda>r. okey r = k) (ev_added st) = []"
      using fresh k by (auto simp: filter_empty_conv)
    then show "filter (\<lambda>r. okey r = k) (table_after table st) = filter (\<lambda>r. okey r = k) table"
      by (simp add: table_after_def)
  qed
  have "distinct (map okey table) \<longrightarrow> distinct (map okey (table_after table st))"
    using fresh dist by (auto simp: table_after_def)
  with fresh dist keep show ?thesis by blast
qed

theorem outcome_insert_once_witness:
  "ev_added (evaluate_strategy_outcomes ex_get_klines 10 [3] [ex_source, ex_zero_source] [ex_row])
     = [ex_zero_row]
   \<and> okey ex_zero_row \<notin> okey ` set [ex_row]
   \<and> okey ex_row \<in> okey ` set [ex_row]
   \<and> filter (\<lambda>r. okey r = okey ex_row)
        (table_after [ex_row]
           (evaluate_strategy_outcomes ex_get_klines 10 [3] [ex_source, ex_zero_source] [ex_row]))
      = filter (\<lambda>r. okey r = okey ex_row) [ex_row]
   \<and> distinct (map okey [ex_row])
   \<and> distinct (map okey (table_after [ex_row]
           (evaluate_strategy_outcomes ex_get_klines 10 [3] [ex_source, ex_zero_source] [ex_row])))"
proof -
  have a: "ev_added (evaluate_strategy_outcomes ex_get_klines 10 [3] [ex_source, ex_zero_source] [ex_row])
     = [ex_zero_row]"
    by (simp add: evaluate_strategy_outcomes_def ex_second_run)
  have b: "okey ex_row \<in> okey ` set [ex_row]" "distinct (map okey [ex_row])" by simp_all
  from outcome_insert_once [OF disjI1 [OF refl], of ex_get_klines 10 "[3]" "[ex_source, ex_zero_source]" "[ex_row]"]
    a b
  show ?thesis by auto
qed

section \<open>Weight rebalancer: bounds and the sample threshold\<close>

lemma new_weight_of_bounds: "45 / 100 \<le> new_weight_of old tg a \<and> new_weight_of old tg a \<le> 190 / 100"
proof -
  define y where "y = clamp (old * (1 - a) + tg * a) (45 / 100) (190 / 100)"
  have y: "45 / 100 \<le> y" "y \<le> 190 / 100"
    using clamp_bounds [of "45 / 100" "190 / 100" "old * (1 - a) + tg * a"] by (simp_all add: y_def)
  have "of_int 4500 \<le> y * 10 ^ 4" using y by simp
  then have a: "4500 \<le> py_round (y * 10 ^ 4)" by (rule py_round_ge)
  have "y * 10 ^ 4 \<le> of_int 19000" using y by simp
  then have b: "py_round (y * 10 ^ 4) \<le> 19000" by (rule py_round_le)
  have "real_of_int 4500 \<le> of_int (py_round (y * 10 ^ 4))" using a by (simp only: of_int_le_iff)
  moreover have "real_of_int (py_round (y * 10 ^ 4)) \<le> of_int 19000" using b by (simp only: of_int_le_iff)
  ultimately show ?thesis unfolding new_weight_of_def round_nd_def y_def[symmetric] by simp
qed

lemma rebalance_target_weights_cases:
  "weights (rebalance_target wd ms a reg (cd, m, met) st) = weights st \<or>
   (\<exists>r. weights (rebalance_target wd ms a reg (cd, m, met) st) = (weights st)((cd, m, reg) \<mapsto> r)
      \<and> 45 / 100 \<le> weight r \<and> weight r \<le> 190 / 100 \<and> ms \<le> sample_size met)"
  using new_weight_of_bounds
  by (auto simp: rebalance_target_def Let_def split: option.splits)

lemma in_bounds_refl: "in_bounds db db" by (simp add: in_bounds_def)

lemma rebalance_target_in_bounds:
  assumes h: "in_bounds db (weights st)"
  shows "in_bounds db (weights (rebalance_target wd ms a reg t st))"
proof -
  obtain cd m met where t: "t = (cd, m, met)" by (cases t) auto
  consider (same) "weights (rebalance_target wd ms a reg t st) = weights st"
    | (upd) r where "weights (rebalance_target wd ms a reg t st) = (weights st)((cd, m, reg) \<mapsto> r)"
        "45 / 100 \<le> weight r" "weight r \<le> 190 / 100"
    using rebalance_target_weights_cases [of wd ms a reg cd m met st] unfolding t by blast
  then show ?thesis
  proof cases
    case same
    then show ?thesis using h by simp
  next
    case upd
    show ?thesis unfolding in_bounds_def
    proof (intro allI impI)
      fix k
      assume ne: "weights (rebalance_target wd ms a reg t st) k \<noteq> db k"
      show "\<exists>r. weights (rebalance_target wd ms a reg t st) k = Some r \<and> 45 / 100 \<le> weight r \<and> weight r \<le> 190 / 100"
      proof (cases "k = (cd, m, reg)")
        case True
        then show ?thesis using upd by simp
      next
        case False
        then have "weights (rebalance_target wd ms a reg t st) k = weights st k" using upd(1) by simp
        then have eq: "weights (rebalance_target wd ms a reg t st) k = weights st k" .
        from h have "weights st k \<noteq> db k \<Longrightarrow>
            \<exists>r. weights st k = Some r \<and> 45 / 100 \<le> weight r \<and> weight r \<le> 190 / 100"
          unfolding in_bounds_def by blast
        then show ?thesis using ne unfolding eq by blast
      qed
    qed
  qed
qed

lemma fold_rebalance_in_bounds:
  "in_bounds db (weights st) \<Longrightarrow> in_bounds db (weights (fold (rebalance_target wd ms a reg) ts st))"
  by (induction ts arbitrary: st) (simp_all add: rebalance_target_in_bounds)

lemma fold_rebalance_low_sample:
  "\<forall>(c, m, met) \<in> set ts. c = cd \<and> m = market \<longrightarrow> sample_size met < ms \<Longrightarrow>
   weights (fold (rebalance_target wd ms a reg) ts st) (cd, market, reg) = weights st (cd, market, reg)"
proof (induction ts arbitrary: st)
  case Nil
  then show ?case by simp
next
  case (Cons t ts)
  obtain c m met where t: "t = (c, m, met)" by (cases t) auto
  have low: "c = cd \<and> m = market \<longrightarrow> sample_size met < ms" using Cons.prems unfolding t by simp
  consider (same) "weights (rebalance_target wd ms a reg t st) = weights st"
    | (upd) r where "weights (rebalance_target wd ms a reg t st) = (weights st)((c, m, reg) \<mapsto> r)"
        "ms \<le> sample_size met"
    using rebalance_target_weights_cases [of wd ms a reg c m met st] unfolding t by blast
  then have step: "weights (rebalance_target wd ms a reg t st) (cd, market, reg) = weights st (cd, market, reg)"
  proof cases
    case same
    then show ?thesis by simp
  next
    case upd
    with low have ne: "(cd, market, reg) \<noteq> (c, m, reg)" by auto
    show ?thesis unfolding upd(1) by (rule fun_upd_other [OF ne])
  qed
  have "weights (fold (rebalance_target wd ms a reg) ts (rebalance_target wd ms a reg t st)) (cd, market, reg)
        = weights (rebalance_target wd ms a reg t st) (cd, market, reg)"
    using Cons.prems by (intro Cons.IH) simp
  with step show ?case by simp
qed

lemma build_targets_sample_size:
  assumes "(c, m, met) \<in> set (build_targets catalogs bp ba)"
  shows "sample_size met = (if m = ''ALL'' then (case ba c of None \<Rightarrow> 0 | Some x \<Rightarrow> sample_size x)
                      else (case bp (c, m) of None \<Rightarrow> 0 | Some x \<Rightarrow> sample_size x))"
proof -
  from assms obtain e where e: "e \<in> set catalogs" and
    mem: "(c, m, met) = (code e, ''ALL'',
            \<lparr>sample_size = sample_size (case ba (code e) of None \<Rightarrow> no_all_metrics | Some x \<Rightarrow> x),
             wins = wins (case ba (code e) of None \<Rightarrow> no_all_metrics | Some x \<Rightarrow> x),
             avg_return_pct = avg_return_pct (case ba (code e) of None \<Rightarrow> no_all_metrics | Some x \<Rightarrow> x),
             tm_default_weight = default_weight e\<rparr>)
         \<or> (\<exists>mk \<in> {''CN'', ''HK'', ''US''}. (c, m, met) = (code e, mk,
            \<lparr>sample_size = sample_size (case bp (code e, mk) of None \<Rightarrow> no_pair_metrics | Some x \<Rightarrow> x),
             wins = wins (case bp (code e, mk) of None \<Rightarrow> no_pair_metrics | Some x \<Rightarrow> x),
             avg_return_pct = avg_return_pct (case bp (code e, mk) of None \<Rightarrow> no_pair_metrics | Some x \<Rightarrow> x),
             tm_default_weight = default_weight e\<rparr>))"
    unfolding build_targets_def Let_def by auto
  from mem show ?thesis
  proof
    assume a: "(c, m, met) = (code e, ''ALL'',
            \<lparr>sample_size = sample_size (case ba (code e) of None \<Rightarrow> no_all_metrics | Some x \<Rightarrow> x),
             wins = wins (case ba (code e) of None \<Rightarrow> no_all_metrics | Some x \<Rightarrow> x),
             avg_return_pct = avg_return_pct (case ba (code e) of None \<Rightarrow> no_all_metrics | Some x \<Rightarrow> x),
             tm_default_weight = default_weight e\<rparr>)"
    then have "c = code e" "m = ''ALL''"
      "sample_size met = sample_size (case ba (code e) of None \<Rightarrow> no_all_metrics | Some x \<Rightarrow> x)"
      by simp_all
    then show ?thesis by (simp add: no_all_metrics_def split: option.splits)
  next
    assume "\<exists>mk \<in> {''CN'', ''HK'', ''US''}. (c, m, met) = (code e, mk,
            \<lparr>sample_size = sample_size (case bp (code e, mk) of None \<Rightarrow> no_pair_metrics | Some x \<Rightarrow> x),
             wins = wins (case bp (code e, mk) of None \<Rightarrow> no_pair_metrics | Some x \<Rightarrow> x),
             avg_return_pct = avg_return_pct (case bp (code e, mk) of None \<Rightarrow> no_pair_metrics | Some x \<Rightarrow> x),
             tm_default_weight = default_weight e\<rparr>)"
    then obtain mk where mk: "mk \<in> {''CN'', ''HK'', ''US''}" and "c = code e" "m = mk"
      "sample_size met = sample_size (case bp (code e, mk) of None \<Rightarrow> no_pair_metrics | Some x \<Rightarrow> x)"
      by auto
    moreover from mk have "mk \<noteq> ''ALL''" by auto
    ultimately show ?thesis by (simp add: no_pair_metrics_def split: option.splits)
  qed
qed

text \<open>
  Claim C4, as the code has it. Every weight the rebalancer writes lies in [0.45, 1.90]:
  a stored weight that differs from the one before the run is within the bounds. A
  (strategy code, market) pair whose sample size is below the effective threshold
  \<open>max(3, min(min_samples, 200))\<close> keeps its stored weight.
\<close>

theorem rebalance_weight_bounds:
  "(\<forall>k. weights (rebalance_strategy_weights wd ms alpha regime catalogs agg db) k \<noteq> db k \<longrightarrow>
      (\<exists>r. weights (rebalance_strategy_weights wd ms alpha regime catalogs agg db) k = Some r
           \<and> 45 / 100 \<le> weight r \<and> weight r \<le> 190 / 100))
   \<and> (\<forall>cd market. target_sample_size agg cd market < eff_min_samples ms \<longrightarrow>
        weights (rebalance_strategy_weights wd ms alpha regime catalogs agg db) (cd, market, eff_regime regime)
        = db (cd, market, eff_regime regime))"
proof (intro conjI allI impI)
  fix k
  assume "weights (rebalance_strategy_weights wd ms alpha regime catalogs agg db) k \<noteq> db k"
  moreover have "in_bounds db (weights (rebalance_strategy_weights wd ms alpha regime catalogs agg db))"
    unfolding rebalance_strategy_weights_def Let_def
    by (rule fold_rebalance_in_bounds) (simp add: in_bounds_refl)
  ultimately show "\<exists>r. weights (rebalance_strategy_weights wd ms alpha regime catalogs agg db) k = Some r
           \<and> 45 / 100 \<le> weight r \<and> weight r \<le> 190 / 100"
    unfolding in_bounds_def by blast
next
  fix cd market
  assume low: "target_sample_size agg cd market < eff_min_samples ms"
  let ?ag = "aggregate_recent_outcomes agg"
  have "\<forall>(c, m, met) \<in> set (build_targets catalogs (fst ?ag) (snd ?ag)).
          c = cd \<and> m = market \<longrightarrow> sample_size met < eff_min_samples ms"
  proof (clarify)
    fix met
    assume "(cd, market, met) \<in> set (build_targets catalogs (fst ?ag) (snd ?ag))"
    from build_targets_sample_size [OF this] low
    show "sample_size met < eff_min_samples ms"
      by (simp add: target_sample_size_def Let_def split: if_splits)
  qed
  from fold_rebalance_low_sample [OF this]
  show "weights (rebalance_strategy_weights wd ms alpha regime catalogs agg db) (cd, market, eff_regime regime)
        = db (cd, market, eff_regime regime)"
    unfolding rebalance_strategy_weights_def Let_def by simp
qed

lemma ex_agg_eval:
  "fst (aggregate_recent_outcomes ex_agg) (''trend_follow'', ''CN'') = Some \<lparr>sample_size = 300, wins = 300, avg_return_pct = 8\<rparr>"
  "fst (aggregate_recent_outcomes ex_agg) (''trend_follow'', ''HK'') = Some \<lparr>sample_size = 2, wins = 2, avg_return_pct = 8\<rparr>"
  "fst (aggregate_recent_outcomes ex_agg) (''trend_follow'', ''US'') = None"
  "snd (aggregate_recent_outcomes ex_agg) ''trend_follow'' = Some \<lparr>sample_size = 302, wins = 302, avg_return_pct = 8, ret_sum = 2416\<rparr>"
  by (simp_all add: aggregate_recent_outcomes_def ex_agg_def aggregate_row_def Let_def str_or_def int_or_def num_or_def
       py_strip_def py_upper_def is_space_def upper_char_def no_all_metrics_def finish_all_def)

lemma ex_new_weight: "new_weight_of 1 (target_weight 1 (win_rate_of 300 300) 8) (eff_alpha (35 / 100)) = 128 / 100"
  by (simp add: new_weight_of_def target_weight_def win_rate_of_def eff_alpha_def clamp_def round_nd_def py_round_def Let_def)

lemma rebalance_target_other:
  "k \<noteq> (cd, m, reg) \<Longrightarrow> weights (rebalance_target wd ms a reg (cd, m, met) st) k = weights st k"
  by (simp add: rebalance_target_def Let_def split: option.splits)

lemma rebalance_target_skip:
  "sample_size met < ms \<Longrightarrow> weights (rebalance_target wd ms a reg (cd, m, met) st) = weights st"
  by (simp add: rebalance_target_def Let_def)

lemma rebalance_target_write:
  "\<not> sample_size met < ms \<Longrightarrow> weights st (cd, m, reg) = Some r \<Longrightarrow>
   nw = new_weight_of (weight r) (target_weight (tm_default_weight met)
          (win_rate_of (wins met) (sample_size met)) (avg_return_pct met)) a \<Longrightarrow>
   \<not> \<bar>nw - weight r\<bar> < 1 / 100 \<Longrightarrow>
   \<exists>r'. weights (rebalance_target wd ms a reg (cd, m, met) st) (cd, m, reg) = Some r' \<and> weight r' = nw"
  by (simp add: rebalance_target_def Let_def)

lemma ex_targets:
  "build_targets ex_catalog (fst (aggregate_recent_outcomes ex_agg)) (snd (aggregate_recent_outcomes ex_agg)) =
    [(''trend_follow'', ''ALL'', \<lparr>sample_size = 302, wins = 302, avg_return_pct = 8, tm_default_weight = 1\<rparr>),
     (''trend_follow'', ''CN'', \<lparr>sample_size = 300, wins = 300, avg_return_pct = 8, tm_default_weight = 1\<rparr>),
     (''trend_follow'', ''HK'', \<lparr>sample_size = 2, wins = 2, avg_return_pct = 8, tm_default_weight = 1\<rparr>),
     (''trend_follow'', ''US'', \<lparr>sample_size = 0, wins = 0, avg_return_pct = 0, tm_default_weight = 1\<rparr>)]"
  by (simp add: build_targets_def ex_agg_eval ex_catalog_def no_pair_metrics_def)

lemma ex_sample_sizes:
  "target_sample_size ex_agg ''trend_follow'' ''CN'' = 300"
  "target_sample_size ex_agg ''trend_follow'' ''HK'' = 2"
  by (simp_all add: target_sample_size_def ex_agg_eval)

lemma ex_run_cn:
  assumes "ms \<le> 300"
  shows "\<exists>r'. weights (fold (rebalance_target wd ms (eff_alpha (35 / 100)) ''default'')
     (build_targets ex_catalog (fst (aggregate_recent_outcomes ex_agg)) (snd (aggregate_recent_outcomes ex_agg)))
     \<lparr>weights = ex_db, history = [], changed = 0, checked = 0, skipped_low_sample = 0, rows_changed = []\<rparr>)
     (''trend_follow'', ''CN'', ''default'') = Some r' \<and> weight r' = 128 / 100"
proof -
  let ?st0 = "\<lparr>weights = ex_db, history = [], changed = 0, checked = 0, skipped_low_sample = 0, rows_changed = []\<rparr>"
  let ?f = "rebalance_target wd ms (eff_alpha (35 / 100)) ''default''"
  let ?tall = "(''trend_follow'', ''ALL'', \<lparr>sample_size = 302, wins = 302, avg_return_pct = 8, tm_default_weight = 1\<rparr>)"
  let ?tcn = "(''trend_follow'', ''CN'', \<lparr>sample_size = 300, wins = 300, avg_return_pct = 8, tm_default_weight = 1\<rparr>)"
  let ?thk = "(''trend_follow'', ''HK'', \<lparr>sample_size = 2, wins = 2, avg_return_pct = 8, tm_default_weight = 1\<rparr>)"
  let ?tus = "(''trend_follow'', ''US'', \<lparr>sample_size = 0, wins = 0, avg_return_pct = 0, tm_default_weight = 1\<rparr>)"
  let ?k = "(''trend_follow'', ''CN'', ''default'')"
  have s1: "weights (?f ?tall ?st0) ?k = Some \<lparr>weight = 1, w_reason = None, w_window_days = None, w_sample_size = None\<rparr>"
    by (subst rebalance_target_other) (simp_all add: ex_db_def)
  have "\<exists>r'. weights (?f ?tcn (?f ?tall ?st0)) ?k = Some r' \<and> weight r' = 128 / 100"
  proof (rule rebalance_target_write [OF _ s1])
    show "\<not> sample_size \<lparr>sample_size = 300, wins = 300, avg_return_pct = 8, tm_default_weight = 1\<rparr> < ms"
      using assms by simp
    show "128 / 100 = new_weight_of (weight \<lparr>weight = 1, w_reason = None, w_window_days = None, w_sample_size = None\<rparr>)
        (target_weight (tm_default_weight \<lparr>sample_size = 300, wins = 300, avg_return_pct = 8, tm_default_weight = 1\<rparr>)
          (win_rate_of (wins \<lparr>sample_size = 300, wins = 300, avg_return_pct = 8, tm_default_weight = 1\<rparr>)
             (sample_size \<lparr>sample_size = 300, wins = 300, avg_return_pct = 8, tm_default_weight = 1\<rparr>))
          (avg_return_pct \<lparr>sample_size = 300, wins = 300, avg_return_pct = 8, tm_default_weight = 1\<rparr>))
        (eff_alpha (35 / 100))"
      using ex_new_weight by simp
    show "\<not> \<bar>128 / 100 - weight \<lparr>weight = 1, w_reason = None, w_window_days = None, w_sample_size = None\<rparr>\<bar> < 1 / 100"
      by simp
  qed
  then obtain r' where s2: "weights (?f ?tcn (?f ?tall ?st0)) ?k = Some r'" "weight r' = 128 / 100"
    by blast
  have s3: "weights (?f ?thk (?f ?tcn (?f ?tall ?st0))) ?k = weights (?f ?tcn (?f ?tall ?st0)) ?k"
    by (rule rebalance_target_other) simp
  have s4: "weights (?f ?tus (?f ?thk (?f ?tcn (?f ?tall ?st0)))) ?k = weights (?f ?thk (?f ?tcn (?f ?tall ?st0))) ?k"
    by (rule rebalance_target_other) simp
  show ?thesis unfolding ex_targets using s2 s3 s4 by simp
qed

lemma ex_db_cn: "ex_db (''trend_follow'', ''CN'', ''default'') =
   Some \<lparr>weight = 1, w_reason = None, w_window_days = None, w_sample_size = None\<rparr>"
  by (simp add: ex_db_def)

lemma ex_effs: "eff_min_samples 500 = 200" "eff_min_samples 8 = 8" "eff_regime ''default'' = ''default''"
  by (simp_all add: eff_min_samples_def eff_regime_def py_strip_def is_space_def)

text \<open>
  With \<open>min_samples = 500\<close> the threshold in force is 200: a pair with 300 samples is
  below the requested \<open>min_samples\<close> and its weight is rewritten all the same
  (from 1.0 to 1.28).
\<close>

theorem rebalance_min_samples_counterexample:
  "target_sample_size ex_agg ''trend_follow'' ''CN'' < 500 \<and>
   weights (rebalance_strategy_weights 45 500 (35 / 100) ''default'' ex_catalog ex_agg ex_db)
     (''trend_follow'', ''CN'', ''default'')
   \<noteq> ex_db (''trend_follow'', ''CN'', ''default'')"
proof -
  obtain r' where "weights (rebalance_strategy_weights 45 500 (35 / 100) ''default'' ex_catalog ex_agg ex_db)
        (''trend_follow'', ''CN'', ''default'') = Some r'" "weight r' = 128 / 100"
    using ex_run_cn [of 200 "eff_window_days 45"]
    unfolding rebalance_strategy_weights_def Let_def ex_effs by auto
  then show ?thesis by (auto simp: ex_sample_sizes ex_db_cn)
qed

theorem rebalance_weight_bounds_witness:
  "(weights (rebalance_strategy_weights 45 8 (35 / 100) ''default'' ex_catalog ex_agg ex_db)
        (''trend_follow'', ''CN'', ''default'') \<noteq> ex_db (''trend_follow'', ''CN'', ''default'')
    \<and> (\<exists>r. weights (rebalance_strategy_weights 45 8 (35 / 100) ''default'' ex_catalog ex_agg ex_db)
        (''trend_follow'', ''CN'', ''default'') = Some r \<and> 45 / 100 \<le> weight r \<and> weight r \<le> 190 / 100))
   \<and> (target_sample_size ex_agg ''trend_follow'' ''HK'' < eff_min_samples 8
    \<and> weights (rebalance_strategy_weights 45 8 (35 / 100) ''default'' ex_catalog ex_agg ex_db)
        (''trend_follow'', ''HK'', eff_regime ''default'') = ex_db (''trend_follow'', ''HK'', eff_regime ''default''))"
proof -
  obtain r' where "weights (rebalance_strategy_weights 45 8 (35 / 100) ''default'' ex_catalog ex_agg ex_db)
        (''trend_follow'', ''CN'', ''default'') = Some r'" "weight r' = 128 / 100"
    using ex_run_cn [of 8 "eff_window_days 45"]
    unfolding rebalance_strategy_weights_def Let_def ex_effs by auto
  then have a: "weights (rebalance_strategy_weights 45 8 (35 / 100) ''default'' ex_catalog ex_agg ex_db)
        (''trend_follow'', ''CN'', ''default'') \<noteq> ex_db (''trend_follow'', ''CN'', ''default'')"
    by (auto simp: ex_db_cn)
  have b: "target_sample_size ex_agg ''trend_follow'' ''HK'' < eff_min_samples 8"
    by (simp add: ex_sample_sizes ex_effs)
  from a b rebalance_weight_bounds [of 45 8 "35 / 100" "''default''" ex_catalog ex_agg ex_db]
  show ?thesis by blast
qed

section \<open>Candidate aggregator: holding normalization and status\<close>

lemma build_candidate_action:
  "ca_action (build_candidate hk inp) =
     (if in_key inp \<in> hk then (if rs_action (resolve_action inp) = ''buy'' then ''add'' else rs_action (resolve_action inp))
      else (if rs_action (resolve_action inp) = ''add'' then ''buy'' else rs_action (resolve_action inp)))"
  by (simp add: build_candidate_def Let_def)

lemma build_candidate_key: "ca_key (build_candidate hk inp) = in_key inp"
  by (simp add: build_candidate_def Let_def)

lemma build_candidate_status:
  "ca_status (build_candidate hk inp) =
     (if ca_action (build_candidate hk inp) \<in> {''buy'', ''add''}
         \<and> 90 \<le> ca_plan_quality (build_candidate hk inp)
         \<and> (if ca_candidate_source (build_candidate hk inp) \<in> {''market_scan'', ''mixed''} then 62 else 55)
             \<le> ca_score (build_candidate hk inp)
      then ''active'' else ''inactive'')"
  by (simp add: build_candidate_def Let_def)

lemma strip_plain: "py_strip ''buy'' = ''buy''" "py_strip ''watchlist'' = ''watchlist''"
  "py_strip ''market_scan'' = ''market_scan''" "py_strip [] = []"
  by (simp_all add: py_strip_def is_space_def)

lemma lower_plain: "py_lower ''buy'' = ''buy''" "py_lower [] = []"
  by (simp_all add: py_lower_def lower_char_def)

lemma strip_bull: "py_strip txt_bull_trend = txt_bull_trend"
  by (simp add: py_strip_def is_space_def txt_bull_trend_def)

lemma ex_held_action: "rs_action (resolve_action ex_held_input) = ''buy''"
  by (simp add: resolve_action_def ex_held_input_def Let_def str_or_def strip_plain lower_plain)

lemma stripped_simps:
  "stripped None = []" "stripped (Some txt_bull_trend) = txt_bull_trend"
  by (simp_all add: stripped_def str_or_def py_strip_def is_space_def txt_bull_trend_def)

lemma txt_distinct:
  "txt_bull_trend \<noteq> txt_bear_trend" "txt_bull_trend \<noteq> []"
  "txt_golden_cross \<noteq> []" "txt_death_cross \<noteq> []" "txt_bear_trend \<noteq> []"
  "txt_oversold \<noteq> []" "txt_weak \<noteq> []" "txt_overbought \<noteq> []"
  by (simp_all add: txt_bull_trend_def txt_bear_trend_def txt_golden_cross_def txt_death_cross_def
        txt_oversold_def txt_weak_def txt_overbought_def)

lemma ex_decision: "dec_action (derive_market_scan_decision ex_cquote ex_kline_bull) = ''add''"
  by (simp add: derive_market_scan_decision_def ex_cquote_def ex_kline_bull_def Let_def
        stripped_simps txt_distinct txt_distinct [symmetric] py_or_def)

lemma ex_scan_action: "rs_action (resolve_action ex_scan_input) = ''add''"
proof -
  have "ACTION_BASE_SCORE [] = None" by (simp add: ACTION_BASE_SCORE_def)
  then show ?thesis
    using ex_decision
    by (simp add: resolve_action_def ex_scan_input_def Let_def stripped_def str_or_def strip_plain lower_plain)
qed

text \<open>
  Claim C6. For each merged input of a candidate refresh the persisted action is the
  resolved one with \<open>buy\<close> turned into \<open>add\<close> when the symbol is in the holding set, and
  \<open>add\<close> turned into \<open>buy\<close> when it is not; the resolved action is the suggestion's
  when one is attached and the seeded or market-scan-derived one otherwise. So no held
  symbol is persisted with \<open>buy\<close> and no unheld one with \<open>add\<close>.
\<close>

theorem holding_normalization:
  "i < length inputs \<Longrightarrow>
   ca_key (refresh_entry_candidates holding_keys inputs ! i) = in_key (inputs ! i) \<and>
   (in_key (inputs ! i) \<in> holding_keys \<and> rs_action (resolve_action (inputs ! i)) = ''buy'' \<longrightarrow>
      ca_action (refresh_entry_candidates holding_keys inputs ! i) = ''add'') \<and>
   (in_key (inputs ! i) \<notin> holding_keys \<and> rs_action (resolve_action (inputs ! i)) = ''add'' \<longrightarrow>
      ca_action (refresh_entry_candidates holding_keys inputs ! i) = ''buy'') \<and>
   (in_key (inputs ! i) \<in> holding_keys \<longrightarrow>
      ca_action (refresh_entry_candidates holding_keys inputs ! i) \<noteq> ''buy'') \<and>
   (in_key (inputs ! i) \<notin> holding_keys \<longrightarrow>
      ca_action (refresh_entry_candidates holding_keys inputs ! i) \<noteq> ''add'')"
  by (simp add: refresh_entry_candidates_def build_candidate_action build_candidate_key)

theorem holding_normalization_witness:
  "(0 :: nat) < length [ex_held_input, ex_scan_input] \<and> (1 :: nat) < length [ex_held_input, ex_scan_input]
   \<and> in_suggestion ex_held_input \<noteq> None \<and> in_suggestion ex_scan_input = None
   \<and> in_key ([ex_held_input, ex_scan_input] ! 0) \<in> {''CN:600519''}
   \<and> rs_action (resolve_action ([ex_held_input, ex_scan_input] ! 0)) = ''buy''
   \<and> ca_action (refresh_entry_candidates {''CN:600519''} [ex_held_input, ex_scan_input] ! 0) = ''add''
   \<and> in_key ([ex_held_input, ex_scan_input] ! 1) \<notin> {''CN:600519''}
   \<and> rs_action (resolve_action ([ex_held_input, ex_scan_input] ! 1)) = ''add''
   \<and> ca_action (refresh_entry_candidates {''CN:600519''} [ex_held_input, ex_scan_input] ! 1) = ''buy''"
proof -
  have k: "in_key ex_held_input = ''CN:600519''" "in_key ex_scan_input = ''CN:000001''"
    "in_suggestion ex_held_input \<noteq> None" "in_suggestion ex_scan_input = None"
    by (simp_all add: ex_held_input_def ex_scan_input_def)
  from holding_normalization [of 0 "[ex_held_input, ex_scan_input]" "{''CN:600519''}"]
       holding_normalization [of 1 "[ex_held_input, ex_scan_input]" "{''CN:600519''}"]
       k ex_held_action ex_scan_action
  show ?thesis by simp
qed

lemma build_candidate_source:
  "ca_candidate_source (build_candidate hk inp) = py_strip (str_or (in_candidate_source inp) ''watchlist'')"
  by (simp add: build_candidate_def Let_def)

lemma build_candidate_score: "ca_score (build_candidate hk inp) = rs_score (resolve_action inp)"
  by (simp add: build_candidate_def Let_def)

lemma build_candidate_quality:
  "in_plan_seed inp = None \<Longrightarrow>
   ca_plan_quality (build_candidate hk inp)
     = plan_quality (build_plan (ca_action (build_candidate hk inp)) (in_quote inp) (in_kline inp) (in_meta inp))"
  by (simp add: build_candidate_def Let_def)

lemma ex_plan_quality: "plan_quality (build_plan ''add'' ex_cquote ex_kline_bull no_meta) = 100"
  by (simp add: build_plan_def plan_quality_def ex_cquote_def ex_kline_bull_def no_meta_def py_or_def
        inv_blank_def Let_def)

lemma base_buy: "base_action_score ''buy'' = 78"
  by (simp add: base_action_score_def ACTION_BASE_SCORE_def strip_plain lower_plain)

lemma ex_kline_bull_fields:
  "ks_trend ex_kline_bull = Some txt_bull_trend" "ks_macd_cross ex_kline_bull = None"
  "ks_rsi_status ex_kline_bull = None" "ks_kdj_status ex_kline_bull = None"
  "ks_volume_ratio ex_kline_bull = Some 2" "cq_change_pct ex_cquote = None"
  by (simp_all add: ex_kline_bull_def ex_cquote_def)

lemma ex_score_suggestion:
  "score_suggestion ''buy'' \<lparr>sug_context_quality = None, sug_age_hours = None\<rparr> ex_cquote ex_kline_bull = 90"
  unfolding score_suggestion_def Let_def ex_kline_bull_fields base_buy stripped_simps
  by (simp add: txt_distinct txt_distinct [symmetric] clamp_def)

lemma ex_held_fields:
  "in_suggestion ex_held_input = Some \<lparr>sug_context_quality = None, sug_age_hours = None\<rparr>"
  "in_action ex_held_input = Some ''buy''" "in_quote ex_held_input = ex_cquote"
  "in_kline ex_held_input = ex_kline_bull"
  by (simp_all add: ex_held_input_def)

lemma ex_held_score: "rs_score (resolve_action ex_held_input) = 90"
  unfolding resolve_action_def Let_def ex_held_fields
  by (simp add: str_or_def strip_plain lower_plain ex_score_suggestion)

lemma ex_held_row:
  "ca_action (build_candidate {''CN:600519''} ex_held_input) = ''add''"
  "ca_plan_quality (build_candidate {''CN:600519''} ex_held_input) = 100"
  "ca_score (build_candidate {''CN:600519''} ex_held_input) = 90"
  "ca_candidate_source (build_candidate {''CN:600519''} ex_held_input) = ''watchlist''"
proof -
  show a: "ca_action (build_candidate {''CN:600519''} ex_held_input) = ''add''"
    by (simp add: build_candidate_action ex_held_action) (simp add: ex_held_input_def)
  have "in_plan_seed ex_held_input = None" "in_quote ex_held_input = ex_cquote"
    "in_kline ex_held_input = ex_kline_bull" "in_meta ex_held_input = no_meta"
    "in_candidate_source ex_held_input = Some ''watchlist''"
    by (simp_all add: ex_held_input_def)
  then show "ca_plan_quality (build_candidate {''CN:600519''} ex_held_input) = 100"
    "ca_candidate_source (build_candidate {''CN:600519''} ex_held_input) = ''watchlist''"
    by (simp_all add: build_candidate_quality a ex_plan_quality build_candidate_source str_or_def strip_plain)
  show "ca_score (build_candidate {''CN:600519''} ex_held_input) = 90"
    by (simp add: build_candidate_score ex_held_score)
qed

lemma ex_idle_action: "rs_action (resolve_action ex_idle_input) = ''watch''"
proof -
  have "ACTION_BASE_SCORE [] = None" by (simp add: ACTION_BASE_SCORE_def)
  moreover have "dec_action (derive_market_scan_decision ex_cquote ex_kline_none) = ''watch''"
    by (simp add: derive_market_scan_decision_def ex_cquote_def ex_kline_none_def Let_def
        stripped_simps txt_distinct txt_distinct [symmetric] py_or_def)
  ultimately show ?thesis
    by (simp add: resolve_action_def ex_idle_input_def Let_def stripped_def str_or_def strip_plain lower_plain)
qed

text \<open>
  Claim C8. A row persisted by a candidate refresh has status \<open>active\<close> exactly when its
  action is \<open>buy\<close> or \<open>add\<close>, its plan quality is at least 90 and its score is at least
  62 for the sources \<open>market_scan\<close> and \<open>mixed\<close>, at least 55 for any other source;
  every other row has status \<open>inactive\<close>.
\<close>

theorem candidate_status_rule:
  "row \<in> set (refresh_entry_candidates holding_keys inputs) \<Longrightarrow>
   (ca_status row = ''active'' \<longleftrightarrow>
      (ca_action row = ''buy'' \<or> ca_action row = ''add'') \<and> 90 \<le> ca_plan_quality row \<and>
      (if ca_candidate_source row = ''market_scan'' \<or> ca_candidate_source row = ''mixed''
       then 62 else 55) \<le> ca_score row) \<and>
   (ca_status row = ''active'' \<or> ca_status row = ''inactive'')"
proof -
  assume "row \<in> set (refresh_entry_candidates holding_keys inputs)"
  then obtain inp where row: "row = build_candidate holding_keys inp"
    by (auto simp: refresh_entry_candidates_def)
  show ?thesis unfolding row
    by (cases "ca_action (build_candidate holding_keys inp) \<in> {''buy'', ''add''}
         \<and> 90 \<le> ca_plan_quality (build_candidate holding_keys inp)
         \<and> (if ca_candidate_source (build_candidate holding_keys inp) \<in> {''market_scan'', ''mixed''} then 62 else 55)
             \<le> ca_score (build_candidate holding_keys inp)")
       (simp_all add: build_candidate_status [of holding_keys inp])
qed

theorem candidate_status_rule_witness:
  "build_candidate {''CN:600519''} ex_held_input
     \<in> set (refresh_entry_candidates {''CN:600519''} [ex_held_input, ex_idle_input])
   \<and> ca_status (build_candidate {''CN:600519''} ex_held_input) = ''active''
   \<and> ca_action (build_candidate {''CN:600519''} ex_held_input) = ''add''
   \<and> ca_plan_quality (build_candidate {''CN:600519''} ex_held_input) = 100
   \<and> ca_score (build_candidate {''CN:600519''} ex_held_input) = 90
   \<and> ca_candidate_source (build_candidate {''CN:600519''} ex_held_input) = ''watchlist''
   \<and> build_candidate {''CN:600519''} ex_idle_input
     \<in> set (refresh_entry_candidates {''CN:600519''} [ex_held_input, ex_idle_input])
   \<and> ca_action (build_candidate {''CN:600519''} ex_idle_input) = ''watch''
   \<and> ca_status (build_candidate {''CN:600519''} ex_idle_input) = ''inactive''"
proof -
  have m: "build_candidate {''CN:600519''} ex_held_input
     \<in> set (refresh_entry_candidates {''CN:600519''} [ex_held_input, ex_idle_input])"
    "build_candidate {''CN:600519''} ex_idle_input
     \<in> set (refresh_entry_candidates {''CN:600519''} [ex_held_input, ex_idle_input])"
    by (simp_all add: refresh_entry_candidates_def)
  have idle: "ca_action (build_candidate {''CN:600519''} ex_idle_input) = ''watch''"
    by (simp add: build_candidate_action ex_idle_action)
  from candidate_status_rule [OF m(1)] candidate_status_rule [OF m(2)] m ex_held_row idle
  show ?thesis by auto
qed

section \<open>Price alert engine: gating\<close>

lemma can_trigger_gated:
  "gated now rule \<Longrightarrow> fst (fst (can_trigger env bypass now st rule)) = False"
  unfolding gated_def rule_expired_def in_cooldown_def can_trigger_def Let_def
  by (auto split: option.splits)

lemma scan_rule_gated:
  assumes "gated now rule"
  shows "ss_hits (scan_rule env dry bypass now rule s) = ss_hits s"
proof (cases "r_stock rule")
  case None
  then show ?thesis by (simp add: scan_rule_def skip_with_def)
next
  case (Some st)
  show ?thesis
  proof (cases "quote_of env st")
    case None
    then show ?thesis using Some by (simp add: scan_rule_def skip_with_def)
  next
    case (Some q)
    obtain can reason rule1 where ct: "can_trigger env bypass now st rule = ((can, reason), rule1)"
      by (metis prod.exhaust)
    with can_trigger_gated [OF assms, of env bypass st] have "\<not> can" by simp
    then show ?thesis using \<open>r_stock rule = Some st\<close> Some ct
      by (simp add: scan_rule_def skip_with_def)
  qed
qed

lemma scan_rule_hits:
  "ss_hits (scan_rule env dry bypass now rule s) = ss_hits s \<or>
   (\<exists>h. ss_hits (scan_rule env dry bypass now rule s) = ss_hits s @ [h] \<and> h_rule_id h = r_id rule)"
  by (auto simp: scan_rule_def skip_with_def Let_def split: option.splits prod.splits)

lemma scan_rule_filter:
  assumes "r_id rule = i \<longrightarrow> gated now rule"
  shows "filter (\<lambda>h. h_rule_id h = i) (ss_hits (scan_rule env dry bypass now rule s))
       = filter (\<lambda>h. h_rule_id h = i) (ss_hits s)"
proof (cases "r_id rule = i")
  case True
  with assms scan_rule_gated show ?thesis by simp
next
  case False
  with scan_rule_hits [of env dry bypass now rule s] show ?thesis by auto
qed

lemma fold_scan_rule_filter:
  "\<forall>rule \<in> set rules. r_id rule = i \<longrightarrow> gated now rule \<Longrightarrow>
   filter (\<lambda>h. h_rule_id h = i) (ss_hits (fold (scan_rule env dry bypass now) rules s))
     = filter (\<lambda>h. h_rule_id h = i) (ss_hits s)"
  by (induction rules arbitrary: s) (simp_all add: scan_rule_filter)

text \<open>
  Claim C7. In a scan at instant \<open>now\<close>, a rule that is disabled, or whose \<open>expire_at\<close>
  lies before \<open>now\<close>, or whose cooldown since \<open>last_trigger_at\<close> has not elapsed, gets
  no Alert Hit: the hits of its id are the ones the table had before, whatever the
  quotes, the conditions, the trading hours and the flags of the scan are.
\<close>

theorem gated_rule_never_hits:
  "r \<in> set all_rules \<Longrightarrow> \<forall>r' \<in> set all_rules. r_id r' = r_id r \<longrightarrow> r' = r \<Longrightarrow>
   \<not> r_enabled r \<or> rule_expired now r \<or> in_cooldown now r \<Longrightarrow>
   filter (\<lambda>h. h_rule_id h = r_id r)
     (ss_hits (scan_once env only_rule_id dry_run bypass_market_hours now all_rules hits))
   = filter (\<lambda>h. h_rule_id h = r_id r) hits"
proof -
  assume uniq: "\<forall>r' \<in> set all_rules. r_id r' = r_id r \<longrightarrow> r' = r"
    and g: "\<not> r_enabled r \<or> rule_expired now r \<or> in_cooldown now r"
  let ?rules = "filter (\<lambda>r. r_enabled r \<and> r_stock r \<noteq> None \<and>
                     (case only_rule_id of None \<Rightarrow> True | Some i \<Rightarrow> i = 0 \<or> r_id r = i)) all_rules"
  have "\<forall>rule \<in> set ?rules. r_id rule = r_id r \<longrightarrow> gated now rule"
    using uniq g by (auto simp: gated_def)
  from fold_scan_rule_filter [OF this] show ?thesis
    by (simp add: scan_once_def)
qed

lemma ex_eval: "fst (eval_rule ex_env ex_stock ex_rule ex_quote) = True"
  by (simp add: eval_rule_def ex_rule_def eval_condition_def ex_quote_def op_eval_def py_strip_def
        py_lower_def is_space_def lower_char_def safe_float_def List.map_filter_def Let_def)

lemma ex_can: "fst (can_trigger ex_env False 1000000 ex_stock ex_rule) = (False, ''cooldown'')"
  by (simp add: can_trigger_def ex_rule_def ex_env_def day_key_def int_or_def Let_def)

theorem gated_rule_never_hits_witness:
  "ex_rule \<in> set [ex_rule]
   \<and> in_cooldown 1000000 ex_rule
   \<and> fst (eval_rule ex_env ex_stock ex_rule ex_quote)
   \<and> fst (can_trigger ex_env False 1000000 ex_stock ex_rule) = (False, ''cooldown'')
   \<and> filter (\<lambda>h. h_rule_id h = r_id ex_rule)
       (ss_hits (scan_once ex_env None False False 1000000 [ex_rule] [])) = []"
proof -
  have a: "in_cooldown 1000000 ex_rule"
    by (simp add: in_cooldown_def ex_rule_def int_or_def)
  have u: "\<forall>r' \<in> set [ex_rule]. r_id r' = r_id ex_rule \<longrightarrow> r' = ex_rule" by simp
  from gated_rule_never_hits [of ex_rule "[ex_rule]" 1000000 ex_env None False False "[]"] a u
  have "filter (\<lambda>h. h_rule_id h = r_id ex_rule)
       (ss_hits (scan_once ex_env None False False 1000000 [ex_rule] [])) = []"
    by simp
  with a ex_eval ex_can show ?thesis by simp
qed

end
